theory Spec2Isabelle
  imports Complex_Main "HOL-Library.AList"
begin

section \<open>Tensors\<close>

text \<open>
  The module onmt/modules/Transformer.py works on three-dimensional tensors throughout
  (len x batch x features, or batch x len x channels). A tensor is a nested list; the
  framework version the module is written for has no dimension of size zero, so the
  theorems below ask for rectangular tensors with non-empty dimensions. Token tensors
  hold integers, activations and masks hold reals: rounding is not part of this model.
\<close>

type_synonym 'a tensor3 = "'a list list list"
type_synonym tokens = "int tensor3"
type_synonym tensor = "real tensor3"

datatype error =
    AssertionError
  | RuntimeError
  | ValueError
  | TypeError
  | IndexError
  | NameError string

definition dim1 :: "'a list list \<Rightarrow> nat" where
  "dim1 T = (case T of [] \<Rightarrow> 0 | r # _ \<Rightarrow> length r)"

definition dim2 :: "'a tensor3 \<Rightarrow> nat" where
  "dim2 T = (case T of [] \<Rightarrow> 0 | r # _ \<Rightarrow> dim1 r)"

text \<open>\<open>T.size()\<close> of a three-dimensional tensor.\<close>

definition size3 :: "'a tensor3 \<Rightarrow> nat \<times> nat \<times> nat" where
  "size3 T = (length T, dim1 T, dim2 T)"

text \<open>\<open>has_shape T (a, b, c)\<close>: the nested list is the rectangular tensor of that size.\<close>

definition has_shape :: "'a tensor3 \<Rightarrow> nat \<times> nat \<times> nat \<Rightarrow> bool" where
  "has_shape T s = (case s of (a, b, c) \<Rightarrow>
     length T = a \<and> list_all (\<lambda>r. length r = b \<and> list_all (\<lambda>v. length v = c) r) T)"

text \<open>\<open>T.transpose(0, 1)\<close>: entry \<open>j, i\<close> of the result is entry \<open>i, j\<close> of \<open>T\<close>.\<close>

definition transpose01 :: "'a list list \<Rightarrow> 'a list list" where
  "transpose01 T = map (\<lambda>j. map (\<lambda>r. r ! j) T) [0..<dim1 T]"

text \<open>\<open>T[:, :, 0]\<close>.\<close>

definition select0 :: "'a tensor3 \<Rightarrow> 'a list list" where
  "select0 T = map (map (\<lambda>v. v ! 0)) T"

text \<open>\<open>torch.cat\<close> along dimension 0 and along dimension 1: the other dimensions must agree.\<close>

definition torch_cat0 :: "'a tensor3 \<Rightarrow> 'a tensor3 \<Rightarrow> error + 'a tensor3" where
  "torch_cat0 A B =
     (if dim1 A = dim1 B \<and> dim2 A = dim2 B then Inr (A @ B) else Inl RuntimeError)"

definition torch_cat1 :: "'a tensor3 \<Rightarrow> 'a tensor3 \<Rightarrow> error + 'a tensor3" where
  "torch_cat1 A B =
     (if length A = length B \<and> dim2 A = dim2 B then Inr (map2 (@) A B) else Inl RuntimeError)"

text \<open>\<open>T.repeat(a, b, c)\<close> on a three-dimensional tensor tiles it along each dimension.\<close>

definition torch_repeat :: "nat \<Rightarrow> nat \<Rightarrow> nat \<Rightarrow> 'a tensor3 \<Rightarrow> 'a tensor3" where
  "torch_repeat a b c T =
     concat (replicate a (map (\<lambda>m. concat (replicate b (map (\<lambda>v. concat (replicate c v)) m))) T))"

text \<open>
  Elementwise \<open>+\<close> of two three-dimensional tensors, with broadcasting: in every
  dimension the two sizes are equal or one of them is 1, and the operand of size 1 is
  repeated along that dimension; any other pair of sizes is a shape error.
\<close>

definition broadcastable :: "nat \<Rightarrow> nat \<Rightarrow> bool" where
  "broadcastable a b = (a = b \<or> a = 1 \<or> b = 1)"

definition broadcast2 :: "('a \<Rightarrow> 'a \<Rightarrow> 'a) \<Rightarrow> 'a list \<Rightarrow> 'a list \<Rightarrow> 'a list" where
  "broadcast2 f xs ys =
     (if length xs = length ys then map2 f xs ys
      else if length xs = 1 then map (f (xs ! 0)) ys
      else map (\<lambda>x. f x (ys ! 0)) xs)"

definition tensor_add :: "tensor \<Rightarrow> tensor \<Rightarrow> error + tensor" where
  "tensor_add A B =
     (if broadcastable (length A) (length B) \<and> broadcastable (dim1 A) (dim1 B)
         \<and> broadcastable (dim2 A) (dim2 B)
      then Inr (broadcast2 (broadcast2 (broadcast2 (+))) A B)
      else Inl RuntimeError)"

text \<open>
  \<open>torch.stack\<close>: an empty sequence is refused, and all tensors must have one size. The
  stacked four-dimensional tensor is kept as the list of its slices along dimension 0.
\<close>

definition torch_stack :: "tensor list \<Rightarrow> error + tensor list" where
  "torch_stack ts =
     (case ts of [] \<Rightarrow> Inl ValueError
      | t # _ \<Rightarrow> if list_all (\<lambda>u. size3 u = size3 t) ts then Inr ts else Inl RuntimeError)"

section \<open>Decoder state\<close>

text \<open>
  \<open>TransformerDecoderState\<close>: the source tokens, the target tokens consumed so far and
  the cached self-attention inputs of every layer (\<open>None\<close> until the first forward call).
\<close>

record TransformerDecoderState =
  src :: tokens
  previous_input :: "tokens option"
  previous_layer_inputs :: "tensor list option"

text \<open>
  State objects are passed by reference and one method assigns to a field, so the objects
  live in a heap: a reference is an index into the list of allocated objects, allocation
  appends. \<open>Other_obj\<close> stands for an instance of any other class.
\<close>

datatype pyobj = TransformerDecoderState_obj TransformerDecoderState | Other_obj

type_synonym ref = nat
type_synonym heap = "pyobj list"

text \<open>\<open>TransformerDecoderState(src)\<close>.\<close>

definition TransformerDecoderState_init :: "tokens \<Rightarrow> TransformerDecoderState" where
  "TransformerDecoderState_init s =
     \<lparr>src = s, previous_input = None, previous_layer_inputs = None\<rparr>"

text \<open>
  \<open>update_state(self, input, previous_layer_inputs)\<close>: builds a fresh object from
  \<open>self.src\<close>, sets its two other fields and returns it.
\<close>

definition update_state ::
  "heap \<Rightarrow> TransformerDecoderState \<Rightarrow> tokens \<Rightarrow> tensor list \<Rightarrow> ref \<times> heap" where
  "update_state h self input pli =
     (let state = TransformerDecoderState_init (src self);
          state = state\<lparr>previous_input := Some input\<rparr>;
          state = state\<lparr>previous_layer_inputs := Some pli\<rparr>
      in (length h, h @ [TransformerDecoderState_obj state]))"

text \<open>
  \<open>repeat_beam_size_times(self, beam_size)\<close>: assigns \<open>self.src.data.repeat(1, beam_size, 1)\<close>
  to the field \<open>src\<close> of the object itself; returns nothing.
\<close>

definition repeat_beam_size_times :: "heap \<Rightarrow> ref \<Rightarrow> nat \<Rightarrow> heap" where
  "repeat_beam_size_times h self beam_size =
     (case h ! self of
        TransformerDecoderState_obj s \<Rightarrow>
          h[self := TransformerDecoderState_obj (s\<lparr>src := torch_repeat 1 beam_size 1 (src s)\<rparr>)]
      | Other_obj \<Rightarrow> h)"

section \<open>Collaborators\<close>

text \<open>
  The attention primitive, the normalisation, the feed-forward block, dropout and the
  embeddings are other modules' code. The layers below take them as components: total
  functions on tensors, called exactly where the source calls them.
  An attention module is called as \<open>ma(query, memory, num_heads, bias)\<close> and returns the
  context and the attention weights; \<open>memory\<close> and \<open>bias\<close> may be \<open>None\<close>.
\<close>

type_synonym attention_fn = "tensor \<Rightarrow> tensor option \<Rightarrow> nat \<Rightarrow> tensor option \<Rightarrow> tensor \<times> tensor"

text \<open>
  What \<open>self.embeddings(tgt)\<close> returns: a three-dimensional tensor
  (len x batch x embedding_dim), or a tensor with another number of dimensions, which
  forward refuses by assertion.
\<close>

datatype embedded = Dim3 tensor | Other_dim

text \<open>\<open>emb[n:, ]\<close>: the rows from \<open>n\<close> on; the number of dimensions stays.\<close>

definition slice_from :: "nat \<Rightarrow> embedded \<Rightarrow> embedded" where
  "slice_from n e = (case e of Dim3 t \<Rightarrow> Dim3 (drop n t) | Other_dim \<Rightarrow> Other_dim)"

record Embeddings =
  word_padding_idx :: int
  embed :: "tokens \<Rightarrow> embedded"

text \<open>
  Modelled from the spec: \<open>onmt.Utils.aeq\<close>, which is not among the sources. The spec
  calls it an explicit equality check that fails fast by assertion: it raises unless all
  its arguments are equal to the first.
\<close>

definition aeq :: "nat list \<Rightarrow> error + unit" where
  "aeq args = (case args of [] \<Rightarrow> Inr ()
     | first # rest \<Rightarrow> if list_all (\<lambda>a. a = first) rest then Inr () else Inl AssertionError)"

text \<open>
  Modelled from the spec: \<open>attention.get_local_mask\<close>, which is not among the sources.
  The source's comment gives its size, \<open>[1, length, length]\<close>; the spec calls it the
  local/causal mask that disallows future positions: entry \<open>i, j\<close> is 1 when key position
  \<open>j\<close> lies after query position \<open>i\<close>, and 0 otherwise.
\<close>

definition get_local_mask :: "nat \<Rightarrow> tensor" where
  "get_local_mask n = [map (\<lambda>i. map (\<lambda>j. if i < j then 1 else 0) [0..<n]) [0..<n]]"

section \<open>Decoder layer\<close>

record DecoderLayer =
  num_heads :: nat
  ma_l1 :: attention_fn
  ma_l2 :: attention_fn
  ffn :: "tensor \<Rightarrow> tensor"
  ma_l1_prenorm :: "tensor \<Rightarrow> tensor"
  ma_l2_prenorm :: "tensor \<Rightarrow> tensor"
  ffn_prenorm :: "tensor \<Rightarrow> tensor"
  ma_l1_postdropout :: "tensor \<Rightarrow> tensor"
  ma_l2_postdropout :: "tensor \<Rightarrow> tensor"
  ffn_postdropout :: "tensor \<Rightarrow> tensor"

text \<open>
  \<open>DecoderLayer.forward(x, encoder_output, self_attention_bias, encoder_decoder_bias,
  previous_input=None)\<close>, returning \<open>(ans, attn, all_inputs)\<close>.
\<close>

definition DecoderLayer_forward ::
  "DecoderLayer \<Rightarrow> tensor \<Rightarrow> tensor \<Rightarrow> tensor option \<Rightarrow> tensor option \<Rightarrow> tensor option
     \<Rightarrow> error + (tensor \<times> tensor \<times> tensor)" where
  "DecoderLayer_forward L x encoder_output self_attention_bias encoder_decoder_bias prev =
     (let norm_x = ma_l1_prenorm L x in
      case (case prev of
              None \<Rightarrow> Inr (norm_x, self_attention_bias)
            | Some p \<Rightarrow> (case torch_cat1 p norm_x of
                           Inl e \<Rightarrow> Inl e
                         | Inr c \<Rightarrow> Inr (c, None))) of
        Inl e \<Rightarrow> Inl e
      | Inr (all_inputs, self_attention_bias) \<Rightarrow>
     (let y = fst (ma_l1 L norm_x (Some all_inputs) (num_heads L) self_attention_bias) in
      case tensor_add (ma_l1_postdropout L y) x of
        Inl e \<Rightarrow> Inl e
      | Inr x \<Rightarrow>
     (let (y, attn) = ma_l2 L (ma_l2_prenorm L x) (Some encoder_output) (num_heads L)
                        encoder_decoder_bias in
      case tensor_add (ma_l2_postdropout L y) x of
        Inl e \<Rightarrow> Inl e
      | Inr x \<Rightarrow>
     (let y = ffn L (ffn_prenorm L x) in
      case tensor_add (ffn_postdropout L y) x of
        Inl e \<Rightarrow> Inl e
      | Inr ans \<Rightarrow> Inr (ans, attn, all_inputs)))))"

section \<open>Decoder stack\<close>

text \<open>
  \<open>TransformerDecoder\<close>: \<open>copy\<close> is the attribute \<open>_copy\<close>; \<open>copy_attn\<close> is the separate
  copy-attention layer that the constructor sets up when asked to.
\<close>

record TransformerDecoder =
  num_layers :: nat
  embeddings :: Embeddings
  layer_stack :: "DecoderLayer list"
  copy :: bool
  copy_attn :: "attention_fn option"
  layer_norm :: "tensor \<Rightarrow> tensor"

text \<open>The checks between \<open># CHECKS\<close> and the concatenation (lines 197 to 207).\<close>

definition forward_checks :: "tokens \<Rightarrow> tensor \<Rightarrow> TransformerDecoderState \<Rightarrow> error + unit" where
  "forward_checks tgt memory_bank state =
     (let (tgt_len, tgt_batch, _) = size3 tgt;
          (memory_len, memory_batch, _) = size3 memory_bank in
      case aeq [tgt_batch, memory_batch] of
        Inl e \<Rightarrow> Inl e
      | Inr _ \<Rightarrow>
     (let src_words = transpose01 (select0 (src state));
          tgt_words = transpose01 (select0 tgt);
          (src_batch, src_len) = (length src_words, dim1 src_words);
          (tgt_batch, tgt_len) = (length tgt_words, dim1 tgt_words) in
      case aeq [tgt_batch, memory_batch, src_batch, tgt_batch] of
        Inl e \<Rightarrow> Inl e
      | Inr _ \<Rightarrow> aeq [memory_len, src_len]))"

text \<open>\<open>words.data.eq(padding_idx).float()\<close>.\<close>

definition eq_float :: "int \<Rightarrow> int list list \<Rightarrow> real list list" where
  "eq_float padding_idx words = map (map (\<lambda>w. if w = padding_idx then 1 else 0)) words"

text \<open>\<open>unsqueeze\<close> at dimension 1: \<open>[a, b]\<close> becomes \<open>[a, 1, b]\<close>.\<close>

definition unsqueeze1 :: "'a list list \<Rightarrow> 'a tensor3" where
  "unsqueeze1 M = map (\<lambda>r. [r]) M"

text \<open>The two biases (lines 228 to 235), from the word tensors in batch-first layout.\<close>

definition make_encoder_decoder_bias :: "int \<Rightarrow> int list list \<Rightarrow> tensor" where
  "make_encoder_decoder_bias padding_idx src_words =
     (let src_pad_mask = eq_float padding_idx src_words
      in unsqueeze1 (map (map (\<lambda>v. v * (- 1000000000))) src_pad_mask))"

definition make_decoder_bias :: "int \<Rightarrow> int list list \<Rightarrow> error + tensor" where
  "make_decoder_bias padding_idx tgt_words =
     (let (tgt_batch, tgt_len) = (length tgt_words, dim1 tgt_words);
          tgt_pad_mask = unsqueeze1 (eq_float padding_idx tgt_words);
          tgt_pad_mask = torch_repeat 1 tgt_len 1 tgt_pad_mask;
          decoder_local_mask = get_local_mask tgt_len;
          decoder_local_mask = torch_repeat tgt_batch 1 1 decoder_local_mask in
      case tensor_add tgt_pad_mask decoder_local_mask of
        Inl e \<Rightarrow> Inl e
      | Inr s \<Rightarrow>
          Inr (map (map (map (\<lambda>v. (if v > 0 then 1 else 0) * (- 1000000000)))) s))"

text \<open>
  The loop over the layers (lines 237 to 245), for the remaining indices \<open>is\<close>. The
  accumulator holds \<open>output\<close>, \<open>attn\<close> (unbound before the first layer ran) and
  \<open>saved_inputs\<close>.
\<close>

fun layer_loop ::
  "TransformerDecoder \<Rightarrow> TransformerDecoderState \<Rightarrow> tensor \<Rightarrow> tensor \<Rightarrow> tensor \<Rightarrow> nat list
     \<Rightarrow> tensor \<times> tensor option \<times> tensor list
     \<Rightarrow> error + (tensor \<times> tensor option \<times> tensor list)" where
  "layer_loop D state src_memory_bank decoder_bias encoder_decoder_bias [] acc = Inr acc"
| "layer_loop D state src_memory_bank decoder_bias encoder_decoder_bias (i # is)
     (output, attn, saved_inputs) =
     (case (case previous_input state of
              None \<Rightarrow> Inr None
            | Some _ \<Rightarrow> (case previous_layer_inputs state of
                           None \<Rightarrow> Inl TypeError
                         | Some pli \<Rightarrow> if i < length pli then Inr (Some (pli ! i))
                                       else Inl IndexError)) of
        Inl e \<Rightarrow> Inl e
      | Inr prev_layer_input \<Rightarrow>
          if i < length (layer_stack D) then
            (case DecoderLayer_forward (layer_stack D ! i) output src_memory_bank
                    (Some decoder_bias) (Some encoder_decoder_bias) prev_layer_input of
               Inl e \<Rightarrow> Inl e
             | Inr (output, attn, all_input) \<Rightarrow>
                 layer_loop D state src_memory_bank decoder_bias encoder_decoder_bias is
                   (output, Some attn, saved_inputs @ [all_input]))
          else Inl IndexError)"

text \<open>
  \<open>TransformerDecoder.forward(tgt, memory_bank, state)\<close>, returning
  \<open>(outputs, state, attns)\<close> and the heap with the new state object in it. The
  dictionary \<open>attns\<close> is an association list in insertion order.
\<close>

definition TransformerDecoder_forward ::
  "TransformerDecoder \<Rightarrow> heap \<Rightarrow> tokens \<Rightarrow> tensor \<Rightarrow> ref
     \<Rightarrow> error + ((tensor \<times> ref \<times> (string \<times> tensor) list) \<times> heap)" where
  "TransformerDecoder_forward D h tgt memory_bank state_ref =
     (case h ! state_ref of
        Other_obj \<Rightarrow> Inl AssertionError
      | TransformerDecoderState_obj state \<Rightarrow>
     (case forward_checks tgt memory_bank state of
        Inl e \<Rightarrow> Inl e
      | Inr _ \<Rightarrow>
     (let src_words = transpose01 (select0 (src state));
          tgt_words = transpose01 (select0 tgt) in
      case (case previous_input state of
              None \<Rightarrow> Inr tgt
            | Some p \<Rightarrow> torch_cat0 p tgt) of
        Inl e \<Rightarrow> Inl e
      | Inr tgt \<Rightarrow>
     (let attns = [(''std'', [])];
          attns = (if copy D then AList.update ''copy'' [] attns else attns);
          emb = embed (embeddings D) tgt;
          emb = (case previous_input state of
                   None \<Rightarrow> emb
                 | Some p \<Rightarrow> slice_from (length p) emb) in
      case emb of
        Other_dim \<Rightarrow> Inl AssertionError
      | Dim3 emb \<Rightarrow>
     (let output = transpose01 emb;
          src_memory_bank = transpose01 memory_bank;
          padding_idx = word_padding_idx (embeddings D);
          encoder_decoder_bias = make_encoder_decoder_bias padding_idx src_words in
      case make_decoder_bias padding_idx tgt_words of
        Inl e \<Rightarrow> Inl e
      | Inr decoder_bias \<Rightarrow>
     (case layer_loop D state src_memory_bank decoder_bias encoder_decoder_bias
             [0..<num_layers D] (output, None, []) of
        Inl e \<Rightarrow> Inl e
      | Inr (output, attn, saved_inputs) \<Rightarrow>
     (case torch_stack saved_inputs of
        Inl e \<Rightarrow> Inl e
      | Inr saved_inputs \<Rightarrow>
     (let output = layer_norm D output;
          outputs = transpose01 output in
      case attn of
        None \<Rightarrow> Inl (NameError ''attn'')
      | Some attn \<Rightarrow>
     (let attn = transpose01 attn;
          attns = AList.update ''std'' attn attns;
          attns = (if copy D then AList.update ''copy'' attn attns else attns);
          (state', h') = update_state h state tgt saved_inputs
      in Inr ((outputs, state', attns), h'))))))))))"

text \<open>\<open>init_decoder_state(src, memory_bank, enc_hidden)\<close> allocates a fresh state.\<close>

definition init_decoder_state :: "heap \<Rightarrow> tokens \<Rightarrow> ref \<times> heap" where
  "init_decoder_state h s =
     (length h, h @ [TransformerDecoderState_obj (TransformerDecoderState_init s)])"

section \<open>Contracts of the collaborators\<close>

text \<open>
  What the theorems on whole decoder runs ask of the collaborators. First the sizes:
  attention returns a context of the size of its query, and normalisation, feed-forward
  and dropout return a tensor of the size of their argument.
\<close>

definition size_preserving :: "(tensor \<Rightarrow> tensor) \<Rightarrow> bool" where
  "size_preserving f = (\<forall>X. size3 (f X) = size3 X)"

definition size_preserving_attention :: "attention_fn \<Rightarrow> bool" where
  "size_preserving_attention ma = (\<forall>Q M h bias. size3 (fst (ma Q M h bias)) = size3 Q)"

definition layer_sizes :: "DecoderLayer \<Rightarrow> bool" where
  "layer_sizes L =
     (size_preserving_attention (ma_l1 L) \<and> size_preserving_attention (ma_l2 L)
      \<and> size_preserving (ffn L) \<and> size_preserving (ma_l1_prenorm L)
      \<and> size_preserving (ma_l2_prenorm L) \<and> size_preserving (ffn_prenorm L)
      \<and> size_preserving (ma_l1_postdropout L) \<and> size_preserving (ma_l2_postdropout L)
      \<and> size_preserving (ffn_postdropout L))"

text \<open>Embeddings give a three-dimensional \<open>L x B x C\<close> tensor for \<open>L x B x F\<close> tokens.\<close>

definition embed3 :: "Embeddings \<Rightarrow> tokens \<Rightarrow> tensor" where
  "embed3 E T = (case embed E T of Dim3 X \<Rightarrow> X | Other_dim \<Rightarrow> [])"

definition shaped_embeddings :: "Embeddings \<Rightarrow> nat \<Rightarrow> nat \<Rightarrow> nat \<Rightarrow> bool" where
  "shaped_embeddings E B F C =
     (\<forall>T L. has_shape T (L, B, F)
        \<longrightarrow> embed E T = Dim3 (embed3 E T) \<and> has_shape (embed3 E T) (L, B, C))"

text \<open>
  Then the values. Normalisation, feed-forward and (disabled) dropout act on every
  position on its own: they map one function over the rows of a batch-first tensor.
\<close>

definition rowwise :: "(tensor \<Rightarrow> tensor) \<Rightarrow> bool" where
  "rowwise f = (\<exists>g. \<forall>X. f X = map (map g) X)"

text \<open>
  The bias row that serves query position \<open>k\<close> of batch entry \<open>b\<close>: a bias with a single
  row per batch entry (\<open>[batch, 1, length]\<close>) serves every query position.
\<close>

definition bias_row :: "tensor option \<Rightarrow> nat \<Rightarrow> nat \<Rightarrow> real list option" where
  "bias_row bias b k = (case bias of None \<Rightarrow> None
     | Some Bs \<Rightarrow> Some (if length (Bs ! b) = 1 then Bs ! b ! 0 else Bs ! b ! k))"

text \<open>
  The bias rows that forward builds hold two values only: 0 where attention is allowed
  and the large negative constant where it is not.
\<close>

definition binary_row :: "real list option \<Rightarrow> bool" where
  "binary_row row = (case row of None \<Rightarrow> True
     | Some r \<Rightarrow> list_all (\<lambda>m. m = 0 \<or> m = - 1000000000) r)"

text \<open>
  Modelled from the spec: the attention primitive (\<open>onmt.modules.attention\<close>), which is
  not among the sources. The spec: the bias is added to the raw attention logits before
  the softmax, and the large negative constant saturates the softmax, so that a masked
  key gets weight 0. So on a bias row of the two values 0 and \<open>-1e9\<close>, a key with bias
  \<open>-1e9\<close> is not attended to next to a key with bias 0; when every key of the row is
  masked the equal biases cancel in the softmax and all keys are attended to.
\<close>

definition allowed_keys :: "real list option \<Rightarrow> 'a list \<Rightarrow> 'a list" where
  "allowed_keys row keys = (case row of None \<Rightarrow> keys
     | Some r \<Rightarrow> map snd (filter (\<lambda>(m, v). m = 0) (zip r keys)))"

definition effective_keys :: "real list option \<Rightarrow> 'a list \<Rightarrow> 'a list" where
  "effective_keys row keys =
     (if allowed_keys row keys = [] then keys else allowed_keys row keys)"

text \<open>
  An attention module that the constant \<open>-1e9\<close> saturates: the context has the query's
  batch size and length, and on a bias row of the two values 0 and \<open>-1e9\<close> (or without
  bias) the context row of a query position is a function of the head count, the query
  row and the rows of the keys it attends to. Nothing is asked on other bias rows.
\<close>

definition saturating_attention :: "attention_fn \<Rightarrow> bool" where
  "saturating_attention ma = (\<exists>g. \<forall>Q M h bias.
     length (fst (ma Q (Some M) h bias)) = length Q
     \<and> (\<forall>b < length Q. length (fst (ma Q (Some M) h bias) ! b) = length (Q ! b)
          \<and> (\<forall>k < length (Q ! b). binary_row (bias_row bias b k)
                 \<longrightarrow> fst (ma Q (Some M) h bias) ! b ! k
                       = g h (Q ! b ! k) (effective_keys (bias_row bias b k) (M ! b)))))"

text \<open>
  Embeddings look every position up on its own (the position may enter, the other
  positions and the length of the sequence do not) and give \<open>L x B x C\<close> for
  \<open>L x B x F\<close> tokens.
\<close>

definition positionwise_embeddings :: "Embeddings \<Rightarrow> nat \<Rightarrow> nat \<Rightarrow> nat \<Rightarrow> bool" where
  "positionwise_embeddings E B F C =
     (shaped_embeddings E B F C
      \<and> (\<forall>T T' k. k < length T \<and> k < length T' \<and> T ! k = T' ! k
            \<longrightarrow> embed3 E T ! k = embed3 E T' ! k))"

definition layer_contract :: "DecoderLayer \<Rightarrow> bool" where
  "layer_contract L =
     (saturating_attention (ma_l1 L) \<and> saturating_attention (ma_l2 L)
      \<and> rowwise (ffn L) \<and> rowwise (ma_l1_prenorm L) \<and> rowwise (ma_l2_prenorm L)
      \<and> rowwise (ffn_prenorm L) \<and> rowwise (ma_l1_postdropout L)
      \<and> rowwise (ma_l2_postdropout L) \<and> rowwise (ffn_postdropout L))"

definition decoder_contract :: "TransformerDecoder \<Rightarrow> nat \<Rightarrow> nat \<Rightarrow> nat \<Rightarrow> bool" where
  "decoder_contract D B F C =
     (positionwise_embeddings (embeddings D) B F C
      \<and> rowwise (layer_norm D)
      \<and> num_layers D \<le> length (layer_stack D)
      \<and> list_all layer_contract (layer_stack D))"

section \<open>Example components\<close>

text \<open>
  A small concrete decoder, on which the definitions can be evaluated. Its attention
  is a single head with all logits 0 (zero projection weights), so that a query attends
  uniformly to its keys: the context row is the mean of the attended key rows, cut to the
  width of the query row. Normalisation, dropout and feed-forward are the identity.
\<close>

definition example_context_row :: "nat \<Rightarrow> real list \<Rightarrow> real list list \<Rightarrow> real list" where
  "example_context_row h q keys =
     map (\<lambda>c. sum_list (map (\<lambda>v. v ! c) keys) / real (length keys)) [0..<length q]"

definition example_weights_row :: "real list option \<Rightarrow> nat \<Rightarrow> real list" where
  "example_weights_row row m =
     (let flags = (case row of None \<Rightarrow> replicate m True | Some r \<Rightarrow> map (\<lambda>x. x = 0) r);
          flags = (if list_ex id flags then flags else replicate m True);
          n = length (filter id flags)
      in map (\<lambda>f. if f then 1 / real n else 0) flags)"

definition example_attention :: attention_fn where
  "example_attention query memory heads bias =
     (let mem = (case memory of None \<Rightarrow> query | Some m \<Rightarrow> m);
          context = map (\<lambda>b. map (\<lambda>k.
             example_context_row heads (query ! b ! k)
               (effective_keys (bias_row bias b k) (mem ! b)))
             [0..<length (query ! b)]) [0..<length query];
          weights = map (\<lambda>b. map (\<lambda>k.
             example_weights_row (bias_row bias b k) (length (mem ! b)))
             [0..<length (query ! b)]) [0..<length query]
      in (context, weights))"

definition example_layer :: DecoderLayer where
  "example_layer = \<lparr>num_heads = 1, ma_l1 = example_attention, ma_l2 = example_attention,
     ffn = (\<lambda>x. x), ma_l1_prenorm = (\<lambda>x. x), ma_l2_prenorm = (\<lambda>x. x), ffn_prenorm = (\<lambda>x. x),
     ma_l1_postdropout = (\<lambda>x. x), ma_l2_postdropout = (\<lambda>x. x), ffn_postdropout = (\<lambda>x. x)\<rparr>"

definition example_embeddings :: Embeddings where
  "example_embeddings = \<lparr>word_padding_idx = 0,
     embed = (\<lambda>T. Dim3 (map (map (\<lambda>v. [real_of_int (v ! 0), 1])) T))\<rparr>"

definition example_decoder :: TransformerDecoder where
  "example_decoder = \<lparr>num_layers = 1, embeddings = example_embeddings,
     layer_stack = [example_layer], copy = True, copy_attn = None, layer_norm = (\<lambda>x. x)\<rparr>"

text \<open>A source of two tokens (batch 1), its memory bank, and the heap with the fresh state.\<close>

definition example_state :: TransformerDecoderState where
  "example_state = TransformerDecoderState_init [[[3]], [[4]]]"

definition example_memory_bank :: tensor where
  "example_memory_bank = [[[1, 0]], [[0, 1]]]"

definition example_heap :: heap where
  "example_heap = [TransformerDecoderState_obj example_state]"

text \<open>The same decoder built with \<open>num_layers = 0\<close>.\<close>

definition example_decoder_no_layers :: TransformerDecoder where
  "example_decoder_no_layers = example_decoder\<lparr>num_layers := 0, layer_stack := []\<rparr>"

text \<open>The same decoder with embeddings that return a tensor of another dimension.\<close>

definition example_decoder_flat_embeddings :: TransformerDecoder where
  "example_decoder_flat_embeddings =
     example_decoder\<lparr>embeddings := \<lparr>word_padding_idx = 0, embed = (\<lambda>T. Other_dim)\<rparr>\<rparr>"

text \<open>The heap after a first forward call on the token 5, whose state is object 1.\<close>

definition example_heap_step :: heap where
  "example_heap_step = example_heap @ [TransformerDecoderState_obj
     \<lparr>src = [[[3]], [[4]]], previous_input = Some [[[5]]],
        previous_layer_inputs = Some [[[[5, 1]]]]\<rparr>]"

section \<open>Names of the module and the constructors\<close>

text \<open>
  The statements at the top level of the module: its imports (lines 6 to 15) and its six
  class definitions. Each binds one name in the module's namespace: \<open>from m import n\<close>
  binds \<open>n\<close> and nothing else, \<open>import a.b.c\<close> binds the first component \<open>a\<close>,
  \<open>import m as n\<close> binds \<open>n\<close>, a class definition binds the class name.
\<close>

datatype stmt =
    From_import string string
  | Import string
  | Import_as string string
  | Class_def string

fun binds :: "stmt \<Rightarrow> string" where
  "binds (From_import m n) = n"
| "binds (Import m) = takeWhile (\<lambda>c. c \<noteq> CHR ''.'') m"
| "binds (Import_as m n) = n"
| "binds (Class_def n) = n"

definition module_statements :: "stmt list" where
  "module_statements =
     [From_import ''onmt.modules'' ''attention'',
      From_import ''onmt.modules'' ''layers'',
      From_import ''onmt.Models'' ''EncoderBase'',
      From_import ''onmt.Models'' ''DecoderState'',
      From_import ''onmt.Utils'' ''aeq'',
      Import ''torch'',
      From_import ''torch'' ''nn'',
      From_import ''torch.autograd'' ''Variable'',
      Import_as ''torch.nn.functional'' ''F'',
      Class_def ''PositionwiseFeedForward'',
      Class_def ''EncoderLayer'',
      Class_def ''DecoderLayer'',
      Class_def ''TransformerEncoder'',
      Class_def ''TransformerDecoder'',
      Class_def ''TransformerDecoderState'']"

definition module_globals :: "string list" where
  "module_globals = map binds module_statements"

text \<open>
  Loading a name inside a method: the method's local names, then the module's names,
  then the names of the builtins module; a name found in none of them raises
  \<open>NameError\<close>.
\<close>

definition load_name :: "string list \<Rightarrow> string list \<Rightarrow> string \<Rightarrow> error + unit" where
  "load_name builtins locals n =
     (if n \<in> set locals \<or> n \<in> set module_globals \<or> n \<in> set builtins then Inr ()
      else Inl (NameError n))"

definition bind_error :: "error + 'a \<Rightarrow> ('a \<Rightarrow> error + 'b) \<Rightarrow> error + 'b" where
  "bind_error m f = (case m of Inl e \<Rightarrow> Inl e | Inr x \<Rightarrow> f x)"

text \<open>
  The global names that the code of each class loads (base classes of the class header
  included), read off the source. \<open>F\<close> is imported and never loaded.
\<close>

definition class_references :: "(string \<times> string list) list" where
  "class_references =
     [(''PositionwiseFeedForward'', [''nn'', ''PositionwiseFeedForward'', ''onmt'']),
      (''EncoderLayer'', [''nn'', ''EncoderLayer'', ''attention'', ''layers'']),
      (''DecoderLayer'', [''EncoderBase'', ''DecoderLayer'', ''attention'', ''layers'', ''nn'',
         ''torch'']),
      (''TransformerEncoder'', [''EncoderBase'', ''TransformerEncoder'', ''nn'', ''EncoderLayer'',
         ''layers'', ''aeq'', ''Variable'', ''torch'']),
      (''TransformerDecoder'', [''nn'', ''TransformerDecoder'', ''DecoderLayer'', ''onmt'',
         ''layers'', ''TransformerDecoderState'', ''aeq'', ''torch'', ''Variable'', ''attention'']),
      (''TransformerDecoderState'', [''DecoderState'', ''TransformerDecoderState'',
         ''Variable''])]"

text \<open>
  The constructors of the framework (\<open>torch.nn\<close>) and of the sibling modules, as the
  module calls them. They are not among the sources: each is a component that may refuse
  its arguments and raise (\<open>nn.Linear\<close> a negative size, \<open>nn.Dropout\<close> a probability
  outside \<open>[0, 1]\<close>); sizes are Python integers.
  \<open>onmt_modules_LayerNorm\<close> and \<open>onmt_modules_GlobalAttention\<close> are what the attribute
  paths \<open>onmt.modules.LayerNorm\<close> and \<open>onmt.modules.GlobalAttention\<close> would give.
\<close>

record framework =
  nn_Linear :: "int \<Rightarrow> int \<Rightarrow> error + (tensor \<Rightarrow> tensor)"
  nn_Dropout :: "real \<Rightarrow> error + (tensor \<Rightarrow> tensor)"
  nn_ReLU :: "error + (tensor \<Rightarrow> tensor)"
  nn_ModuleList :: "DecoderLayer list \<Rightarrow> error + DecoderLayer list"
  attention_MultiheadAttention :: "int \<Rightarrow> int \<Rightarrow> int \<Rightarrow> real \<Rightarrow> error + attention_fn"
  layers_ffn_layer :: "int \<Rightarrow> int \<Rightarrow> int \<Rightarrow> real \<Rightarrow> error + (tensor \<Rightarrow> tensor)"
  layers_LayerNorm :: "int \<Rightarrow> error + (tensor \<Rightarrow> tensor)"
  onmt_modules_LayerNorm :: "int \<Rightarrow> error + (tensor \<Rightarrow> tensor)"
  onmt_modules_GlobalAttention :: "int \<Rightarrow> string \<Rightarrow> error + attention_fn"

record PositionwiseFeedForward =
  w_1 :: "tensor \<Rightarrow> tensor"
  w_2 :: "tensor \<Rightarrow> tensor"
  pff_layer_norm :: "tensor \<Rightarrow> tensor"
  dropout_1 :: "tensor \<Rightarrow> tensor"
  relu :: "tensor \<Rightarrow> tensor"
  dropout_2 :: "tensor \<Rightarrow> tensor"

text \<open>
  \<open>PositionwiseFeedForward.__init__(self, size, hidden_size, dropout)\<close>: every statement
  loads the names it refers to and then calls the constructor.
\<close>

definition PositionwiseFeedForward_init ::
  "string list \<Rightarrow> framework \<Rightarrow> int \<Rightarrow> int \<Rightarrow> real \<Rightarrow> error + PositionwiseFeedForward" where
  "PositionwiseFeedForward_init builtins fw size_arg hidden_size dropout =
     (let load = load_name builtins [''self'', ''size'', ''hidden_size'', ''dropout''] in
      bind_error (load ''super'') (\<lambda>_.
      bind_error (load ''PositionwiseFeedForward'') (\<lambda>_.
      bind_error (load ''nn'') (\<lambda>_.
      bind_error (nn_Linear fw size_arg hidden_size) (\<lambda>w_1.
      bind_error (load ''nn'') (\<lambda>_.
      bind_error (nn_Linear fw hidden_size size_arg) (\<lambda>w_2.
      bind_error (load ''onmt'') (\<lambda>_.
      bind_error (onmt_modules_LayerNorm fw size_arg) (\<lambda>layer_norm.
      bind_error (load ''nn'') (\<lambda>_.
      bind_error (nn_Dropout fw dropout) (\<lambda>dropout_1.
      bind_error (load ''nn'') (\<lambda>_.
      bind_error (nn_ReLU fw) (\<lambda>relu.
      bind_error (load ''nn'') (\<lambda>_.
      bind_error (nn_Dropout fw dropout) (\<lambda>dropout_2.
      Inr \<lparr>w_1 = w_1, w_2 = w_2, pff_layer_norm = layer_norm, dropout_1 = dropout_1,
           relu = relu, dropout_2 = dropout_2\<rparr>)))))))))))))))"

text \<open>
  \<open>DecoderLayer.__init__(self, hidden_size, dropout, num_heads=8, filter_size=2048)\<close>.
\<close>

definition DecoderLayer_init ::
  "string list \<Rightarrow> framework \<Rightarrow> int \<Rightarrow> real \<Rightarrow> nat \<Rightarrow> int \<Rightarrow> error + DecoderLayer" where
  "DecoderLayer_init builtins fw hidden_size dropout heads filter_size =
     (let load = load_name builtins
                   [''self'', ''hidden_size'', ''dropout'', ''num_heads'', ''filter_size''] in
      bind_error (load ''super'') (\<lambda>_.
      bind_error (load ''DecoderLayer'') (\<lambda>_.
      bind_error (load ''attention'') (\<lambda>_.
      bind_error (attention_MultiheadAttention fw hidden_size hidden_size hidden_size dropout)
        (\<lambda>l1.
      bind_error (load ''attention'') (\<lambda>_.
      bind_error (attention_MultiheadAttention fw hidden_size hidden_size hidden_size dropout)
        (\<lambda>l2.
      bind_error (load ''layers'') (\<lambda>_.
      bind_error (layers_ffn_layer fw hidden_size filter_size hidden_size dropout) (\<lambda>f.
      bind_error (load ''layers'') (\<lambda>_.
      bind_error (layers_LayerNorm fw hidden_size) (\<lambda>n1.
      bind_error (load ''layers'') (\<lambda>_.
      bind_error (layers_LayerNorm fw hidden_size) (\<lambda>n2.
      bind_error (load ''layers'') (\<lambda>_.
      bind_error (layers_LayerNorm fw hidden_size) (\<lambda>n3.
      bind_error (load ''nn'') (\<lambda>_.
      bind_error (nn_Dropout fw dropout) (\<lambda>d1.
      bind_error (load ''nn'') (\<lambda>_.
      bind_error (nn_Dropout fw dropout) (\<lambda>d2.
      bind_error (load ''nn'') (\<lambda>_.
      bind_error (nn_Dropout fw dropout) (\<lambda>d3.
      Inr \<lparr>num_heads = heads, ma_l1 = l1, ma_l2 = l2, ffn = f,
           ma_l1_prenorm = n1, ma_l2_prenorm = n2, ffn_prenorm = n3,
           ma_l1_postdropout = d1, ma_l2_postdropout = d2,
           ffn_postdropout = d3\<rparr>)))))))))))))))))))))"

text \<open>
  The list comprehension \<open>[DecoderLayer(hidden_size, dropout) for _ in range(num_layers)]\<close>,
  for the iterations that remain.
\<close>

fun make_layers ::
  "string list \<Rightarrow> string list \<Rightarrow> framework \<Rightarrow> int \<Rightarrow> real \<Rightarrow> nat \<Rightarrow> error + DecoderLayer list" where
  "make_layers builtins locals fw hidden_size dropout 0 = Inr []"
| "make_layers builtins locals fw hidden_size dropout (Suc n) =
     bind_error (load_name builtins locals ''DecoderLayer'') (\<lambda>_.
     bind_error (DecoderLayer_init builtins fw hidden_size dropout 8 2048) (\<lambda>l.
     bind_error (make_layers builtins locals fw hidden_size dropout n) (\<lambda>ls.
     Inr (l # ls))))"

text \<open>
  \<open>TransformerDecoder.__init__(self, num_layers, hidden_size, attn_type, copy_attn, dropout,
  embeddings)\<close>. \<open>range(num_layers)\<close> has \<open>nat num_layers\<close> elements (none for a number
  below 1), and the attribute \<open>num_layers\<close> is kept as that number of iterations.
\<close>

definition TransformerDecoder_init ::
  "string list \<Rightarrow> framework \<Rightarrow> int \<Rightarrow> int \<Rightarrow> string \<Rightarrow> bool \<Rightarrow> real \<Rightarrow> Embeddings
     \<Rightarrow> error + TransformerDecoder" where
  "TransformerDecoder_init builtins fw layers hidden_size attn_type copy_attn_arg dropout emb =
     (let locals = [''self'', ''num_layers'', ''hidden_size'', ''attn_type'', ''copy_attn'',
                    ''dropout'', ''embeddings''];
          load = load_name builtins locals in
      bind_error (load ''super'') (\<lambda>_.
      bind_error (load ''TransformerDecoder'') (\<lambda>_.
      bind_error (load ''nn'') (\<lambda>_.
      bind_error (load ''range'') (\<lambda>_.
      bind_error (make_layers builtins locals fw hidden_size dropout (nat layers)) (\<lambda>stack.
      bind_error (nn_ModuleList fw stack) (\<lambda>stack.
      bind_error (if copy_attn_arg
                  then bind_error (load ''onmt'') (\<lambda>_.
                       bind_error (onmt_modules_GlobalAttention fw hidden_size attn_type) (\<lambda>ga.
                         Inr (Some ga, True)))
                  else Inr (None, False)) (\<lambda>(ca, c).
      bind_error (load ''layers'') (\<lambda>_.
      bind_error (layers_LayerNorm fw hidden_size) (\<lambda>ln.
      Inr \<lparr>num_layers = nat layers, embeddings = emb, layer_stack = stack, copy = c,
           copy_attn = ca, layer_norm = ln\<rparr>))))))))))"

text \<open>
  A framework whose constructors give the components of the example decoder, and refuse
  what the framework refuses: \<open>nn.Linear\<close> a negative size, \<open>nn.Dropout\<close> a
  probability outside \<open>[0, 1]\<close>.
\<close>

definition example_framework :: framework where
  "example_framework = \<lparr>
     nn_Linear = (\<lambda>a b. if a < 0 \<or> b < 0 then Inl RuntimeError else Inr (\<lambda>x. x)),
     nn_Dropout = (\<lambda>p. if p < 0 \<or> 1 < p then Inl ValueError else Inr (\<lambda>x. x)),
     nn_ReLU = Inr (map (map (map (max 0)))),
     nn_ModuleList = Inr,
     attention_MultiheadAttention = (\<lambda>a b c p. Inr example_attention),
     layers_ffn_layer = (\<lambda>a b c p. Inr (\<lambda>x. x)),
     layers_LayerNorm = (\<lambda>a. Inr (\<lambda>x. x)),
     onmt_modules_LayerNorm = (\<lambda>a. Inr (\<lambda>x. x)),
     onmt_modules_GlobalAttention = (\<lambda>a t. Inr example_attention)\<rparr>"

text \<open>A batch-first tensor with \<open>B\<close> batch entries of \<open>T\<close> rows each.\<close>

definition has_lengths :: "'a list list \<Rightarrow> nat \<Rightarrow> nat \<Rightarrow> bool" where
  "has_lengths X B T = (length X = B \<and> list_all (\<lambda>r. length r = T) X)"

section \<open>Incremental decoding\<close>

text \<open>
  Following the words of the spec: the decoder is fed the target tokens one at a time,
  each call taking the state that the previous call returned; the outputs of the calls
  are concatenated along the sequence axis.
\<close>

fun decode_incremental ::
  "TransformerDecoder \<Rightarrow> heap \<Rightarrow> tokens \<Rightarrow> tensor \<Rightarrow> ref \<Rightarrow> error + (tensor \<times> ref \<times> heap)" where
  "decode_incremental D h [] memory_bank state = Inr ([], state, h)"
| "decode_incremental D h (x # xs) memory_bank state =
     (case TransformerDecoder_forward D h [x] memory_bank state of
        Inl e \<Rightarrow> Inl e
      | Inr ((outputs, state', attns), h') \<Rightarrow>
          (case decode_incremental D h' xs memory_bank state' of
             Inl e \<Rightarrow> Inl e
           | Inr (rest, state'', h'') \<Rightarrow> Inr (outputs @ rest, state'', h'')))"

text \<open>
  The state after \<open>k\<close> incremental steps, seen from the non-incremental run whose layers
  saved the self-attention inputs \<open>saved\<close>: it holds the first \<open>k\<close> target tokens, and for
  every batch entry whose first \<open>k\<close> target words are not padding the cache of each layer
  is the first \<open>k\<close> rows of that layer's saved inputs.
\<close>

definition prefix_state ::
  "tokens \<Rightarrow> int \<Rightarrow> tensor list \<Rightarrow> nat \<Rightarrow> nat \<Rightarrow> nat \<Rightarrow> TransformerDecoderState \<Rightarrow> bool" where
  "prefix_state tgt pad saved n B k s =
     (if k = 0 then previous_input s = None
      else previous_input s = Some (take k tgt)
        \<and> (\<exists>caches. previous_layer_inputs s = Some caches
              \<and> (\<forall>l < n. has_lengths (caches ! l) B k
                    \<and> (\<forall>b < B. (\<forall>j < k. tgt ! j ! b ! 0 \<noteq> pad)
                          \<longrightarrow> caches ! l ! b = take k (saved ! l ! b)))))"

section \<open>Properties of the decoder state\<close>

lemma length_concat_replicate: "length (concat (replicate k xs)) = k * length xs"
  by (induction k) auto

lemma nth_concat_replicate:
  "c < k \<Longrightarrow> b < length xs \<Longrightarrow> concat (replicate k xs) ! (c * length xs + b) = xs ! b"
proof (induction k arbitrary: c)
  case 0
  then show ?case by simp
next
  case (Suc k)
  show ?case
  proof (cases c)
    case 0
    with Suc.prems show ?thesis by (simp add: nth_append)
  next
    case (Suc c')
    with Suc.prems Suc.IH[of c'] show ?thesis by (simp add: nth_append)
  qed
qed

lemma set_concat_replicateD: "v \<in> set (concat (replicate k xs)) \<Longrightarrow> v \<in> set xs"
  by (induction k) auto

lemma torch_repeat_batch:
  "torch_repeat (Suc 0) k (Suc 0) T = map (\<lambda>m. concat (replicate k m)) T"
  by (simp add: torch_repeat_def)

lemma has_shape_repeat_batch:
  "has_shape T (L, B, F) \<Longrightarrow> has_shape (torch_repeat (Suc 0) k (Suc 0) T) (L, k * B, F)"
  by (auto simp: has_shape_def torch_repeat_batch list_all_iff length_concat_replicate
      dest!: set_concat_replicateD)

text \<open>
  C5. For a state object whose \<open>src\<close> is a \<open>L x B x F\<close> tensor and a positive \<open>k\<close>,
  \<open>repeat_beam_size_times(k)\<close> overwrites the field \<open>src\<close> of that very object (no object is
  allocated, every other object and the two other fields keep their values) with a
  \<open>L x (k * B) x F\<close> tensor in which example \<open>b\<close> of the original stands at the \<open>k\<close>
  batch positions \<open>b, B + b, 2 * B + b, ...\<close>: \<open>k\<close> copies at stride \<open>B\<close>.
\<close>

theorem repeat_beam_size_times_in_place:
  assumes "self < length h" and "h ! self = TransformerDecoderState_obj s"
    and "0 < k" and "has_shape (src s) (L, B, F)"
  shows "\<exists>s'. repeat_beam_size_times h self k = h[self := TransformerDecoderState_obj s']
           \<and> length (repeat_beam_size_times h self k) = length h
           \<and> (\<forall>q < length h. q \<noteq> self \<longrightarrow> repeat_beam_size_times h self k ! q = h ! q)
           \<and> repeat_beam_size_times h self k ! self = TransformerDecoderState_obj s'
           \<and> previous_input s' = previous_input s
           \<and> previous_layer_inputs s' = previous_layer_inputs s
           \<and> has_shape (src s') (L, k * B, F)
           \<and> (\<forall>l < L. \<forall>c < k. \<forall>b < B. src s' ! l ! (c * B + b) = src s ! l ! b)"
proof -
  let ?s' = "s\<lparr>src := torch_repeat 1 k 1 (src s)\<rparr>"
  have eq: "repeat_beam_size_times h self k = h[self := TransformerDecoderState_obj ?s']"
    using assms(2) by (simp add: repeat_beam_size_times_def)
  have len: "length (src s) = L" and rows: "\<forall>l < L. length (src s ! l) = B"
    using assms(4) by (auto simp: has_shape_def list_all_length)
  have copies: "\<forall>l < L. \<forall>c < k. \<forall>b < B. src ?s' ! l ! (c * B + b) = src s ! l ! b"
  proof (intro allI impI)
    fix l c b assume "l < L" "c < k" "b < B"
    with len rows have "length (src s ! l) = B" by simp
    with \<open>c < k\<close> \<open>b < B\<close> nth_concat_replicate[of c k b "src s ! l"]
    have "concat (replicate k (src s ! l)) ! (c * B + b) = src s ! l ! b" by simp
    with \<open>l < L\<close> len show "src ?s' ! l ! (c * B + b) = src s ! l ! b"
      by (simp add: torch_repeat_batch)
  qed
  have shape: "has_shape (src ?s') (L, k * B, F)"
    using assms(4) by (simp add: has_shape_repeat_batch)
  show ?thesis
    using eq assms(1) copies shape by (intro exI[of _ ?s']) simp
qed

theorem repeat_beam_size_times_in_place_witness:
  "(1::nat) < length [Other_obj, TransformerDecoderState_obj (TransformerDecoderState_init [[[3], [7]], [[4], [8]]])]
   \<and> (0::nat) < 3
   \<and> has_shape (src (TransformerDecoderState_init [[[3], [7]], [[4], [8]]])) (2, 2, 1)
   \<and> (\<exists>s'. repeat_beam_size_times
              [Other_obj, TransformerDecoderState_obj (TransformerDecoderState_init [[[3], [7]], [[4], [8]]])] 1 3
            = [Other_obj, TransformerDecoderState_obj s']
          \<and> has_shape (src s') (2, 6, 1)
          \<and> src s' ! 1 ! (2 * 2 + 1) = [8])"
proof -
  let ?s = "TransformerDecoderState_init [[[3], [7]], [[4], [8]]]"
  let ?h = "[Other_obj, TransformerDecoderState_obj ?s]"
  have a: "(1::nat) < length ?h" by simp
  have b: "?h ! 1 = TransformerDecoderState_obj ?s" by simp
  have c: "(0::nat) < 3" by simp
  have d: "has_shape (src ?s) (2, 2, 1)"
    by (simp add: has_shape_def TransformerDecoderState_init_def)
  from repeat_beam_size_times_in_place[OF a b c d]
  obtain s' where e: "repeat_beam_size_times ?h 1 3 = ?h[1 := TransformerDecoderState_obj s']"
    and f: "has_shape (src s') (2, 3 * 2, 1)"
    and g: "\<forall>l < 2. \<forall>c < 3. \<forall>b < 2. src s' ! l ! (c * 2 + b) = src ?s ! l ! b"
    by blast
  from g have "(1::nat) < 2 \<longrightarrow> (2::nat) < 3 \<longrightarrow> (1::nat) < 2
      \<longrightarrow> src s' ! 1 ! (2 * 2 + 1) = src ?s ! 1 ! 1" by blast
  then have "src s' ! 1 ! (2 * 2 + 1) = src ?s ! 1 ! 1" by simp
  then have h: "src s' ! 1 ! (2 * 2 + 1) = [8]" by (simp add: TransformerDecoderState_init_def)
  show ?thesis using a c d e f h by auto
qed

lemma torch_stack_InrD: "torch_stack ts = Inr us \<Longrightarrow> us = ts"
  by (auto simp: torch_stack_def split: list.splits if_splits)

lemma torch_cat0_InrD: "torch_cat0 A B = Inr C \<Longrightarrow> C = A @ B"
  by (auto simp: torch_cat0_def split: if_splits)

lemma forward_InrD:
  assumes "TransformerDecoder_forward D h tgt memory_bank state_ref
             = Inr ((outputs, state', attns), h')"
  shows "\<exists>s full E db out attn saved.
           h ! state_ref = TransformerDecoderState_obj s
         \<and> forward_checks tgt memory_bank s = Inr ()
         \<and> (case previous_input s of None \<Rightarrow> full = tgt | Some p \<Rightarrow> full = p @ tgt)
         \<and> (case previous_input s of
               None \<Rightarrow> embed (embeddings D) full
             | Some p \<Rightarrow> slice_from (length p) (embed (embeddings D) full)) = Dim3 E
         \<and> make_decoder_bias (word_padding_idx (embeddings D)) (transpose01 (select0 tgt)) = Inr db
         \<and> layer_loop D s (transpose01 memory_bank) db
             (make_encoder_decoder_bias (word_padding_idx (embeddings D))
                (transpose01 (select0 (src s))))
             [0..<num_layers D] (transpose01 E, None, []) = Inr (out, Some attn, saved)
         \<and> outputs = transpose01 (layer_norm D out)
         \<and> attns = (if copy D then [(''std'', transpose01 attn), (''copy'', transpose01 attn)]
                     else [(''std'', transpose01 attn)])
         \<and> update_state h s full saved = (state', h')"
proof -
  from assms obtain s where s: "h ! state_ref = TransformerDecoderState_obj s"
    by (cases "h ! state_ref") (simp_all add: TransformerDecoder_forward_def)
  from assms s have checks: "forward_checks tgt memory_bank s = Inr ()"
    by (cases "forward_checks tgt memory_bank s") (simp_all add: TransformerDecoder_forward_def)
  let ?cat = "case previous_input s of None \<Rightarrow> Inr tgt | Some p \<Rightarrow> torch_cat0 p tgt"
  from assms s checks obtain full where cat: "?cat = Inr full"
    by (cases ?cat) (simp_all add: TransformerDecoder_forward_def Let_def)
  have full: "case previous_input s of None \<Rightarrow> full = tgt | Some p \<Rightarrow> full = p @ tgt"
    using cat by (cases "previous_input s") (auto dest: torch_cat0_InrD)
  let ?emb = "case previous_input s of
               None \<Rightarrow> embed (embeddings D) full
             | Some p \<Rightarrow> slice_from (length p) (embed (embeddings D) full)"
  let ?pad = "word_padding_idx (embeddings D)"
  let ?eb = "make_encoder_decoder_bias ?pad (transpose01 (select0 (src s)))"
  from assms s checks cat obtain E where E: "?emb = Dim3 E"
    by (cases ?emb) (simp_all add: TransformerDecoder_forward_def Let_def)
  from assms s checks cat E obtain db where
    db: "make_decoder_bias ?pad (transpose01 (select0 tgt)) = Inr db"
    by (cases "make_decoder_bias ?pad (transpose01 (select0 tgt))")
       (simp_all add: TransformerDecoder_forward_def Let_def)
  let ?loop = "layer_loop D s (transpose01 memory_bank) db ?eb [0..<num_layers D]
                 (transpose01 E, None, [])"
  from assms s checks cat E db obtain out a saved where loop: "?loop = Inr (out, a, saved)"
    by (cases ?loop) (auto simp: TransformerDecoder_forward_def Let_def)
  from assms s checks cat E db loop obtain saved' where st: "torch_stack saved = Inr saved'"
    by (cases "torch_stack saved") (simp_all add: TransformerDecoder_forward_def Let_def)
  then have saved': "saved' = saved" by (rule torch_stack_InrD)
  from assms s checks cat E db loop st obtain attn where a: "a = Some attn"
    by (cases a) (simp_all add: TransformerDecoder_forward_def Let_def)
  from assms s checks cat E db loop st a saved'
  have "outputs = transpose01 (layer_norm D out)
      \<and> attns = (if copy D then [(''std'', transpose01 attn), (''copy'', transpose01 attn)]
                     else [(''std'', transpose01 attn)])
      \<and> update_state h s full saved = (state', h')"
    by (auto simp: TransformerDecoder_forward_def Let_def split: prod.splits)
  with s checks full E db loop a show ?thesis by blast
qed

lemma forward_new_state:
  assumes "TransformerDecoder_forward D h tgt memory_bank state_ref
             = Inr ((outputs, state', attns), h')"
  shows "\<exists>s saved. h ! state_ref = TransformerDecoderState_obj s
           \<and> update_state h s (case previous_input s of None \<Rightarrow> tgt | Some p \<Rightarrow> p @ tgt) saved
               = (state', h')"
proof -
  from forward_InrD[OF assms] obtain s full saved where
    s: "h ! state_ref = TransformerDecoderState_obj s"
    and full: "case previous_input s of None \<Rightarrow> full = tgt | Some p \<Rightarrow> full = p @ tgt"
    and upd: "update_state h s full saved = (state', h')"
    by blast
  from full have "full = (case previous_input s of None \<Rightarrow> tgt | Some p \<Rightarrow> p @ tgt)"
    by (cases "previous_input s") simp_all
  with s upd show ?thesis by blast
qed

text \<open>
  C6. \<open>update_state(tokens, per_layer_caches)\<close> on a state object \<open>s\<close> allocates a new
  object whose \<open>src\<close> is that of \<open>s\<close>, whose \<open>previous_input\<close> is \<open>tokens\<close> and whose
  \<open>previous_layer_inputs\<close> is \<open>per_layer_caches\<close>; every object that existed before, \<open>s\<close>
  among them, keeps all its fields. A decoder forward call that returns does the same:
  the state it returns is a new object, different from its argument, and the argument
  and every other existing object are unchanged.
\<close>

theorem update_state_pure:
  "(self < length h \<and> h ! self = TransformerDecoderState_obj s
      \<and> update_state h s tokens caches = (r, h1)
    \<longrightarrow> r = length h \<and> length h1 = Suc (length h)
        \<and> h1 ! r = TransformerDecoderState_obj
             \<lparr>src = src s, previous_input = Some tokens, previous_layer_inputs = Some caches\<rparr>
        \<and> (\<forall>q < length h. h1 ! q = h ! q)
        \<and> h1 ! self = TransformerDecoderState_obj s)
   \<and> (state_ref < length h
      \<and> TransformerDecoder_forward D h tgt memory_bank state_ref
          = Inr ((outputs, state', attns), h2)
    \<longrightarrow> state' = length h \<and> state' \<noteq> state_ref \<and> length h2 = Suc (length h)
        \<and> (\<forall>q < length h. h2 ! q = h ! q)
        \<and> (\<exists>old new. h ! state_ref = TransformerDecoderState_obj old
              \<and> h2 ! state_ref = TransformerDecoderState_obj old
              \<and> h2 ! state' = TransformerDecoderState_obj new
              \<and> src new = src old
              \<and> previous_input new
                   = Some (case previous_input old of None \<Rightarrow> tgt | Some p \<Rightarrow> p @ tgt)))"
proof (rule conjI; rule impI)
  assume a: "self < length h \<and> h ! self = TransformerDecoderState_obj s
      \<and> update_state h s tokens caches = (r, h1)"
  then show "r = length h \<and> length h1 = Suc (length h)
        \<and> h1 ! r = TransformerDecoderState_obj
             \<lparr>src = src s, previous_input = Some tokens, previous_layer_inputs = Some caches\<rparr>
        \<and> (\<forall>q < length h. h1 ! q = h ! q)
        \<and> h1 ! self = TransformerDecoderState_obj s"
    by (auto simp: update_state_def TransformerDecoderState_init_def nth_append)
next
  assume b: "state_ref < length h
      \<and> TransformerDecoder_forward D h tgt memory_bank state_ref
          = Inr ((outputs, state', attns), h2)"
  then obtain old saved where old: "h ! state_ref = TransformerDecoderState_obj old"
    and upd: "update_state h old (case previous_input old of None \<Rightarrow> tgt | Some p \<Rightarrow> p @ tgt) saved
                = (state', h2)"
    using forward_new_state by blast
  from upd b old
  show "state' = length h \<and> state' \<noteq> state_ref \<and> length h2 = Suc (length h)
        \<and> (\<forall>q < length h. h2 ! q = h ! q)
        \<and> (\<exists>old new. h ! state_ref = TransformerDecoderState_obj old
              \<and> h2 ! state_ref = TransformerDecoderState_obj old
              \<and> h2 ! state' = TransformerDecoderState_obj new
              \<and> src new = src old
              \<and> previous_input new
                   = Some (case previous_input old of None \<Rightarrow> tgt | Some p \<Rightarrow> p @ tgt))"
    by (auto simp: update_state_def TransformerDecoderState_init_def nth_append)
qed

theorem update_state_pure_witness:
  "(0 < length example_heap \<and> example_heap ! 0 = TransformerDecoderState_obj example_state
      \<and> update_state example_heap example_state [[[5]]] [[[[5, 1]]]]
          = (1, example_heap @ [TransformerDecoderState_obj
               \<lparr>src = [[[3]], [[4]]], previous_input = Some [[[5]]],
                  previous_layer_inputs = Some [[[[5, 1]]]]\<rparr>]))
   \<and> TransformerDecoder_forward example_decoder example_heap [[[5]]] example_memory_bank 0
       = Inr (([[[21, 5]]], 1, [(''std'', [[[1 / 2, 1 / 2]]]), (''copy'', [[[1 / 2, 1 / 2]]])]),
              example_heap @ [TransformerDecoderState_obj
               \<lparr>src = [[[3]], [[4]]], previous_input = Some [[[5]]],
                  previous_layer_inputs = Some [[[[5, 1]]]]\<rparr>])
   \<and> (example_heap @ [TransformerDecoderState_obj
               \<lparr>src = [[[3]], [[4]]], previous_input = Some [[[5]]],
                  previous_layer_inputs = Some [[[[5, 1]]]]\<rparr>]) ! 0
       = TransformerDecoderState_obj example_state
   \<and> (1::nat) \<noteq> 0"
proof -
  let ?h' = "example_heap @ [TransformerDecoderState_obj
               \<lparr>src = [[[3]], [[4]]], previous_input = Some [[[5]]],
                  previous_layer_inputs = Some [[[[5, 1]]]]\<rparr>]"
  have a: "0 < length example_heap \<and> example_heap ! 0 = TransformerDecoderState_obj example_state"
    by (simp add: example_heap_def)
  have b: "update_state example_heap example_state [[[5]]] [[[[5, 1]]]] = (1, ?h')"
    by code_simp
  have c: "TransformerDecoder_forward example_decoder example_heap [[[5]]] example_memory_bank 0
       = Inr (([[[21, 5]]], 1, [(''std'', [[[1 / 2, 1 / 2]]]), (''copy'', [[[1 / 2, 1 / 2]]])]), ?h')"
    by code_simp
  from update_state_pure[where self = 0 and h = example_heap and s = example_state
      and tokens = "[[[5]]]" and caches = "[[[[5, 1]]]]" and r = 1 and ?h1.0 = ?h'
      and state_ref = 0 and D = example_decoder and tgt = "[[[5]]]"
      and memory_bank = example_memory_bank and outputs = "[[[21, 5]]]" and state' = 1
      and attns = "[(''std'', [[[1 / 2, 1 / 2]]]), (''copy'', [[[1 / 2, 1 / 2]]])]"
      and ?h2.0 = ?h'] a b c
  have "?h' ! 0 = TransformerDecoderState_obj example_state \<and> (1::nat) \<noteq> 0"
    by simp
  with a b c show ?thesis by simp
qed

section \<open>Properties of the decoder stack\<close>

lemma concat_replicate_single: "concat (replicate n [x]) = replicate n x"
  by (induction n) auto

lemma concat_replicate_one: "concat (replicate (Suc 0) xs) = xs"
  by simp

lemma tgt_pad_mask_repeat:
  "torch_repeat (Suc 0) n (Suc 0) (unsqueeze1 M) = map (\<lambda>r. replicate n r) M"
  by (simp add: torch_repeat_def unsqueeze1_def concat_replicate_single comp_def)

lemma local_mask_repeat:
  "torch_repeat B (Suc 0) (Suc 0) (get_local_mask n)
     = replicate B (map (\<lambda>i. map (\<lambda>j. if i < j then 1 else 0) [0..<n]) [0..<n])"
  by (simp add: torch_repeat_def get_local_mask_def concat_replicate_single comp_def)

lemma length_broadcast2:
  "length xs = length ys \<Longrightarrow> length (broadcast2 f xs ys) = length ys"
  by (simp add: broadcast2_def)

lemma nth_broadcast2:
  "length xs = length ys \<Longrightarrow> i < length ys \<Longrightarrow> broadcast2 f xs ys ! i = f (xs ! i) (ys ! i)"
  by (simp add: broadcast2_def)

lemma make_decoder_bias_value:
  assumes "length W = B" and "0 < B" and "0 < L" and "\<forall>r \<in> set W. length r = L"
  shows "make_decoder_bias pad W
     = Inr (map (\<lambda>b. map (\<lambda>i. map (\<lambda>j.
          if W ! b ! j = pad \<or> i < j then - 1000000000 else 0) [0..<L]) [0..<L]) [0..<B])"
proof -
  obtain r0 W' where W: "W = r0 # W'" using assms(1,2) by (cases W) auto
  have r0: "length r0 = L" using assms(4) W by simp
  have d1: "dim1 W = L" by (simp add: dim1_def W r0)
  let ?P = "map (\<lambda>r. replicate L r) (eq_float pad W)"
  let ?M = "replicate B (map (\<lambda>i. map (\<lambda>j. if i < j then (1::real) else 0) [0..<L]) [0..<L])"
  obtain L' where L': "L = Suc L'" using assms(3) by (cases L) auto
  obtain B' where B': "B = Suc B'" using assms(2) by (cases B) auto
  have sz: "size3 ?P = size3 ?M"
    using assms(1) by (simp add: size3_def dim1_def dim2_def W r0 eq_float_def L' B' upt_conv_Cons del: upt_Suc)
  have add: "tensor_add ?P ?M = Inr (broadcast2 (broadcast2 (broadcast2 (+))) ?P ?M)"
    using sz by (simp add: tensor_add_def size3_def broadcastable_def)
  have val: "map (map (map (\<lambda>v. (if v > 0 then 1 else 0) * (- 1000000000))))
               (broadcast2 (broadcast2 (broadcast2 (+))) ?P ?M)
      = map (\<lambda>b. map (\<lambda>i. map (\<lambda>j.
          if W ! b ! j = pad \<or> i < j then - 1000000000 else (0::real)) [0..<L]) [0..<L]) [0..<B]"
    using assms(1,4)
    by (auto simp: list_eq_iff_nth_eq eq_float_def length_broadcast2 nth_broadcast2)
  show ?thesis
    unfolding make_decoder_bias_def
    using add val by (simp add: d1 assms(1) tgt_pad_mask_repeat local_mask_repeat Let_def)
qed

lemma words_of_tokens:
  assumes "has_shape T (L, B, F)" and "0 < L"
  shows "transpose01 (select0 T) = map (\<lambda>b. map (\<lambda>j. T ! j ! b ! 0) [0..<L]) [0..<B]"
proof -
  have len: "length T = L" and rows: "\<forall>j < L. length (T ! j) = B"
    using assms(1) by (auto simp: has_shape_def list_all_length)
  obtain t0 T' where T: "T = t0 # T'" using len assms(2) by (cases T) auto
  have "length t0 = B" using rows T assms(2) by (metis nth_Cons_0)
  then have d1: "dim1 (select0 T) = B" by (simp add: dim1_def select0_def T)
  show ?thesis
    unfolding transpose01_def d1
    using len rows by (auto simp: select0_def list_eq_iff_nth_eq)
qed

text \<open>
  C7. For target tokens of size \<open>L x B x F\<close>, the self-attention bias that forward
  builds (padding mask plus local mask, tested \<open>> 0\<close>, scaled by \<open>-1e9\<close>) is a
  \<open>B x L x L\<close> tensor whose entry for batch \<open>b\<close>, query position \<open>i\<close> and key position
  \<open>j\<close> is \<open>-1e9\<close> when the target word at key position \<open>j\<close> is the padding word or
  \<open>j\<close> lies after \<open>i\<close>, and 0 otherwise.
\<close>

theorem decoder_bias_entries:
  assumes "has_shape tgt (L, B, F)" and "0 < L" and "0 < B"
  shows "\<exists>bias. make_decoder_bias pad (transpose01 (select0 tgt)) = Inr bias
           \<and> has_shape bias (B, L, L)
           \<and> (\<forall>b < B. \<forall>i < L. \<forall>j < L.
                 bias ! b ! i ! j
                   = (if tgt ! j ! b ! 0 = pad \<or> i < j then - 1000000000 else 0))"
proof -
  let ?W = "map (\<lambda>b. map (\<lambda>j. tgt ! j ! b ! 0) [0..<L]) [0..<B]"
  let ?bias = "map (\<lambda>b. map (\<lambda>i. map (\<lambda>j.
          if ?W ! b ! j = pad \<or> i < j then - 1000000000 else (0::real)) [0..<L]) [0..<L]) [0..<B]"
  have W: "transpose01 (select0 tgt) = ?W"
    using assms(1,2) by (rule words_of_tokens)
  have "make_decoder_bias pad ?W = Inr ?bias"
    using assms(2,3) by (intro make_decoder_bias_value) auto
  moreover have "has_shape ?bias (B, L, L)"
    by (simp add: has_shape_def list_all_iff)
  moreover have "\<forall>b < B. \<forall>i < L. \<forall>j < L.
      ?bias ! b ! i ! j = (if tgt ! j ! b ! 0 = pad \<or> i < j then - 1000000000 else 0)"
    by simp
  ultimately show ?thesis unfolding W by blast
qed

theorem decoder_bias_entries_witness:
  "has_shape [[[5], [0]], [[0], [7::int]]] (2, 2, 1) \<and> (0::nat) < 2
   \<and> make_decoder_bias 0 (transpose01 (select0 [[[5], [0]], [[0], [7]]]))
       = Inr [[[0, - 1000000000], [0, - 1000000000]],
              [[- 1000000000, - 1000000000], [- 1000000000, 0]]]"
proof -
  let ?tgt = "[[[5], [0]], [[0], [7::int]]]"
  have a: "has_shape ?tgt (2, 2, 1)" by (simp add: has_shape_def)
  have b: "(0::nat) < 2" by simp
  from decoder_bias_entries[OF a b b, of 0]
  obtain bias where c: "make_decoder_bias 0 (transpose01 (select0 ?tgt)) = Inr bias"
    and d: "has_shape bias (2, 2, 2)"
    and e: "\<forall>b < 2. \<forall>i < 2. \<forall>j < 2.
              bias ! b ! i ! j = (if ?tgt ! j ! b ! 0 = 0 \<or> i < j then - 1000000000 else 0)"
    by blast
  have f: "make_decoder_bias 0 (transpose01 (select0 ?tgt))
       = Inr [[[0, - 1000000000], [0, - 1000000000]],
              [[- 1000000000, - 1000000000], [- 1000000000, 0]]]"
    by code_simp
  show ?thesis using a b c f by simp
qed

lemma layer_loop_append:
  "layer_loop D s m db eb (xs @ ys) acc
     = (case layer_loop D s m db eb xs acc of
          Inl e \<Rightarrow> Inl e
        | Inr acc' \<Rightarrow> layer_loop D s m db eb ys acc')"
proof (induction xs arbitrary: acc)
  case Nil
  show ?case by simp
next
  case (Cons i xs)
  obtain out a saved where acc: "acc = (out, a, saved)" by (cases acc) auto
  show ?case
    unfolding acc using Cons.IH
    by (simp split: sum.splits option.splits prod.splits)
qed

lemma layer_loop_copy_attn:
  "layer_loop (D\<lparr>copy_attn := m\<rparr>) s mb db eb xs acc = layer_loop D s mb db eb xs acc"
proof (induction xs arbitrary: acc)
  case Nil
  show ?case by simp
next
  case (Cons i xs)
  obtain out a saved where acc: "acc = (out, a, saved)" by (cases acc) auto
  show ?case
    unfolding acc using Cons.IH
    by (simp split: sum.splits option.splits prod.splits)
qed

lemma DecoderLayer_forward_InrD:
  assumes "DecoderLayer_forward L X enc sb eb prev = Inr (ans, attn, all_inputs)"
  shows "\<exists>X1 X2.
      (case prev of None \<Rightarrow> all_inputs = ma_l1_prenorm L X
       | Some p \<Rightarrow> torch_cat1 p (ma_l1_prenorm L X) = Inr all_inputs)
    \<and> tensor_add (ma_l1_postdropout L (fst (ma_l1 L (ma_l1_prenorm L X) (Some all_inputs)
          (num_heads L) (case prev of None \<Rightarrow> sb | Some p \<Rightarrow> None)))) X = Inr X1
    \<and> tensor_add (ma_l2_postdropout L (fst (ma_l2 L (ma_l2_prenorm L X1) (Some enc)
          (num_heads L) eb))) X1 = Inr X2
    \<and> attn = snd (ma_l2 L (ma_l2_prenorm L X1) (Some enc) (num_heads L) eb)
    \<and> tensor_add (ffn_postdropout L (ffn L (ffn_prenorm L X2))) X2 = Inr ans"
  using assms
  by (auto simp: DecoderLayer_forward_def Let_def
      split: sum.splits option.splits prod.splits)

lemma layer_loop_single:
  assumes "layer_loop D s mb db eb [i] (X, a0, saved0) = Inr (out, a, saved)"
  shows "\<exists>prev attn all_inputs.
           DecoderLayer_forward (layer_stack D ! i) X mb (Some db) (Some eb) prev
             = Inr (out, attn, all_inputs)
         \<and> a = Some attn"
  using assms
  by (auto split: sum.splits option.splits prod.splits if_splits)

lemma layer_loop_last:
  assumes "layer_loop D s mb db eb [0..<n] (out0, None, []) = Inr (out, Some attn, saved)"
  shows "0 < n \<and> (\<exists>X prev all_inputs.
           DecoderLayer_forward (layer_stack D ! (n - 1)) X mb (Some db) (Some eb) prev
             = Inr (out, attn, all_inputs))"
proof (cases n)
  case 0
  with assms show ?thesis by simp
next
  case (Suc k)
  then have "[0..<n] = [0..<k] @ [k]" by simp
  with assms obtain X a0 saved0 where
    "layer_loop D s mb db eb [k] (X, a0, saved0) = Inr (out, Some attn, saved)"
    by (auto simp: layer_loop_append split: sum.splits)
  from layer_loop_single[OF this] Suc show ?thesis by auto
qed

lemma forward_copy_attn:
  "TransformerDecoder_forward (D\<lparr>copy_attn := m\<rparr>) h tgt memory_bank state_ref
     = TransformerDecoder_forward D h tgt memory_bank state_ref"
  by (simp add: TransformerDecoder_forward_def layer_loop_copy_attn Let_def
      cong: pyobj.case_cong sum.case_cong option.case_cong prod.case_cong embedded.case_cong)

lemma has_shape_transpose01:
  assumes "has_shape A (B, T, S)" and "0 < B"
  shows "has_shape (transpose01 A) (T, B, S)"
proof -
  have len: "length A = B" and rows: "\<forall>b < B. length (A ! b) = T"
    and cells: "\<forall>b < B. \<forall>k < T. length (A ! b ! k) = S"
    using assms(1) by (auto simp: has_shape_def list_all_length)
  obtain a0 A' where A: "A = a0 # A'" using len assms(2) by (cases A) auto
  have "length a0 = T" using rows A assms(2) by (metis nth_Cons_0)
  then have d1: "dim1 A = T" by (simp add: dim1_def A)
  show ?thesis
    unfolding transpose01_def d1
    using len rows cells by (auto simp: has_shape_def list_all_length)
qed

text \<open>
  C8. After a decoder forward call that returns, \<open>attns["std"]\<close> is the weights tensor
  returned by the cross-attention \<open>ma_l2\<close> of the last layer of the stack, and of no other
  layer: the weights of the very call of that layer whose result \<open>out\<close> becomes the
  outputs, made on the normalised result \<open>X1\<close> of the layer's self-attention stage, the
  transposed memory bank and the encoder-decoder bias. The tensor is transposed on its
  first two dimensions, so batch-first weights (batch x target length x source length)
  are returned length-first (target length x batch x source length). With copy attention
  enabled \<open>attns["copy"]\<close> is that same tensor, and otherwise the key is absent. The
  separate copy-attention module is never called: the result of forward is the same
  whatever module is stored in \<open>copy_attn\<close>.
\<close>

theorem forward_attention_maps:
  assumes "TransformerDecoder_forward D h tgt memory_bank state_ref
             = Inr ((outputs, state', attns), h')"
  shows "\<exists>s db X prev X1 out weights all_inputs.
           h ! state_ref = TransformerDecoderState_obj s
         \<and> 0 < num_layers D
         \<and> DecoderLayer_forward (layer_stack D ! (num_layers D - 1)) X
               (transpose01 memory_bank) (Some db)
               (Some (make_encoder_decoder_bias (word_padding_idx (embeddings D))
                        (transpose01 (select0 (src s))))) prev
             = Inr (out, weights, all_inputs)
         \<and> tensor_add
               (ma_l1_postdropout (layer_stack D ! (num_layers D - 1))
                  (fst (ma_l1 (layer_stack D ! (num_layers D - 1))
                     (ma_l1_prenorm (layer_stack D ! (num_layers D - 1)) X) (Some all_inputs)
                     (num_heads (layer_stack D ! (num_layers D - 1)))
                     (case prev of None \<Rightarrow> Some db | Some p \<Rightarrow> None)))) X
             = Inr X1
         \<and> weights
             = snd (ma_l2 (layer_stack D ! (num_layers D - 1))
                  (ma_l2_prenorm (layer_stack D ! (num_layers D - 1)) X1)
                  (Some (transpose01 memory_bank))
                  (num_heads (layer_stack D ! (num_layers D - 1)))
                  (Some (make_encoder_decoder_bias (word_padding_idx (embeddings D))
                     (transpose01 (select0 (src s))))))
         \<and> outputs = transpose01 (layer_norm D out)
         \<and> map_of attns ''std'' = Some (transpose01 weights)
         \<and> (\<forall>B T S. has_shape weights (B, T, S) \<and> 0 < B
               \<longrightarrow> has_shape (transpose01 weights) (T, B, S))
         \<and> (if copy D then map_of attns ''copy'' = map_of attns ''std''
              else map_of attns ''copy'' = None)
         \<and> (\<forall>m. TransformerDecoder_forward (D\<lparr>copy_attn := m\<rparr>) h tgt memory_bank state_ref
                  = TransformerDecoder_forward D h tgt memory_bank state_ref)"
proof -
  let ?L = "layer_stack D ! (num_layers D - 1)"
  from forward_InrD[OF assms] obtain s E db out attn saved where
    s: "h ! state_ref = TransformerDecoderState_obj s"
    and loop: "layer_loop D s (transpose01 memory_bank) db
              (make_encoder_decoder_bias (word_padding_idx (embeddings D))
                 (transpose01 (select0 (src s))))
              [0..<num_layers D] (transpose01 E, None, []) = Inr (out, Some attn, saved)"
    and outputs: "outputs = transpose01 (layer_norm D out)"
    and attns: "attns = (if copy D then [(''std'', transpose01 attn), (''copy'', transpose01 attn)]
                     else [(''std'', transpose01 attn)])"
    by blast
  from layer_loop_last[OF loop] obtain X prev all_inputs where
    n: "0 < num_layers D"
    and layer: "DecoderLayer_forward ?L X (transpose01 memory_bank) (Some db)
               (Some (make_encoder_decoder_bias (word_padding_idx (embeddings D))
                        (transpose01 (select0 (src s))))) prev
             = Inr (out, attn, all_inputs)"
    by blast
  from DecoderLayer_forward_InrD[OF layer] obtain X1 where
    x1: "tensor_add (ma_l1_postdropout ?L (fst (ma_l1 ?L (ma_l1_prenorm ?L X) (Some all_inputs)
          (num_heads ?L) (case prev of None \<Rightarrow> Some db | Some p \<Rightarrow> None)))) X = Inr X1"
    and w: "attn = snd (ma_l2 ?L (ma_l2_prenorm ?L X1) (Some (transpose01 memory_bank))
          (num_heads ?L) (Some (make_encoder_decoder_bias (word_padding_idx (embeddings D))
                     (transpose01 (select0 (src s))))))"
    by blast
  have std: "map_of attns ''std'' = Some (transpose01 attn)"
    using attns by simp
  have cp: "if copy D then map_of attns ''copy'' = map_of attns ''std''
              else map_of attns ''copy'' = None"
    using attns by simp
  have layout: "\<forall>B T S. has_shape attn (B, T, S) \<and> 0 < B
               \<longrightarrow> has_shape (transpose01 attn) (T, B, S)"
    using has_shape_transpose01 by blast
  have indep: "\<forall>m. TransformerDecoder_forward (D\<lparr>copy_attn := m\<rparr>) h tgt memory_bank state_ref
                  = TransformerDecoder_forward D h tgt memory_bank state_ref"
    using forward_copy_attn by blast
  from s n layer x1 w outputs std layout cp indep show ?thesis by blast
qed

theorem forward_attention_maps_witness:
  "TransformerDecoder_forward example_decoder example_heap [[[5]], [[6]]] example_memory_bank 0
     = Inr (([[[21, 5]], [[24, 5]]], 1,
             [(''std'', [[[1 / 2, 1 / 2]], [[1 / 2, 1 / 2]]]),
              (''copy'', [[[1 / 2, 1 / 2]], [[1 / 2, 1 / 2]]])]),
            example_heap @ [TransformerDecoderState_obj
               \<lparr>src = [[[3]], [[4]]], previous_input = Some [[[5]], [[6]]],
                  previous_layer_inputs = Some [[[[5, 1], [6, 1]]]]\<rparr>])
   \<and> copy example_decoder
   \<and> map_of [(''std'', [[[1 / 2, 1 / 2 :: real]], [[1 / 2, 1 / 2]]]),
              (''copy'', [[[1 / 2, 1 / 2]], [[1 / 2, 1 / 2]]])] ''copy''
       = map_of [(''std'', [[[1 / 2, 1 / 2 :: real]], [[1 / 2, 1 / 2]]]),
              (''copy'', [[[1 / 2, 1 / 2]], [[1 / 2, 1 / 2]]])] ''std''"
proof -
  let ?attns = "[(''std'', [[[1 / 2, 1 / 2 :: real]], [[1 / 2, 1 / 2]]]),
              (''copy'', [[[1 / 2, 1 / 2]], [[1 / 2, 1 / 2]]])]"
  have run: "TransformerDecoder_forward example_decoder example_heap [[[5]], [[6]]]
       example_memory_bank 0
     = Inr (([[[21, 5]], [[24, 5]]], 1, ?attns),
            example_heap @ [TransformerDecoderState_obj
               \<lparr>src = [[[3]], [[4]]], previous_input = Some [[[5]], [[6]]],
                  previous_layer_inputs = Some [[[[5, 1], [6, 1]]]]\<rparr>])"
    by code_simp
  have c: "copy example_decoder" by (simp add: example_decoder_def)
  from forward_attention_maps[OF run]
  have "if copy example_decoder then map_of ?attns ''copy'' = map_of ?attns ''std''
        else map_of ?attns ''copy'' = None"
    by blast
  with c have "map_of ?attns ''copy'' = map_of ?attns ''std''" by simp
  with run c show ?thesis by simp
qed

text \<open>
  The layout that C8 names is not the one returned. On the example decoder, for a target
  of three tokens, a batch of one and a source of two tokens, the last layer returns its
  weights batch-first, of size \<open>1 x 3 x 2\<close>, and \<open>attns["std"]\<close> has size
  \<open>3 x 1 x 2\<close>: target length first, batch second.
\<close>

theorem attention_maps_layout_counterexample:
  "DecoderLayer_forward example_layer [[[5, 1], [6, 1], [7, 1]]]
       (transpose01 example_memory_bank)
       (Some [[[0, - 1000000000, - 1000000000], [0, 0, - 1000000000], [0, 0, 0]]])
       (Some [[[0, 0]]]) None
     = Inr ([[[21, 5], [24, 5], [27, 5]]],
            [[[1 / 2, 1 / 2], [1 / 2, 1 / 2], [1 / 2, 1 / 2]]],
            [[[5, 1], [6, 1], [7, 1]]])
   \<and> size3 [[[1 / 2, 1 / 2], [1 / 2, 1 / 2], [1 / 2, 1 / 2 :: real]]] = (1, 3, 2)
   \<and> TransformerDecoder_forward example_decoder example_heap [[[5]], [[6]], [[7]]]
       example_memory_bank 0
     = Inr (([[[21, 5]], [[24, 5]], [[27, 5]]], 1,
             [(''std'', [[[1 / 2, 1 / 2]], [[1 / 2, 1 / 2]], [[1 / 2, 1 / 2]]]),
              (''copy'', [[[1 / 2, 1 / 2]], [[1 / 2, 1 / 2]], [[1 / 2, 1 / 2]]])]),
            example_heap @ [TransformerDecoderState_obj
               \<lparr>src = [[[3]], [[4]]], previous_input = Some [[[5]], [[6]], [[7]]],
                  previous_layer_inputs = Some [[[[5, 1], [6, 1], [7, 1]]]]\<rparr>])
   \<and> size3 [[[1 / 2, 1 / 2]], [[1 / 2, 1 / 2]], [[1 / 2, 1 / 2 :: real]]] = (3, 1, 2)"
  by code_simp

lemma dim1_select0: "dim1 (select0 T) = dim1 T"
  by (cases T) (simp_all add: dim1_def select0_def)

lemma length_select0: "length (select0 T) = length T"
  by (simp add: select0_def)

lemma length_transpose01: "length (transpose01 M) = dim1 M"
  by (simp add: transpose01_def)

lemma dim1_transpose01: "0 < dim1 M \<Longrightarrow> dim1 (transpose01 M) = length M"
  by (cases "dim1 M") (simp_all add: transpose01_def dim1_def upt_conv_Cons del: upt_Suc)

lemma forward_checks_iff:
  assumes "0 < dim1 (src s)"
  shows "forward_checks tgt memory_bank s
     = (if dim1 tgt = dim1 memory_bank \<and> dim1 (src s) = dim1 tgt
           \<and> length memory_bank = length (src s)
        then Inr () else Inl AssertionError)"
  using assms
  by (auto simp: forward_checks_def size3_def aeq_def Let_def length_transpose01 dim1_select0
      dim1_transpose01 length_select0)

lemma torch_cat0_not_assertion: "torch_cat0 A B \<noteq> Inl AssertionError"
  by (simp add: torch_cat0_def)

lemma torch_cat1_not_assertion: "torch_cat1 A B \<noteq> Inl AssertionError"
  by (simp add: torch_cat1_def)

lemma tensor_add_not_assertion: "tensor_add A B \<noteq> Inl AssertionError"
  by (simp add: tensor_add_def)

lemma torch_stack_not_assertion: "torch_stack ts \<noteq> Inl AssertionError"
  by (simp add: torch_stack_def split: list.splits)

lemma make_decoder_bias_not_assertion: "make_decoder_bias p W \<noteq> Inl AssertionError"
  using tensor_add_not_assertion
  by (auto simp: make_decoder_bias_def Let_def split: sum.splits)

lemma DecoderLayer_forward_not_assertion:
  "DecoderLayer_forward L x enc sb eb prev \<noteq> Inl AssertionError"
  by (auto simp: DecoderLayer_forward_def Let_def tensor_add_not_assertion torch_cat1_not_assertion
      split: sum.splits option.splits prod.splits)

lemma layer_loop_not_assertion:
  "layer_loop D s mb db eb xs acc \<noteq> Inl AssertionError"
proof (induction xs arbitrary: acc)
  case Nil
  show ?case by simp
next
  case (Cons i xs)
  obtain out a saved where acc: "acc = (out, a, saved)" by (cases acc) auto
  show ?case
    unfolding acc using Cons.IH
    by (auto simp: DecoderLayer_forward_not_assertion split: sum.splits option.splits prod.splits)
qed

lemma forward_checks_cases:
  "forward_checks tgt memory_bank s = Inr () \<or> forward_checks tgt memory_bank s = Inl AssertionError"
  by (auto simp: forward_checks_def size3_def aeq_def Let_def split: sum.splits)

lemma slice_from_Other_dim: "(slice_from n e = Other_dim) = (e = Other_dim)"
  by (cases e) (simp_all add: slice_from_def)

lemma forward_after_checks:
  assumes "h ! state_ref = TransformerDecoderState_obj s"
    and "forward_checks tgt memory_bank s = Inr ()"
  shows "(TransformerDecoder_forward D h tgt memory_bank state_ref = Inl AssertionError)
     = (case previous_input s of
          None \<Rightarrow> embed (embeddings D) tgt = Other_dim
        | Some p \<Rightarrow> dim1 p = dim1 tgt \<and> dim2 p = dim2 tgt
                     \<and> embed (embeddings D) (p @ tgt) = Other_dim)"
proof (cases "previous_input s")
  case None
  show ?thesis
  proof (cases "embed (embeddings D) tgt")
    case Other_dim
    with assms None show ?thesis by (simp add: TransformerDecoder_forward_def)
  next
    case (Dim3 E)
    with assms None show ?thesis
      by (auto simp: TransformerDecoder_forward_def Let_def
          make_decoder_bias_not_assertion layer_loop_not_assertion torch_stack_not_assertion
          split: sum.splits option.splits prod.splits)
  qed
next
  case (Some p)
  show ?thesis
  proof (cases "dim1 p = dim1 tgt \<and> dim2 p = dim2 tgt")
    case False
    with assms Some show ?thesis
      by (auto simp: TransformerDecoder_forward_def torch_cat0_def)
  next
    case True
    then have cat: "torch_cat0 p tgt = Inr (p @ tgt)" by (simp add: torch_cat0_def)
    show ?thesis
    proof (cases "embed (embeddings D) (p @ tgt)")
      case Other_dim
      with assms Some cat True show ?thesis
        by (simp add: TransformerDecoder_forward_def slice_from_def)
    next
      case (Dim3 E)
      with assms Some cat True show ?thesis
        by (auto simp: TransformerDecoder_forward_def Let_def slice_from_def
            make_decoder_bias_not_assertion layer_loop_not_assertion torch_stack_not_assertion
            split: sum.splits option.splits prod.splits)
    qed
  qed
qed

lemma forward_assertion_cases:
  "(TransformerDecoder_forward D h tgt memory_bank state_ref = Inl AssertionError)
     = (case h ! state_ref of
          Other_obj \<Rightarrow> True
        | TransformerDecoderState_obj s \<Rightarrow>
            forward_checks tgt memory_bank s = Inl AssertionError
            \<or> (forward_checks tgt memory_bank s = Inr ()
               \<and> (case previous_input s of
                     None \<Rightarrow> embed (embeddings D) tgt = Other_dim
                   | Some p \<Rightarrow> dim1 p = dim1 tgt \<and> dim2 p = dim2 tgt
                                \<and> embed (embeddings D) (p @ tgt) = Other_dim)))"
proof (cases "h ! state_ref")
  case Other_obj
  then show ?thesis by (simp add: TransformerDecoder_forward_def)
next
  case (TransformerDecoderState_obj s)
  from forward_checks_cases[of tgt memory_bank s] show ?thesis
  proof
    assume c: "forward_checks tgt memory_bank s = Inr ()"
    from forward_after_checks[OF TransformerDecoderState_obj c, of D] c
      TransformerDecoderState_obj
    show ?thesis by simp
  next
    assume c: "forward_checks tgt memory_bank s = Inl AssertionError"
    with TransformerDecoderState_obj show ?thesis
      by (simp add: TransformerDecoder_forward_def)
  qed
qed

text \<open>
  C4, as the code has it. Forward raises \<open>AssertionError\<close> at its entry checks and at
  the check of the embeddings' result, all of them before the first layer is run: it
  yields \<open>AssertionError\<close> exactly when the state is not a \<open>TransformerDecoderState\<close>, or
  the batch sizes of target, memory bank and the state's source disagree, or the
  memory-bank length differs from the source length, or the embeddings of the target
  (concatenated after the previous input, when there is one and the concatenation
  succeeds) are not a three-dimensional tensor. The layers, their number and the final
  normalisation play no part in it, and nothing catches the error. Other failures (a
  concatenation or stacking shape error, an empty layer stack) are not assertion
  failures.
\<close>

theorem forward_assertion_iff:
  "(h ! state_ref = Other_obj
      \<longrightarrow> TransformerDecoder_forward D h tgt memory_bank state_ref = Inl AssertionError)
   \<and> (h ! state_ref = TransformerDecoderState_obj s \<and> 0 < dim1 (src s)
      \<longrightarrow> (TransformerDecoder_forward D h tgt memory_bank state_ref = Inl AssertionError)
          = (dim1 tgt \<noteq> dim1 memory_bank \<or> dim1 (src s) \<noteq> dim1 tgt
               \<or> length memory_bank \<noteq> length (src s)
               \<or> (case previous_input s of
                     None \<Rightarrow> embed (embeddings D) tgt = Other_dim
                   | Some p \<Rightarrow> dim1 p = dim1 tgt \<and> dim2 p = dim2 tgt
                                \<and> embed (embeddings D) (p @ tgt) = Other_dim)))
   \<and> (\<forall>ls n ln.
        (TransformerDecoder_forward (D\<lparr>layer_stack := ls, num_layers := n, layer_norm := ln\<rparr>)
           h tgt memory_bank state_ref = Inl AssertionError)
        = (TransformerDecoder_forward D h tgt memory_bank state_ref = Inl AssertionError))"
proof (rule conjI[OF _ conjI]; (rule impI)?)
  assume "h ! state_ref = Other_obj"
  then show "TransformerDecoder_forward D h tgt memory_bank state_ref = Inl AssertionError"
    by (simp add: TransformerDecoder_forward_def)
next
  assume a: "h ! state_ref = TransformerDecoderState_obj s \<and> 0 < dim1 (src s)"
  let ?emb = "case previous_input s of
                None \<Rightarrow> embed (embeddings D) tgt = Other_dim
              | Some p \<Rightarrow> dim1 p = dim1 tgt \<and> dim2 p = dim2 tgt
                           \<and> embed (embeddings D) (p @ tgt) = Other_dim"
  show "(TransformerDecoder_forward D h tgt memory_bank state_ref = Inl AssertionError)
          = (dim1 tgt \<noteq> dim1 memory_bank \<or> dim1 (src s) \<noteq> dim1 tgt
               \<or> length memory_bank \<noteq> length (src s) \<or> ?emb)"
  proof (cases "dim1 tgt = dim1 memory_bank \<and> dim1 (src s) = dim1 tgt
           \<and> length memory_bank = length (src s)")
    case True
    with a have "forward_checks tgt memory_bank s = Inr ()"
      by (simp add: forward_checks_iff)
    with a have "(TransformerDecoder_forward D h tgt memory_bank state_ref = Inl AssertionError)
        = ?emb"
      by (simp add: forward_after_checks)
    with True show ?thesis by simp
  next
    case False
    with a have "forward_checks tgt memory_bank s = Inl AssertionError"
      by (simp add: forward_checks_iff)
    with a have "TransformerDecoder_forward D h tgt memory_bank state_ref = Inl AssertionError"
      by (simp add: TransformerDecoder_forward_def)
    with False show ?thesis by auto
  qed
next
  show "\<forall>ls n ln.
        (TransformerDecoder_forward (D\<lparr>layer_stack := ls, num_layers := n, layer_norm := ln\<rparr>)
           h tgt memory_bank state_ref = Inl AssertionError)
        = (TransformerDecoder_forward D h tgt memory_bank state_ref = Inl AssertionError)"
    by (simp add: forward_assertion_cases split: pyobj.splits option.splits)
qed

theorem forward_assertion_iff_witness:
  "[Other_obj] ! 0 = Other_obj
   \<and> TransformerDecoder_forward example_decoder [Other_obj] [[[5]]] example_memory_bank 0
       = Inl AssertionError
   \<and> example_heap ! 0 = TransformerDecoderState_obj example_state
   \<and> 0 < dim1 (src example_state)
   \<and> length example_memory_bank \<noteq> length (src (TransformerDecoderState_init [[[3]]]))
   \<and> TransformerDecoder_forward example_decoder
         [TransformerDecoderState_obj (TransformerDecoderState_init [[[3]]])]
         [[[5]]] example_memory_bank 0 = Inl AssertionError
   \<and> TransformerDecoder_forward example_decoder example_heap [[[5]]] example_memory_bank 0
       \<noteq> Inl AssertionError
   \<and> TransformerDecoder_forward example_decoder_flat_embeddings example_heap [[[5]]]
       example_memory_bank 0 = Inl AssertionError"
proof -
  let ?s1 = "TransformerDecoderState_init [[[3]]]"
  have a: "[Other_obj] ! 0 = Other_obj" by simp
  have b: "example_heap ! 0 = TransformerDecoderState_obj example_state
             \<and> 0 < dim1 (src example_state)"
    by (simp add: example_heap_def example_state_def TransformerDecoderState_init_def dim1_def)
  have c: "[TransformerDecoderState_obj ?s1] ! 0 = TransformerDecoderState_obj ?s1
             \<and> 0 < dim1 (src ?s1)"
    by (simp add: TransformerDecoderState_init_def dim1_def)
  have d: "length example_memory_bank \<noteq> length (src ?s1)"
    by (simp add: example_memory_bank_def TransformerDecoderState_init_def)
  have e: "dim1 [[[5::int]]] = dim1 example_memory_bank
             \<and> dim1 (src example_state) = dim1 [[[5::int]]]
             \<and> length example_memory_bank = length (src example_state)"
    by (simp add: example_memory_bank_def example_state_def TransformerDecoderState_init_def
        dim1_def)
  have e1: "previous_input example_state = None"
    by (simp add: example_state_def TransformerDecoderState_init_def)
  have e2: "embed (embeddings example_decoder) [[[5]]] \<noteq> Other_dim"
    by (simp add: example_decoder_def example_embeddings_def)
  have e3: "embed (embeddings example_decoder_flat_embeddings) [[[5]]] = Other_dim"
    by (simp add: example_decoder_flat_embeddings_def)
  from forward_assertion_iff[where h = "[Other_obj]" and state_ref = 0
      and D = example_decoder and tgt = "[[[5]]]" and memory_bank = example_memory_bank] a
  have f: "TransformerDecoder_forward example_decoder [Other_obj] [[[5]]] example_memory_bank 0
       = Inl AssertionError" by blast
  from forward_assertion_iff[where h = "[TransformerDecoderState_obj ?s1]" and state_ref = 0
      and s = ?s1 and D = example_decoder and tgt = "[[[5]]]"
      and memory_bank = example_memory_bank] c d
  have g: "TransformerDecoder_forward example_decoder [TransformerDecoderState_obj ?s1]
         [[[5]]] example_memory_bank 0 = Inl AssertionError" by blast
  from forward_assertion_iff[where h = example_heap and state_ref = 0
      and s = example_state and D = example_decoder and tgt = "[[[5]]]"
      and memory_bank = example_memory_bank] b e e1 e2
  have i: "TransformerDecoder_forward example_decoder example_heap [[[5]]] example_memory_bank 0
       \<noteq> Inl AssertionError" by simp
  from forward_assertion_iff[where h = example_heap and state_ref = 0
      and s = example_state and D = example_decoder_flat_embeddings and tgt = "[[[5]]]"
      and memory_bank = example_memory_bank] b e1 e3
  have j: "TransformerDecoder_forward example_decoder_flat_embeddings example_heap [[[5]]]
       example_memory_bank 0 = Inl AssertionError" by simp
  show ?thesis using a b d f g i j by blast
qed

text \<open>
  C4, as stated, fails: a decoder with an empty layer stack raises (\<open>torch.stack\<close> refuses
  the empty list of saved inputs) on a call whose state is a \<open>TransformerDecoderState\<close>
  and whose batch sizes and lengths all agree.
\<close>

theorem forward_raises_iff_counterexample:
  "TransformerDecoder_forward example_decoder_no_layers example_heap [[[5]]]
       example_memory_bank 0 = Inl ValueError
   \<and> example_heap ! 0 = TransformerDecoderState_obj example_state
   \<and> dim1 [[[5::int]]] = dim1 example_memory_bank
   \<and> dim1 (src example_state) = dim1 [[[5::int]]]
   \<and> length example_memory_bank = length (src example_state)"
  by code_simp

section \<open>Properties of the decoder layer\<close>

text \<open>
  C2, as the code has it. When a \<open>previous_input\<close> is given, (a) the self-attention bias
  is the one that is cleared: the result is the same for every \<open>self_attention_bias\<close>;
  (b) the returned key/value set is the concatenation of \<open>previous_input\<close> and the
  normalised \<open>x\<close> along the sequence axis; (c) self-attention is called with the normalised
  \<open>x\<close> as query, that concatenation as memory and no bias, and only its context is used:
  any attention module with the same context at that one call gives the same result;
  (d) the encoder-decoder bias is not cleared: cross-attention is called with it, and any
  module that agrees with \<open>ma_l2\<close> on the calls with the given encoder output and
  encoder-decoder bias gives the same result.
\<close>

theorem DecoderLayer_forward_incremental:
  "(\<forall>sb'. DecoderLayer_forward L x enc sb' eb (Some p)
            = DecoderLayer_forward L x enc sb eb (Some p))
   \<and> (DecoderLayer_forward L x enc sb eb (Some p) = Inr (ans, attn, all_inputs)
        \<longrightarrow> length p = length (ma_l1_prenorm L x)
          \<and> all_inputs = map2 (@) p (ma_l1_prenorm L x))
   \<and> (\<forall>f :: attention_fn. fst (f (ma_l1_prenorm L x) (Some (map2 (@) p (ma_l1_prenorm L x))) (num_heads L) None)
             = fst (ma_l1 L (ma_l1_prenorm L x) (Some (map2 (@) p (ma_l1_prenorm L x)))
                  (num_heads L) None)
        \<longrightarrow> DecoderLayer_forward (L\<lparr>ma_l1 := f\<rparr>) x enc sb eb (Some p)
              = DecoderLayer_forward L x enc sb eb (Some p))
   \<and> (\<forall>g :: attention_fn. (\<forall>q. g q (Some enc) (num_heads L) eb = ma_l2 L q (Some enc) (num_heads L) eb)
        \<longrightarrow> DecoderLayer_forward (L\<lparr>ma_l2 := g\<rparr>) x enc sb eb (Some p)
              = DecoderLayer_forward L x enc sb eb (Some p))"
proof (intro conjI allI impI)
  fix sb'
  show "DecoderLayer_forward L x enc sb' eb (Some p) = DecoderLayer_forward L x enc sb eb (Some p)"
    by (simp add: DecoderLayer_forward_def Let_def split: sum.splits)
next
  assume "DecoderLayer_forward L x enc sb eb (Some p) = Inr (ans, attn, all_inputs)"
  then have "torch_cat1 p (ma_l1_prenorm L x) = Inr all_inputs"
    by (auto simp: DecoderLayer_forward_def Let_def split: sum.splits prod.splits)
  then show "length p = length (ma_l1_prenorm L x)"
    and "all_inputs = map2 (@) p (ma_l1_prenorm L x)"
    by (auto simp: torch_cat1_def split: if_splits)
next
  fix f :: attention_fn
  assume "fst (f (ma_l1_prenorm L x) (Some (map2 (@) p (ma_l1_prenorm L x))) (num_heads L) None)
             = fst (ma_l1 L (ma_l1_prenorm L x) (Some (map2 (@) p (ma_l1_prenorm L x)))
                  (num_heads L) None)"
  then show "DecoderLayer_forward (L\<lparr>ma_l1 := f\<rparr>) x enc sb eb (Some p)
              = DecoderLayer_forward L x enc sb eb (Some p)"
    by (auto simp: DecoderLayer_forward_def Let_def torch_cat1_def split: sum.splits prod.splits)
next
  fix g :: attention_fn
  assume "\<forall>q. g q (Some enc) (num_heads L) eb = ma_l2 L q (Some enc) (num_heads L) eb"
  then show "DecoderLayer_forward (L\<lparr>ma_l2 := g\<rparr>) x enc sb eb (Some p)
              = DecoderLayer_forward L x enc sb eb (Some p)"
    by (auto simp: DecoderLayer_forward_def Let_def split: sum.splits prod.splits)
qed

theorem DecoderLayer_forward_incremental_witness:
  "DecoderLayer_forward example_layer [[[1, 1]]] [[[1, 0], [0, 1]]] (Some [[[- 1000000000]]])
       (Some [[[0, - 1000000000]]]) (Some [[[5, 1]]])
     = DecoderLayer_forward example_layer [[[1, 1]]] [[[1, 0], [0, 1]]] None
       (Some [[[0, - 1000000000]]]) (Some [[[5, 1]]])
   \<and> DecoderLayer_forward example_layer [[[1, 1]]] [[[1, 0], [0, 1]]] None
       (Some [[[0, - 1000000000]]]) (Some [[[5, 1]]])
     = Inr ([[[10, 4]]], [[[1, 0]]], [[[5, 1], [1, 1]]])
   \<and> map2 (@) [[[5, 1]]] (ma_l1_prenorm example_layer [[[1, 1]]]) = [[[5, 1], [1, 1]]]
   \<and> DecoderLayer_forward
         (example_layer\<lparr>ma_l1 := \<lambda>q m n b. (fst (example_attention q m n None), [])\<rparr>)
         [[[1, 1]]] [[[1, 0], [0, 1]]] None (Some [[[0, - 1000000000]]]) (Some [[[5, 1]]])
     = DecoderLayer_forward example_layer [[[1, 1]]] [[[1, 0], [0, 1]]] None
       (Some [[[0, - 1000000000]]]) (Some [[[5, 1]]])
   \<and> DecoderLayer_forward
         (example_layer\<lparr>ma_l2 := \<lambda>q m n b. example_attention q m n (Some [[[0, - 1000000000]]])\<rparr>)
         [[[1, 1]]] [[[1, 0], [0, 1]]] None (Some [[[0, - 1000000000]]]) (Some [[[5, 1]]])
     = DecoderLayer_forward example_layer [[[1, 1]]] [[[1, 0], [0, 1]]] None
       (Some [[[0, - 1000000000]]]) (Some [[[5, 1]]])"
proof -
  let ?f = "\<lambda>q m n b. (fst (example_attention q m n None), [])"
  let ?g = "\<lambda>q m n b. example_attention q m n (Some [[[0, - 1000000000]]])"
  note inst = DecoderLayer_forward_incremental[where L = example_layer and x = "[[[1, 1]]]"
      and enc = "[[[1, 0], [0, 1]]]" and sb = None and eb = "Some [[[0, - 1000000000]]]"
      and p = "[[[5, 1]]]" and ans = "[[[10, 4]]]" and attn = "[[[1, 0]]]"
      and all_inputs = "[[[5, 1], [1, 1]]]"]
  have run: "DecoderLayer_forward example_layer [[[1, 1]]] [[[1, 0], [0, 1]]] None
       (Some [[[0, - 1000000000]]]) (Some [[[5, 1]]])
     = Inr ([[[10, 4]]], [[[1, 0]]], [[[5, 1], [1, 1]]])"
    by code_simp
  have hf: "fst (?f (ma_l1_prenorm example_layer [[[1, 1]]])
                (Some (map2 (@) [[[5, 1]]] (ma_l1_prenorm example_layer [[[1, 1]]])))
                (num_heads example_layer) None)
             = fst (ma_l1 example_layer (ma_l1_prenorm example_layer [[[1, 1]]])
                (Some (map2 (@) [[[5, 1]]] (ma_l1_prenorm example_layer [[[1, 1]]])))
                (num_heads example_layer) None)"
    by (simp add: example_layer_def)
  have hg: "\<forall>q. ?g q (Some [[[1, 0], [0, 1]]]) (num_heads example_layer)
                  (Some [[[0, - 1000000000]]])
             = ma_l2 example_layer q (Some [[[1, 0], [0, 1]]]) (num_heads example_layer)
                  (Some [[[0, - 1000000000]]])"
    by (simp add: example_layer_def)
  from inst have a: "DecoderLayer_forward example_layer [[[1, 1]]] [[[1, 0], [0, 1]]]
       (Some [[[- 1000000000]]]) (Some [[[0, - 1000000000]]]) (Some [[[5, 1]]])
     = DecoderLayer_forward example_layer [[[1, 1]]] [[[1, 0], [0, 1]]] None
       (Some [[[0, - 1000000000]]]) (Some [[[5, 1]]])"
    by blast
  from inst run have b: "[[[5, 1], [1, 1]]]
      = map2 (@) [[[5, 1]]] (ma_l1_prenorm example_layer [[[1, 1]]])"
    by blast
  note cf = inst[THEN conjunct2, THEN conjunct2, THEN conjunct1, THEN spec, of ?f]
  note dg = inst[THEN conjunct2, THEN conjunct2, THEN conjunct2, THEN spec, of ?g]
  from cf hf have c: "DecoderLayer_forward (example_layer\<lparr>ma_l1 := ?f\<rparr>)
         [[[1, 1]]] [[[1, 0], [0, 1]]] None (Some [[[0, - 1000000000]]]) (Some [[[5, 1]]])
     = DecoderLayer_forward example_layer [[[1, 1]]] [[[1, 0], [0, 1]]] None
       (Some [[[0, - 1000000000]]]) (Some [[[5, 1]]])"
    by blast
  from dg hg have d: "DecoderLayer_forward (example_layer\<lparr>ma_l2 := ?g\<rparr>)
         [[[1, 1]]] [[[1, 0], [0, 1]]] None (Some [[[0, - 1000000000]]]) (Some [[[5, 1]]])
     = DecoderLayer_forward example_layer [[[1, 1]]] [[[1, 0], [0, 1]]] None
       (Some [[[0, - 1000000000]]]) (Some [[[5, 1]]])"
    by blast
  show ?thesis using a run b[symmetric] c d by blast
qed

text \<open>
  C2, as stated, fails in its second part: with a \<open>previous_input\<close> given, the result of
  the layer still depends on the encoder-decoder bias. On the example layer, masking the
  second source position changes the cross-attention weights and the output.
\<close>

theorem cross_attention_bias_cleared_counterexample:
  "DecoderLayer_forward example_layer [[[1, 1]]] [[[1, 0], [0, 1]]] None
       (Some [[[0, - 1000000000]]]) (Some [[[5, 1]]])
     = Inr ([[[10, 4]]], [[[1, 0]]], [[[5, 1], [1, 1]]])
   \<and> DecoderLayer_forward example_layer [[[1, 1]]] [[[1, 0], [0, 1]]] None
       None (Some [[[5, 1]]])
     = Inr ([[[9, 5]]], [[[1 / 2, 1 / 2]]], [[[5, 1], [1, 1]]])"
  by code_simp

lemma dim1_broadcast2:
  "length A = length B \<Longrightarrow> dim1 A = dim1 B \<Longrightarrow> dim1 (broadcast2 (broadcast2 f) A B) = dim1 B"
  by (cases A; cases B) (simp_all add: dim1_def broadcast2_def)

lemma dim2_broadcast2:
  "length A = length B \<Longrightarrow> dim1 A = dim1 B \<Longrightarrow> dim2 A = dim2 B
     \<Longrightarrow> dim2 (broadcast2 (broadcast2 (broadcast2 f)) A B) = dim2 B"
proof (cases A; cases B)
  fix a A' b B'
  assume "length A = length B" "dim1 A = dim1 B" "dim2 A = dim2 B" "A = a # A'" "B = b # B'"
  then have "length a = length b" "dim1 a = dim1 b" "dim2 B = dim1 b"
    "dim2 (broadcast2 (broadcast2 (broadcast2 f)) A B) = dim1 (broadcast2 (broadcast2 f) a b)"
    by (simp_all add: dim1_def dim2_def broadcast2_def)
  then show ?thesis by (simp add: dim1_broadcast2)
qed (simp_all add: dim2_def broadcast2_def)

lemma tensor_add_size3:
  assumes eq: "size3 A = size3 B" and add: "tensor_add A B = Inr C"
  shows "size3 C = size3 B"
proof -
  from eq have len: "length A = length B" and d1: "dim1 A = dim1 B" and d2: "dim2 A = dim2 B"
    by (simp_all only: size3_def prod.inject)
  have "tensor_add A B = Inr (broadcast2 (broadcast2 (broadcast2 (+))) A B)"
    unfolding tensor_add_def broadcastable_def using len d1 d2 by (simp only: simp_thms if_True)
  with add have "Inr (broadcast2 (broadcast2 (broadcast2 (+))) A B) = (Inr C :: error + tensor)"
    by (simp only:)
  then have C: "C = broadcast2 (broadcast2 (broadcast2 (+))) A B"
    by (simp only: sum.inject)
  have "length C = length B" unfolding C using len by (rule length_broadcast2)
  moreover have "dim1 C = dim1 B" unfolding C using len d1 by (rule dim1_broadcast2)
  moreover have "dim2 C = dim2 B" unfolding C using len d1 d2 by (rule dim2_broadcast2)
  ultimately show ?thesis by (simp only: size3_def)
qed

lemma DecoderLayer_forward_size3:
  assumes run: "DecoderLayer_forward L x enc sb eb prev = Inr (ans, attn, all_inputs)"
    and sizes: "layer_sizes L"
  shows "size3 ans = size3 x"
proof -
  from sizes have a1: "\<And>Q M h bias. size3 (fst (ma_l1 L Q M h bias)) = size3 Q"
    and a2: "\<And>Q M h bias. size3 (fst (ma_l2 L Q M h bias)) = size3 Q"
    and f: "\<And>X. size3 (ffn L X) = size3 X"
    and n1: "\<And>X. size3 (ma_l1_prenorm L X) = size3 X"
    and n2: "\<And>X. size3 (ma_l2_prenorm L X) = size3 X"
    and n3: "\<And>X. size3 (ffn_prenorm L X) = size3 X"
    and d1: "\<And>X. size3 (ma_l1_postdropout L X) = size3 X"
    and d2: "\<And>X. size3 (ma_l2_postdropout L X) = size3 X"
    and d3: "\<And>X. size3 (ffn_postdropout L X) = size3 X"
    unfolding layer_sizes_def size_preserving_def size_preserving_attention_def by blast+
  from DecoderLayer_forward_InrD[OF run] obtain X1 X2 where
    s1: "tensor_add (ma_l1_postdropout L (fst (ma_l1 L (ma_l1_prenorm L x) (Some all_inputs)
          (num_heads L) (case prev of None \<Rightarrow> sb | Some p \<Rightarrow> None)))) x = Inr X1"
    and s2: "tensor_add (ma_l2_postdropout L (fst (ma_l2 L (ma_l2_prenorm L X1) (Some enc)
          (num_heads L) eb))) X1 = Inr X2"
    and s3: "tensor_add (ffn_postdropout L (ffn L (ffn_prenorm L X2))) X2 = Inr ans"
    by blast
  have "size3 X1 = size3 x"
    by (rule tensor_add_size3[OF _ s1]) (simp only: d1 a1 n1)
  moreover have "size3 X2 = size3 X1"
    by (rule tensor_add_size3[OF _ s2]) (simp only: d2 a2 n2)
  moreover have "size3 ans = size3 X2"
    by (rule tensor_add_size3[OF _ s3]) (simp only: d3 f n3)
  ultimately show ?thesis by (simp only:)
qed

lemma layer_loop_size3:
  assumes "list_all layer_sizes (layer_stack D)"
  shows "layer_loop D s mb db eb xs (out0, a0, saved0) = Inr (out, a, saved)
     \<Longrightarrow> size3 out = size3 out0"
proof (induction xs arbitrary: out0 a0 saved0)
  case Nil
  then show ?case by simp
next
  case (Cons i xs)
  from Cons.prems obtain prev out1 attn1 all1 where
    i: "i < length (layer_stack D)"
    and step: "DecoderLayer_forward (layer_stack D ! i) out0 mb (Some db) (Some eb) prev
             = Inr (out1, attn1, all1)"
    and rest: "layer_loop D s mb db eb xs (out1, Some attn1, saved0 @ [all1]) = Inr (out, a, saved)"
    by (auto split: sum.splits option.splits prod.splits if_splits)
  from assms i have "layer_sizes (layer_stack D ! i)" by (simp add: list_all_length)
  from Cons.IH[OF rest] DecoderLayer_forward_size3[OF step this] show ?case by simp
qed

lemma embed3_Dim3: "embed E T = Dim3 X \<Longrightarrow> embed3 E T = X"
  by (simp add: embed3_def)

lemma slice_from_Dim3D:
  "slice_from n e = Dim3 X \<Longrightarrow> \<exists>Y. e = Dim3 Y \<and> X = drop n Y"
  by (cases e) (auto simp: slice_from_def)

lemma forward_outputs:
  assumes "TransformerDecoder_forward D h tgt memory_bank state_ref
             = Inr ((outputs, state', attns), h')"
    and "h ! state_ref = TransformerDecoderState_obj s"
  shows "\<exists>db out attn saved.
           make_decoder_bias (word_padding_idx (embeddings D)) (transpose01 (select0 tgt))
             = Inr db
         \<and> layer_loop D s (transpose01 memory_bank) db
             (make_encoder_decoder_bias (word_padding_idx (embeddings D))
                (transpose01 (select0 (src s))))
             [0..<num_layers D]
             (transpose01 (case previous_input s of
                             None \<Rightarrow> embed3 (embeddings D) tgt
                           | Some p \<Rightarrow> drop (length p) (embed3 (embeddings D) (p @ tgt))),
              None, [])
             = Inr (out, Some attn, saved)
         \<and> outputs = transpose01 (layer_norm D out)
         \<and> update_state h s (case previous_input s of None \<Rightarrow> tgt | Some p \<Rightarrow> p @ tgt) saved
             = (state', h')"
proof -
  from forward_InrD[OF assms(1)] assms(2) obtain full E db out attn saved where
    full: "case previous_input s of None \<Rightarrow> full = tgt | Some p \<Rightarrow> full = p @ tgt"
    and E: "(case previous_input s of
               None \<Rightarrow> embed (embeddings D) full
             | Some p \<Rightarrow> slice_from (length p) (embed (embeddings D) full)) = Dim3 E"
    and db: "make_decoder_bias (word_padding_idx (embeddings D)) (transpose01 (select0 tgt))
               = Inr db"
    and loop: "layer_loop D s (transpose01 memory_bank) db
             (make_encoder_decoder_bias (word_padding_idx (embeddings D))
                (transpose01 (select0 (src s))))
             [0..<num_layers D] (transpose01 E, None, []) = Inr (out, Some attn, saved)"
    and outputs: "outputs = transpose01 (layer_norm D out)"
    and upd: "update_state h s full saved = (state', h')"
    by auto
  have "E = (case previous_input s of
               None \<Rightarrow> embed3 (embeddings D) tgt
             | Some p \<Rightarrow> drop (length p) (embed3 (embeddings D) (p @ tgt)))"
    and "full = (case previous_input s of None \<Rightarrow> tgt | Some p \<Rightarrow> p @ tgt)"
    using full E
    by (cases "previous_input s"; auto dest!: slice_from_Dim3D simp: embed3_Dim3)+
  with db loop outputs upd show ?thesis by blast
qed

lemma has_shape_append:
  "has_shape A (a, B, F) \<Longrightarrow> has_shape A' (a', B, F) \<Longrightarrow> has_shape (A @ A') (a + a', B, F)"
  by (simp add: has_shape_def)

lemma has_shape_drop:
  "has_shape A (a, B, F) \<Longrightarrow> has_shape (drop n A) (a - n, B, F)"
  by (auto simp: has_shape_def list_all_iff dest: in_set_dropD)

lemma has_shape_dim1: "has_shape A (a, B, F) \<Longrightarrow> 0 < a \<Longrightarrow> dim1 A = B"
  by (cases A) (simp_all add: has_shape_def dim1_def)

lemma example_attention_sizes: "size_preserving_attention example_attention"
  unfolding size_preserving_attention_def
proof (intro allI)
  fix Q :: tensor and M h bias
  show "size3 (fst (example_attention Q M h bias)) = size3 Q"
  proof (cases Q)
    case Nil
    then show ?thesis by (simp add: example_attention_def size3_def dim1_def dim2_def Let_def)
  next
    case (Cons q Q')
    show ?thesis
    proof (cases q)
      case Nil
      with Cons show ?thesis
        by (simp add: example_attention_def size3_def dim1_def dim2_def upt_conv_Cons Let_def
            del: upt_Suc)
    next
      case (Cons r q')
      with \<open>Q = q # Q'\<close> show ?thesis
        by (simp add: example_attention_def size3_def dim1_def dim2_def upt_conv_Cons Let_def
            example_context_row_def del: upt_Suc)
    qed
  qed
qed

lemma example_layer_sizes: "layer_sizes example_layer"
  using example_attention_sizes
  by (simp add: layer_sizes_def example_layer_def size_preserving_def)

lemma example_embeddings_shaped: "shaped_embeddings example_embeddings (Suc 0) (Suc 0) 2"
  by (simp add: shaped_embeddings_def embed3_def has_shape_def example_embeddings_def
      list_all_iff)

text \<open>
  C3. Let the target tokens be a \<open>t x B x F\<close> tensor and let the state's
  \<open>previous_input\<close>, when there is one, hold \<open>p\<close> earlier tokens (\<open>p x B x F\<close>). Let the
  collaborators keep the sizes: the embeddings map \<open>L x B x F\<close> tokens to a three-dimensional
  \<open>L x B x C\<close> tensor, attention returns a context of the size of its query, and
  normalisation, feed-forward and dropout return a tensor of the size of their argument.
  Then every forward call that returns gives outputs of sequence length \<open>t\<close>, while the
  state it returns holds the \<open>p + t\<close> tokens of the whole history.
\<close>

theorem forward_output_length:
  assumes run: "TransformerDecoder_forward D h tgt memory_bank state_ref
             = Inr ((outputs, state', attns), h')"
    and state: "h ! state_ref = TransformerDecoderState_obj s"
    and tgt: "has_shape tgt (t, B, F)" "0 < t" "0 < B"
    and prev: "case previous_input s of None \<Rightarrow> p = 0 | Some prev \<Rightarrow> has_shape prev (p, B, F)"
    and emb: "shaped_embeddings (embeddings D) B F C"
    and layers: "list_all layer_sizes (layer_stack D)"
    and norm: "size_preserving (layer_norm D)"
  shows "length outputs = t
       \<and> (\<exists>new full. h' ! state' = TransformerDecoderState_obj new
             \<and> previous_input new = Some full \<and> length full = p + t)"
proof -
  let ?emb = "case previous_input s of
                None \<Rightarrow> embed3 (embeddings D) tgt
              | Some q \<Rightarrow> drop (length q) (embed3 (embeddings D) (q @ tgt))"
  let ?full = "case previous_input s of None \<Rightarrow> tgt | Some q \<Rightarrow> q @ tgt"
  from forward_outputs[OF run state] obtain db eb out attn saved where
    loop: "layer_loop D s (transpose01 memory_bank) db eb [0..<num_layers D]
             (transpose01 ?emb, None, []) = Inr (out, Some attn, saved)"
    and outputs: "outputs = transpose01 (layer_norm D out)"
    and upd: "update_state h s ?full saved = (state', h')"
    by blast
  from emb have emb': "\<And>T L. has_shape T (L, B, F) \<Longrightarrow> has_shape (embed3 (embeddings D) T) (L, B, C)"
    unfolding shaped_embeddings_def by blast
  have shape: "has_shape ?emb (t, B, C)" and full: "length ?full = p + t"
  proof -
    show "has_shape ?emb (t, B, C)"
    proof (cases "previous_input s")
      case None
      with emb' tgt(1) show ?thesis by simp
    next
      case (Some q)
      with prev have q: "has_shape q (p, B, F)" by simp
      then have lq: "length q = p" by (simp add: has_shape_def)
      from q tgt(1) have "has_shape (q @ tgt) (p + t, B, F)" by (rule has_shape_append)
      then have "has_shape (embed3 (embeddings D) (q @ tgt)) (p + t, B, C)" by (rule emb')
      then have "has_shape (drop p (embed3 (embeddings D) (q @ tgt))) (p + t - p, B, C)"
        by (rule has_shape_drop)
      with Some lq show ?thesis by simp
    qed
    show "length ?full = p + t"
      using prev tgt(1) by (cases "previous_input s") (simp_all add: has_shape_def)
  qed
  from shape have "dim1 ?emb = B" using tgt(2) by (rule has_shape_dim1)
  with tgt(3) have "dim1 (transpose01 ?emb) = length ?emb" by (simp add: dim1_transpose01)
  also have "\<dots> = t" using shape by (simp add: has_shape_def)
  finally have d0: "dim1 (transpose01 ?emb) = t" .
  from layer_loop_size3[OF layers loop] have "dim1 out = dim1 (transpose01 ?emb)"
    by (simp only: size3_def prod.inject)
  moreover from norm have "dim1 (layer_norm D out) = dim1 out"
    unfolding size_preserving_def by (simp only: size3_def prod.inject)
  ultimately have len: "length outputs = t"
    unfolding outputs using d0 by (simp add: length_transpose01)
  from upd have "\<exists>new. h' ! state' = TransformerDecoderState_obj new
               \<and> previous_input new = Some ?full"
    by (auto simp: update_state_def TransformerDecoderState_init_def nth_append)
  with full len show ?thesis by blast
qed

theorem forward_output_length_witness:
  "TransformerDecoder_forward example_decoder example_heap_step [[[6]]] example_memory_bank 1
     = Inr (([[[24, 5]]], 2, [(''std'', [[[1 / 2, 1 / 2]]]), (''copy'', [[[1 / 2, 1 / 2]]])]),
            example_heap_step @ [TransformerDecoderState_obj
              \<lparr>src = [[[3]], [[4]]], previous_input = Some [[[5]], [[6]]],
                 previous_layer_inputs = Some [[[[5, 1], [6, 1]]]]\<rparr>])
   \<and> has_shape [[[6::int]]] (1, 1, 1) \<and> has_shape [[[5::int]]] (1, 1, 1)
   \<and> shaped_embeddings (embeddings example_decoder) 1 1 2
   \<and> list_all layer_sizes (layer_stack example_decoder)
   \<and> size_preserving (layer_norm example_decoder)
   \<and> length [[[24, 5::real]]] = 1"
proof -
  let ?s = "\<lparr>src = [[[3]], [[4]]], previous_input = Some [[[5]]],
        previous_layer_inputs = Some [[[[5, 1]]]]\<rparr>"
  let ?h' = "example_heap_step @ [TransformerDecoderState_obj
              \<lparr>src = [[[3]], [[4]]], previous_input = Some [[[5]], [[6]]],
                 previous_layer_inputs = Some [[[[5, 1], [6, 1]]]]\<rparr>]"
  have run: "TransformerDecoder_forward example_decoder example_heap_step [[[6]]]
       example_memory_bank 1
     = Inr (([[[24, 5]]], 2, [(''std'', [[[1 / 2, 1 / 2]]]), (''copy'', [[[1 / 2, 1 / 2]]])]), ?h')"
    by code_simp
  have state: "example_heap_step ! 1 = TransformerDecoderState_obj ?s"
    by (simp add: example_heap_step_def example_heap_def)
  have tgt: "has_shape [[[6::int]]] (1, 1, 1)" "(0::nat) < 1"
    by (simp_all add: has_shape_def)
  have prev: "case previous_input ?s of None \<Rightarrow> (1::nat) = 0
              | Some prev \<Rightarrow> has_shape prev (1, 1, 1)"
    by (simp add: has_shape_def)
  have emb: "shaped_embeddings (embeddings example_decoder) 1 1 2"
    using example_embeddings_shaped by (simp add: example_decoder_def)
  have layers: "list_all layer_sizes (layer_stack example_decoder)"
    using example_layer_sizes by (simp add: example_decoder_def)
  have norm: "size_preserving (layer_norm example_decoder)"
    by (simp add: example_decoder_def size_preserving_def)
  from forward_output_length[OF run state tgt(1) tgt(2) tgt(2) prev emb layers norm]
  have "length [[[24, 5::real]]] = 1" by blast
  with run tgt prev emb layers norm show ?thesis by (simp add: has_shape_def)
qed

section \<open>Properties of the constructors\<close>

lemma onmt_not_global: "''onmt'' \<notin> set module_globals"
  by (simp add: module_globals_def module_statements_def)

lemma load_global:
  "n \<in> set module_globals \<Longrightarrow> load_name builtins locals n = Inr ()"
  by (simp add: load_name_def)

lemma load_builtin:
  "n \<in> set builtins \<Longrightarrow> load_name builtins locals n = Inr ()"
  by (simp add: load_name_def)

lemma load_onmt:
  assumes "''onmt'' \<notin> set builtins" and "''onmt'' \<notin> set locals"
  shows "load_name builtins locals ''onmt'' = Inl (NameError ''onmt'')"
  using assms onmt_not_global by (simp add: load_name_def)

lemma globals_bound:
  "''nn'' \<in> set module_globals" "''layers'' \<in> set module_globals"
  "''attention'' \<in> set module_globals" "''DecoderLayer'' \<in> set module_globals"
  "''TransformerDecoder'' \<in> set module_globals"
  "''PositionwiseFeedForward'' \<in> set module_globals"
  by (simp_all add: module_globals_def module_statements_def)

lemma not_isl_InrD: "\<not> isl r \<Longrightarrow> \<exists>x. r = Inr x"
  by (cases r) simp_all

lemma DecoderLayer_init_ok:
  assumes "''super'' \<in> set builtins"
    and "\<not> isl (attention_MultiheadAttention fw hidden_size hidden_size hidden_size dropout)"
    and "\<not> isl (layers_ffn_layer fw hidden_size filter_size hidden_size dropout)"
    and "\<not> isl (layers_LayerNorm fw hidden_size)"
    and "\<not> isl (nn_Dropout fw dropout)"
  shows "\<exists>l. DecoderLayer_init builtins fw hidden_size dropout heads filter_size = Inr l"
proof -
  from assms(2-5)[THEN not_isl_InrD] obtain a f n d where
    "attention_MultiheadAttention fw hidden_size hidden_size hidden_size dropout = Inr a"
    "layers_ffn_layer fw hidden_size filter_size hidden_size dropout = Inr f"
    "layers_LayerNorm fw hidden_size = Inr n" "nn_Dropout fw dropout = Inr d"
    by blast
  with assms(1) show ?thesis
    by (simp add: DecoderLayer_init_def Let_def bind_error_def load_global load_builtin
        globals_bound)
qed

lemma make_layers_ok:
  assumes "''super'' \<in> set builtins"
    and "n = 0 \<or> (\<not> isl (attention_MultiheadAttention fw hidden_size hidden_size hidden_size dropout)
           \<and> \<not> isl (layers_ffn_layer fw hidden_size 2048 hidden_size dropout)
           \<and> \<not> isl (layers_LayerNorm fw hidden_size)
           \<and> \<not> isl (nn_Dropout fw dropout))"
  shows "\<exists>ls. make_layers builtins locals fw hidden_size dropout n = Inr ls \<and> length ls = n"
  using assms(2)
proof (induction n)
  case 0
  show ?case by simp
next
  case (Suc n)
  then have ok: "\<not> isl (attention_MultiheadAttention fw hidden_size hidden_size hidden_size dropout)"
    "\<not> isl (layers_ffn_layer fw hidden_size 2048 hidden_size dropout)"
    "\<not> isl (layers_LayerNorm fw hidden_size)" "\<not> isl (nn_Dropout fw dropout)"
    by simp_all
  with Suc.IH obtain ls where "make_layers builtins locals fw hidden_size dropout n = Inr ls"
    "length ls = n" by blast
  moreover obtain l where "DecoderLayer_init builtins fw hidden_size dropout 8 2048 = Inr l"
    using DecoderLayer_init_ok[OF assms(1) ok] by blast
  ultimately show ?case
    by (simp add: bind_error_def load_global globals_bound)
qed

text \<open>
  C10, as the code has it. No statement of the module binds the name \<open>onmt\<close>, and the
  builtins have no such name. So constructing \<open>PositionwiseFeedForward\<close> never succeeds:
  it raises what the first \<open>nn.Linear\<close> raises when that refuses the sizes, else what the
  second raises, and else \<open>NameError\<close> at the reference \<open>onmt.modules.LayerNorm\<close>.
  Constructing \<open>TransformerDecoder\<close> with \<open>copy_attn\<close> true never succeeds either: it
  raises what building the layer stack raises, and else \<open>NameError\<close> at the reference
  \<open>onmt.modules.GlobalAttention\<close>; the layer stack is built when there is no layer to
  build or when the framework accepts the arguments of a layer's components. No other
  class of the module refers to \<open>PositionwiseFeedForward\<close>.
\<close>

theorem constructors_raise_NameError:
  assumes "''onmt'' \<notin> set builtins" and "''super'' \<in> set builtins"
    and "''range'' \<in> set builtins"
  shows "''onmt'' \<notin> set module_globals
       \<and> PositionwiseFeedForward_init builtins fw size_arg hidden_size dropout
           = (case nn_Linear fw size_arg hidden_size of
                Inl e \<Rightarrow> Inl e
              | Inr w1 \<Rightarrow> (case nn_Linear fw hidden_size size_arg of
                            Inl e \<Rightarrow> Inl e
                          | Inr w2 \<Rightarrow> Inl (NameError ''onmt'')))
       \<and> TransformerDecoder_init builtins fw n hidden_size attn_type True dropout emb
           = (case make_layers builtins
                     [''self'', ''num_layers'', ''hidden_size'', ''attn_type'', ''copy_attn'',
                      ''dropout'', ''embeddings''] fw hidden_size dropout (nat n) of
                Inl e \<Rightarrow> Inl e
              | Inr ls \<Rightarrow> (case nn_ModuleList fw ls of
                            Inl e \<Rightarrow> Inl e
                          | Inr stack \<Rightarrow> Inl (NameError ''onmt'')))
       \<and> (n \<le> 0
            \<or> (\<not> isl (attention_MultiheadAttention fw hidden_size hidden_size hidden_size dropout)
               \<and> \<not> isl (layers_ffn_layer fw hidden_size 2048 hidden_size dropout)
               \<and> \<not> isl (layers_LayerNorm fw hidden_size)
               \<and> \<not> isl (nn_Dropout fw dropout))
          \<longrightarrow> \<not> isl (make_layers builtins
                     [''self'', ''num_layers'', ''hidden_size'', ''attn_type'', ''copy_attn'',
                      ''dropout'', ''embeddings''] fw hidden_size dropout (nat n)))
       \<and> (\<forall>(c, names) \<in> set class_references.
             ''PositionwiseFeedForward'' \<in> set names \<longrightarrow> c = ''PositionwiseFeedForward'')"
proof (intro conjI)
  show "''onmt'' \<notin> set module_globals" by (rule onmt_not_global)
next
  have "load_name builtins [''self'', ''size'', ''hidden_size'', ''dropout''] ''onmt''
          = Inl (NameError ''onmt'')"
    using assms(1) by (intro load_onmt) simp_all
  then show "PositionwiseFeedForward_init builtins fw size_arg hidden_size dropout
           = (case nn_Linear fw size_arg hidden_size of
                Inl e \<Rightarrow> Inl e
              | Inr w1 \<Rightarrow> (case nn_Linear fw hidden_size size_arg of
                            Inl e \<Rightarrow> Inl e
                          | Inr w2 \<Rightarrow> Inl (NameError ''onmt'')))"
    using assms(2)
    by (simp add: PositionwiseFeedForward_init_def Let_def bind_error_def load_global
        load_builtin globals_bound split: sum.splits)
next
  let ?locals = "[''self'', ''num_layers'', ''hidden_size'', ''attn_type'', ''copy_attn'',
                  ''dropout'', ''embeddings'']"
  have "load_name builtins ?locals ''onmt'' = Inl (NameError ''onmt'')"
    using assms(1) by (intro load_onmt) simp_all
  then show "TransformerDecoder_init builtins fw n hidden_size attn_type True dropout emb
           = (case make_layers builtins ?locals fw hidden_size dropout (nat n) of
                Inl e \<Rightarrow> Inl e
              | Inr ls \<Rightarrow> (case nn_ModuleList fw ls of
                            Inl e \<Rightarrow> Inl e
                          | Inr stack \<Rightarrow> Inl (NameError ''onmt'')))"
    using assms(2,3)
    by (simp add: TransformerDecoder_init_def Let_def bind_error_def load_global load_builtin
        globals_bound split: sum.splits)
next
  let ?locals = "[''self'', ''num_layers'', ''hidden_size'', ''attn_type'', ''copy_attn'',
                  ''dropout'', ''embeddings'']"
  show "n \<le> 0
            \<or> (\<not> isl (attention_MultiheadAttention fw hidden_size hidden_size hidden_size dropout)
               \<and> \<not> isl (layers_ffn_layer fw hidden_size 2048 hidden_size dropout)
               \<and> \<not> isl (layers_LayerNorm fw hidden_size)
               \<and> \<not> isl (nn_Dropout fw dropout))
          \<longrightarrow> \<not> isl (make_layers builtins ?locals fw hidden_size dropout (nat n))"
  proof
    assume "n \<le> 0
            \<or> (\<not> isl (attention_MultiheadAttention fw hidden_size hidden_size hidden_size dropout)
               \<and> \<not> isl (layers_ffn_layer fw hidden_size 2048 hidden_size dropout)
               \<and> \<not> isl (layers_LayerNorm fw hidden_size)
               \<and> \<not> isl (nn_Dropout fw dropout))"
    then have "nat n = 0
            \<or> (\<not> isl (attention_MultiheadAttention fw hidden_size hidden_size hidden_size dropout)
               \<and> \<not> isl (layers_ffn_layer fw hidden_size 2048 hidden_size dropout)
               \<and> \<not> isl (layers_LayerNorm fw hidden_size)
               \<and> \<not> isl (nn_Dropout fw dropout))"
      by auto
    from make_layers_ok[OF assms(2) this, of ?locals]
    show "\<not> isl (make_layers builtins ?locals fw hidden_size dropout (nat n))"
      by auto
  qed
next
  show "\<forall>(c, names) \<in> set class_references.
          ''PositionwiseFeedForward'' \<in> set names \<longrightarrow> c = ''PositionwiseFeedForward''"
    by (simp add: class_references_def)
qed

theorem constructors_raise_NameError_witness:
  "''onmt'' \<notin> set [''super'', ''range'', ''isinstance'']
   \<and> ''super'' \<in> set [''super'', ''range'', ''isinstance'']
   \<and> ''range'' \<in> set [''super'', ''range'', ''isinstance'']
   \<and> PositionwiseFeedForward_init [''super'', ''range'', ''isinstance''] example_framework
         512 2048 (1 / 10) = Inl (NameError ''onmt'')
   \<and> \<not> isl (attention_MultiheadAttention example_framework 2048 2048 2048 (1 / 10))
   \<and> \<not> isl (layers_ffn_layer example_framework 2048 2048 2048 (1 / 10))
   \<and> \<not> isl (layers_LayerNorm example_framework 2048)
   \<and> \<not> isl (nn_Dropout example_framework (1 / 10))
   \<and> TransformerDecoder_init [''super'', ''range'', ''isinstance''] example_framework
         6 2048 ''general'' True (1 / 10) example_embeddings = Inl (NameError ''onmt'')"
proof -
  let ?b = "[''super'', ''range'', ''isinstance'']"
  let ?locals = "[''self'', ''num_layers'', ''hidden_size'', ''attn_type'', ''copy_attn'',
                  ''dropout'', ''embeddings'']"
  have a: "''onmt'' \<notin> set ?b" by simp
  have b: "''super'' \<in> set ?b" by simp
  have c: "''range'' \<in> set ?b" by simp
  have ok: "\<not> isl (attention_MultiheadAttention example_framework 2048 2048 2048 (1 / 10))
      \<and> \<not> isl (layers_ffn_layer example_framework 2048 2048 2048 (1 / 10))
      \<and> \<not> isl (layers_LayerNorm example_framework 2048)
      \<and> \<not> isl (nn_Dropout example_framework (1 / 10))"
    by (simp add: example_framework_def)
  have lin: "nn_Linear example_framework 512 2048 = Inr (\<lambda>x. x)"
    "nn_Linear example_framework 2048 512 = Inr (\<lambda>x. x)"
    by (simp_all add: example_framework_def)
  have ml: "\<And>ls. nn_ModuleList example_framework ls = Inr ls"
    by (simp add: example_framework_def)
  note inst = constructors_raise_NameError[OF a b c, where fw = example_framework
      and size_arg = 512 and hidden_size = 2048 and dropout = "1 / 10" and n = 6
      and attn_type = "''general''" and emb = example_embeddings]
  from inst lin have p: "PositionwiseFeedForward_init ?b example_framework 512 2048 (1 / 10)
      = Inl (NameError ''onmt'')"
    by simp
  from inst ok have "\<not> isl (make_layers ?b ?locals example_framework 2048 (1 / 10) (nat 6))"
    by blast
  then obtain ls where "make_layers ?b ?locals example_framework 2048 (1 / 10) (nat 6) = Inr ls"
    by (auto dest: not_isl_InrD)
  with inst ml have d: "TransformerDecoder_init ?b example_framework 6 2048 ''general'' True
      (1 / 10) example_embeddings = Inl (NameError ''onmt'')"
    by simp
  show ?thesis using a b c p ok d by blast
qed

text \<open>
  C10, as stated, fails: the constructors do not raise \<open>NameError\<close> for every argument.
  The framework's constructors are called before the name \<open>onmt\<close> is loaded, and when
  they refuse an argument their error is the one raised: \<open>nn.Linear\<close> a negative size in
  \<open>PositionwiseFeedForward\<close>, \<open>nn.Dropout\<close> a probability above 1 in the first decoder
  layer of \<open>TransformerDecoder\<close>.
\<close>

theorem constructors_raise_other_counterexample:
  "PositionwiseFeedForward_init [''super'', ''range'', ''isinstance''] example_framework
         (- 1) 8 (1 / 10) = Inl RuntimeError
   \<and> TransformerDecoder_init [''super'', ''range'', ''isinstance''] example_framework
         6 512 ''general'' True (3 / 2) example_embeddings = Inl ValueError"
proof -
  let ?b = "[''super'', ''range'', ''isinstance'']"
  have g: "\<And>n locals. n \<in> set module_globals \<Longrightarrow> load_name ?b locals n = Inr ()"
    by (simp add: load_name_def)
  have sup: "\<And>n locals. n \<in> set ?b \<Longrightarrow> load_name ?b locals n = Inr ()"
    by (simp add: load_name_def)
  have p: "PositionwiseFeedForward_init ?b example_framework (- 1) 8 (1 / 10) = Inl RuntimeError"
    by (simp add: PositionwiseFeedForward_init_def Let_def bind_error_def g sup globals_bound
        example_framework_def)
  have l: "DecoderLayer_init ?b example_framework 512 (3 / 2) 8 2048 = Inl ValueError"
    by (simp add: DecoderLayer_init_def Let_def bind_error_def g sup globals_bound
        example_framework_def)
  have m: "\<And>locals. make_layers ?b locals example_framework 512 (3 / 2) (Suc 5)
             = Inl ValueError"
    by (subst make_layers.simps(2)) (simp add: bind_error_def g globals_bound l)
  have six: "nat 6 = Suc 5" by simp
  have "TransformerDecoder_init ?b example_framework 6 512 ''general'' True (3 / 2)
          example_embeddings = Inl ValueError"
    unfolding TransformerDecoder_init_def six
    by (simp only: m Let_def bind_error_def g sup globals_bound sum.case list.set_intros)
  with p show ?thesis by simp
qed

section \<open>Rows of a decoder run\<close>

lemma has_lengthsD:
  "has_lengths X B T \<Longrightarrow> length X = B"
  "has_lengths X B T \<Longrightarrow> b < B \<Longrightarrow> length (X ! b) = T"
  by (auto simp: has_lengths_def list_all_length)

lemma has_lengthsI:
  "length X = B \<Longrightarrow> (\<And>b. b < B \<Longrightarrow> length (X ! b) = T) \<Longrightarrow> has_lengths X B T"
  by (auto simp: has_lengths_def list_all_length)

lemma has_lengths_map_map: "has_lengths X B T \<Longrightarrow> has_lengths (map (map g) X) B T"
  by (auto simp: has_lengths_def list_all_length)

lemma transpose01_rows:
  assumes "has_shape E (T, B, C)" and "0 < T"
  shows "has_lengths (transpose01 E) B T"
    and "\<And>b k. b < B \<Longrightarrow> k < T \<Longrightarrow> transpose01 E ! b ! k = E ! k ! b"
proof -
  have len: "length E = T" and rows: "\<forall>k < T. length (E ! k) = B"
    using assms(1) by (auto simp: has_shape_def list_all_length)
  have d1: "dim1 E = B" using assms by (rule has_shape_dim1)
  show "has_lengths (transpose01 E) B T"
    by (rule has_lengthsI) (simp_all add: transpose01_def d1 len)
  show "\<And>b k. b < B \<Longrightarrow> k < T \<Longrightarrow> transpose01 E ! b ! k = E ! k ! b"
    by (simp add: transpose01_def d1 len)
qed

lemma transpose01_back:
  assumes "has_lengths X B T" and "0 < B" and "b < B" and "k < T"
  shows "transpose01 X ! k ! b = X ! b ! k" and "length (transpose01 X) = T"
proof -
  obtain x X' where X: "X = x # X'" using assms(1,2) by (cases X) (auto simp: has_lengths_def)
  have "length (X ! 0) = T" using assms(1,2) by (simp add: has_lengthsD)
  then have d1: "dim1 X = T" by (simp add: dim1_def X)
  show "length (transpose01 X) = T" by (simp add: transpose01_def d1)
  show "transpose01 X ! k ! b = X ! b ! k"
    using assms by (simp add: transpose01_def d1 has_lengthsD)
qed

lemma tensor_add_InrD:
  assumes "tensor_add A X = Inr Y"
  shows "Y = broadcast2 (broadcast2 (broadcast2 (+))) A X"
proof (cases "broadcastable (length A) (length X) \<and> broadcastable (dim1 A) (dim1 X)
              \<and> broadcastable (dim2 A) (dim2 X)")
  case True
  with assms have "Inr (broadcast2 (broadcast2 (broadcast2 (+))) A X) = (Inr Y :: error + tensor)"
    by (simp only: tensor_add_def simp_thms if_True)
  then show ?thesis by (simp only: sum.inject)
next
  case False
  with assms show ?thesis by (simp only: tensor_add_def simp_thms if_False sum.distinct)
qed

lemma tensor_add_rows:
  assumes "tensor_add A X = Inr Y" and "has_lengths A B T" and "has_lengths X B T"
  shows "has_lengths Y B T"
    and "\<And>b k. b < B \<Longrightarrow> k < T \<Longrightarrow> Y ! b ! k = broadcast2 (+) (A ! b ! k) (X ! b ! k)"
proof -
  note Y = tensor_add_InrD[OF assms(1)]
  have len: "length A = length X" using assms(2,3) by (simp add: has_lengthsD)
  have row: "Y ! b = broadcast2 (broadcast2 (+)) (A ! b) (X ! b)" if "b < B" for b
    unfolding Y using len that assms(3) by (simp add: nth_broadcast2 has_lengthsD)
  have rlen: "length (A ! b) = length (X ! b)" if "b < B" for b
    using that assms(2,3) by (simp add: has_lengthsD)
  show "has_lengths Y B T"
  proof (rule has_lengthsI)
    show "length Y = B" unfolding Y using len assms(3) by (simp add: length_broadcast2 has_lengthsD)
    show "length (Y ! b) = T" if "b < B" for b
      using row[OF that] rlen[OF that] that assms(3) by (simp add: length_broadcast2 has_lengthsD)
  qed
  show "\<And>b k. b < B \<Longrightarrow> k < T \<Longrightarrow> Y ! b ! k = broadcast2 (+) (A ! b ! k) (X ! b ! k)"
    using row rlen assms(3) by (simp add: nth_broadcast2 has_lengthsD)
qed

lemma allowed_keys_cong:
  assumes "length r = length ks" and "length ks = length ks'"
    and "\<forall>j < length r. r ! j = 0 \<longrightarrow> ks ! j = ks' ! j"
  shows "allowed_keys (Some r) ks = allowed_keys (Some r) ks'"
  using assms
proof (induction r ks ks' rule: list_induct3)
  case Nil
  show ?case by simp
next
  case (Cons m r k ks k' ks')
  from Cons.prems have "\<forall>j < length r. r ! j = 0 \<longrightarrow> ks ! j = ks' ! j" by auto
  with Cons.IH have "allowed_keys (Some r) ks = allowed_keys (Some r) ks'" by simp
  moreover from Cons.prems have "m = 0 \<longrightarrow> k = k'" by auto
  ultimately show ?case by (auto simp: allowed_keys_def)
qed

lemma allowed_keys_nonempty:
  assumes "length r = length ks" and "j < length r" and "r ! j = 0"
  shows "allowed_keys (Some r) ks \<noteq> []"
proof -
  have "(r ! j, ks ! j) \<in> set (zip r ks)"
    using assms(1,2) by (metis in_set_zip fst_conv snd_conv)
  then have "(r ! j, ks ! j) \<in> set (filter (\<lambda>(m, v). m = 0) (zip r ks))"
    using assms(3) by simp
  then have "filter (\<lambda>(m, v). m = 0) (zip r ks) \<noteq> []"
    by (metis empty_iff list.set(1))
  then show ?thesis by (simp add: allowed_keys_def)
qed

lemma effective_keys_cong:
  assumes "length r = length ks" and "length ks = length ks'"
    and "\<forall>j < length r. r ! j = 0 \<longrightarrow> ks ! j = ks' ! j"
    and "j < length r" and "r ! j = 0"
  shows "effective_keys (Some r) ks = effective_keys (Some r) ks'"
  using allowed_keys_cong[OF assms(1,2,3)] allowed_keys_nonempty[OF assms(1,4,5)]
  by (simp add: effective_keys_def)

lemma rowwise_rows:
  assumes "\<forall>X. f X = map (map g) X" and "has_lengths X B T"
  shows "has_lengths (f X) B T" and "\<And>b k. b < B \<Longrightarrow> k < T \<Longrightarrow> f X ! b ! k = g (X ! b ! k)"
  using assms by (simp_all add: has_lengths_map_map has_lengthsD)

lemma attention_rows:
  assumes "\<forall>Q M h bias.
     length (fst (ma Q (Some M) h bias)) = length Q
     \<and> (\<forall>b < length Q. length (fst (ma Q (Some M) h bias) ! b) = length (Q ! b)
          \<and> (\<forall>k < length (Q ! b). binary_row (bias_row bias b k)
                 \<longrightarrow> fst (ma Q (Some M) h bias) ! b ! k
                       = g h (Q ! b ! k) (effective_keys (bias_row bias b k) (M ! b))))"
    and "has_lengths Q B T"
  shows "has_lengths (fst (ma Q (Some M) h bias)) B T"
    and "\<And>b k. b < B \<Longrightarrow> k < T \<Longrightarrow> binary_row (bias_row bias b k)
           \<Longrightarrow> fst (ma Q (Some M) h bias) ! b ! k
           = g h (Q ! b ! k) (effective_keys (bias_row bias b k) (M ! b))"
proof -
  show "has_lengths (fst (ma Q (Some M) h bias)) B T"
    using assms by (intro has_lengthsI) (simp_all add: has_lengthsD)
  show "\<And>b k. b < B \<Longrightarrow> k < T \<Longrightarrow> binary_row (bias_row bias b k)
           \<Longrightarrow> fst (ma Q (Some M) h bias) ! b ! k
           = g h (Q ! b ! k) (effective_keys (bias_row bias b k) (M ! b))"
    using assms by (simp add: has_lengthsD)
qed

lemma layer_rows:
  assumes "layer_contract L"
  shows "\<exists>G gN. \<forall>X enc sb eb prev ans attn all_inputs B T.
           DecoderLayer_forward L X enc sb eb prev = Inr (ans, attn, all_inputs)
           \<and> has_lengths X B T
           \<longrightarrow> has_lengths ans B T
             \<and> (case prev of None \<Rightarrow> all_inputs = map (map gN) X
                 | Some p \<Rightarrow> torch_cat1 p (map (map gN) X) = Inr all_inputs)
             \<and> (\<forall>b < B. \<forall>k < T.
                   binary_row (bias_row (case prev of None \<Rightarrow> sb | Some p \<Rightarrow> None) b k)
                   \<and> binary_row (bias_row eb b k)
                   \<longrightarrow> ans ! b ! k
                   = G (X ! b ! k)
                       (effective_keys (bias_row (case prev of None \<Rightarrow> sb | Some p \<Rightarrow> None) b k)
                          (all_inputs ! b))
                       (effective_keys (bias_row eb b k) (enc ! b)))"
proof -
  from assms have c: "saturating_attention (ma_l1 L)" "saturating_attention (ma_l2 L)"
    "rowwise (ffn L)" "rowwise (ma_l1_prenorm L)" "rowwise (ma_l2_prenorm L)"
    "rowwise (ffn_prenorm L)" "rowwise (ma_l1_postdropout L)"
    "rowwise (ma_l2_postdropout L)" "rowwise (ffn_postdropout L)"
    by (simp_all add: layer_contract_def)
  from c(1) obtain gA1 where A1: "\<forall>Q M h bias.
     length (fst (ma_l1 L Q (Some M) h bias)) = length Q
     \<and> (\<forall>b < length Q. length (fst (ma_l1 L Q (Some M) h bias) ! b) = length (Q ! b)
          \<and> (\<forall>k < length (Q ! b). binary_row (bias_row bias b k)
                 \<longrightarrow> fst (ma_l1 L Q (Some M) h bias) ! b ! k
                 = gA1 h (Q ! b ! k) (effective_keys (bias_row bias b k) (M ! b))))"
    unfolding saturating_attention_def ..
  from c(2) obtain gA2 where A2: "\<forall>Q M h bias.
     length (fst (ma_l2 L Q (Some M) h bias)) = length Q
     \<and> (\<forall>b < length Q. length (fst (ma_l2 L Q (Some M) h bias) ! b) = length (Q ! b)
          \<and> (\<forall>k < length (Q ! b). binary_row (bias_row bias b k)
                 \<longrightarrow> fst (ma_l2 L Q (Some M) h bias) ! b ! k
                 = gA2 h (Q ! b ! k) (effective_keys (bias_row bias b k) (M ! b))))"
    unfolding saturating_attention_def ..
  from c(3) obtain gf where f: "\<forall>X. ffn L X = map (map gf) X"
    unfolding rowwise_def ..
  from c(4) obtain gn1 where n1: "\<forall>X. ma_l1_prenorm L X = map (map gn1) X"
    unfolding rowwise_def ..
  from c(5) obtain gn2 where n2: "\<forall>X. ma_l2_prenorm L X = map (map gn2) X"
    unfolding rowwise_def ..
  from c(6) obtain gn3 where n3: "\<forall>X. ffn_prenorm L X = map (map gn3) X"
    unfolding rowwise_def ..
  from c(7) obtain gd1 where d1: "\<forall>X. ma_l1_postdropout L X = map (map gd1) X"
    unfolding rowwise_def ..
  from c(8) obtain gd2 where d2: "\<forall>X. ma_l2_postdropout L X = map (map gd2) X"
    unfolding rowwise_def ..
  from c(9) obtain gd3 where d3: "\<forall>X. ffn_postdropout L X = map (map gd3) X"
    unfolding rowwise_def ..
  define G where "G x keys1 keys2 =
    (let x1 = broadcast2 (+) (gd1 (gA1 (num_heads L) (gn1 x) keys1)) x;
         x2 = broadcast2 (+) (gd2 (gA2 (num_heads L) (gn2 x1) keys2)) x1
     in broadcast2 (+) (gd3 (gf (gn3 x2))) x2)" for x keys1 keys2
  have "DecoderLayer_forward L X enc sb eb prev = Inr (ans, attn, all_inputs)
           \<and> has_lengths X B T
           \<longrightarrow> has_lengths ans B T
             \<and> (case prev of None \<Rightarrow> all_inputs = map (map gn1) X
                 | Some p \<Rightarrow> torch_cat1 p (map (map gn1) X) = Inr all_inputs)
             \<and> (\<forall>b < B. \<forall>k < T.
                   binary_row (bias_row (case prev of None \<Rightarrow> sb | Some p \<Rightarrow> None) b k)
                   \<and> binary_row (bias_row eb b k)
                   \<longrightarrow> ans ! b ! k
                   = G (X ! b ! k)
                       (effective_keys (bias_row (case prev of None \<Rightarrow> sb | Some p \<Rightarrow> None) b k)
                          (all_inputs ! b))
                       (effective_keys (bias_row eb b k) (enc ! b)))"
    for X enc sb eb prev ans attn all_inputs B T
  proof (intro impI, elim conjE)
    assume run: "DecoderLayer_forward L X enc sb eb prev = Inr (ans, attn, all_inputs)"
      and X: "has_lengths X B T"
    let ?sb = "case prev of None \<Rightarrow> sb | Some p \<Rightarrow> None"
    let ?N = "ma_l1_prenorm L X"
    let ?Y1 = "fst (ma_l1 L ?N (Some all_inputs) (num_heads L) ?sb)"
    from DecoderLayer_forward_InrD[OF run] obtain X1 X2 where
      all_inputs: "case prev of None \<Rightarrow> all_inputs = ?N
                   | Some p \<Rightarrow> torch_cat1 p ?N = Inr all_inputs"
      and add1: "tensor_add (ma_l1_postdropout L ?Y1) X = Inr X1"
      and add2: "tensor_add (ma_l2_postdropout L (fst (ma_l2 L (ma_l2_prenorm L X1) (Some enc)
          (num_heads L) eb))) X1 = Inr X2"
      and add3: "tensor_add (ffn_postdropout L (ffn L (ffn_prenorm L X2))) X2 = Inr ans"
      by blast
    let ?Y2 = "fst (ma_l2 L (ma_l2_prenorm L X1) (Some enc) (num_heads L) eb)"
    note N = rowwise_rows[OF n1 X]
    note Y1 = attention_rows[OF A1 N(1), where M = all_inputs and h = "num_heads L" and bias = ?sb]
    note D1 = rowwise_rows[OF d1 Y1(1)]
    note X1 = tensor_add_rows[OF add1 D1(1) X]
    note N2 = rowwise_rows[OF n2 X1(1)]
    note Y2 = attention_rows[OF A2 N2(1), where M = enc and h = "num_heads L" and bias = eb]
    note D2 = rowwise_rows[OF d2 Y2(1)]
    note X2 = tensor_add_rows[OF add2 D2(1) X1(1)]
    note N3 = rowwise_rows[OF n3 X2(1)]
    note F3 = rowwise_rows[OF f N3(1)]
    note D3 = rowwise_rows[OF d3 F3(1)]
    note ANS = tensor_add_rows[OF add3 D3(1) X2(1)]
    have rows: "ans ! b ! k = G (X ! b ! k) (effective_keys (bias_row ?sb b k) (all_inputs ! b))
                       (effective_keys (bias_row eb b k) (enc ! b))"
      if "b < B" "k < T" "binary_row (bias_row ?sb b k)" "binary_row (bias_row eb b k)" for b k
      using that
      by (simp add: G_def Let_def ANS(2) D3(2) F3(2) N3(2) X2(2) D2(2) Y2(2) N2(2) X1(2) D1(2)
          Y1(2) N(2))
    from all_inputs n1 have "case prev of None \<Rightarrow> all_inputs = map (map gn1) X
                 | Some p \<Rightarrow> torch_cat1 p (map (map gn1) X) = Inr all_inputs"
      by (cases prev) simp_all
    with ANS(1) rows
    show "has_lengths ans B T
             \<and> (case prev of None \<Rightarrow> all_inputs = map (map gn1) X
                 | Some p \<Rightarrow> torch_cat1 p (map (map gn1) X) = Inr all_inputs)
             \<and> (\<forall>b < B. \<forall>k < T.
                   binary_row (bias_row (case prev of None \<Rightarrow> sb | Some p \<Rightarrow> None) b k)
                   \<and> binary_row (bias_row eb b k)
                   \<longrightarrow> ans ! b ! k
                   = G (X ! b ! k)
                       (effective_keys (bias_row ?sb b k) (all_inputs ! b))
                       (effective_keys (bias_row eb b k) (enc ! b)))"
      by blast
  qed
  then show ?thesis by blast
qed

lemma layer_agree:
  assumes L: "layer_contract L"
    and run: "DecoderLayer_forward L X enc (Some db) eb None = Inr (ans, attn, all_inputs)"
    and run': "DecoderLayer_forward L X' enc (Some db') eb None = Inr (ans', attn', all_inputs')"
    and X: "has_lengths X B T" and X': "has_lengths X' B T"
    and P: "\<And>b k. P b k \<Longrightarrow> b < B \<and> k < T
              \<and> bias_row (Some db') b k = bias_row (Some db) b k
              \<and> binary_row (bias_row (Some db) b k) \<and> binary_row (bias_row eb b k)
              \<and> (\<exists>r. bias_row (Some db) b k = Some r \<and> length r = T
                    \<and> (\<exists>j < T. r ! j = 0) \<and> (\<forall>j < T. r ! j = 0 \<longrightarrow> P b j))"
    and agree: "\<And>b k. P b k \<Longrightarrow> X ! b ! k = X' ! b ! k"
  shows "has_lengths ans B T" and "has_lengths ans' B T"
    and "\<And>b k. P b k \<Longrightarrow> ans ! b ! k = ans' ! b ! k"
proof -
  from layer_rows[OF L] obtain G gN where G0:
    "\<forall>X enc sb eb prev ans attn all_inputs B T.
       DecoderLayer_forward L X enc sb eb prev = Inr (ans, attn, all_inputs)
       \<and> has_lengths X B T
       \<longrightarrow> has_lengths ans B T
             \<and> (case prev of None \<Rightarrow> all_inputs = map (map gN) X
                 | Some p \<Rightarrow> torch_cat1 p (map (map gN) X) = Inr all_inputs)
             \<and> (\<forall>b < B. \<forall>k < T.
                   binary_row (bias_row (case prev of None \<Rightarrow> sb | Some p \<Rightarrow> None) b k)
                   \<and> binary_row (bias_row eb b k)
                   \<longrightarrow> ans ! b ! k
                   = G (X ! b ! k)
                       (effective_keys (bias_row (case prev of None \<Rightarrow> sb | Some p \<Rightarrow> None) b k)
                          (all_inputs ! b))
                       (effective_keys (bias_row eb b k) (enc ! b)))"
    by blast
  note G = G0[rule_format, OF conjI]
  from G[OF run X] have a: "has_lengths ans B T" and N: "all_inputs = map (map gN) X"
    and rows: "\<And>b k. b < B \<Longrightarrow> k < T \<Longrightarrow> binary_row (bias_row (Some db) b k)
                   \<Longrightarrow> binary_row (bias_row eb b k) \<Longrightarrow> ans ! b ! k
                   = G (X ! b ! k) (effective_keys (bias_row (Some db) b k) (all_inputs ! b))
                       (effective_keys (bias_row eb b k) (enc ! b))"
    by simp_all
  from G[OF run' X'] have a': "has_lengths ans' B T" and N': "all_inputs' = map (map gN) X'"
    and rows': "\<And>b k. b < B \<Longrightarrow> k < T \<Longrightarrow> binary_row (bias_row (Some db') b k)
                   \<Longrightarrow> binary_row (bias_row eb b k) \<Longrightarrow> ans' ! b ! k
                   = G (X' ! b ! k) (effective_keys (bias_row (Some db') b k) (all_inputs' ! b))
                       (effective_keys (bias_row eb b k) (enc ! b))"
    by simp_all
  show "has_lengths ans B T" by (rule a)
  show "has_lengths ans' B T" by (rule a')
  show "ans ! b ! k = ans' ! b ! k" if "P b k" for b k
  proof -
    from P[OF that] obtain r j where b: "b < B" and k: "k < T"
      and same: "bias_row (Some db') b k = bias_row (Some db) b k"
      and bin: "binary_row (bias_row (Some db) b k)" "binary_row (bias_row eb b k)"
      and r: "bias_row (Some db) b k = Some r" "length r = T"
      and j: "j < T" "r ! j = 0" and closed: "\<forall>j < T. r ! j = 0 \<longrightarrow> P b j"
      by blast
    have lb: "length (X ! b) = T" "length (X' ! b) = T" "length X = B" "length X' = B"
      using X X' b by (simp_all add: has_lengthsD)
    have keys: "effective_keys (Some r) (all_inputs ! b) = effective_keys (Some r) (all_inputs' ! b)"
    proof (rule effective_keys_cong[where j = j])
      show "length r = length (all_inputs ! b)" using r(2) lb b by (simp add: N)
      show "length (all_inputs ! b) = length (all_inputs' ! b)" using lb b by (simp add: N N')
      show "\<forall>j < length r. r ! j = 0 \<longrightarrow> all_inputs ! b ! j = all_inputs' ! b ! j"
        using closed agree lb b r(2) by (simp add: N N')
      show "j < length r" using j r(2) by simp
      show "r ! j = 0" by (rule j(2))
    qed
    from bin(1) same have bin': "binary_row (bias_row (Some db') b k)" by simp
    from rows[OF b k bin] rows'[OF b k bin' bin(2)] same r(1) keys agree[OF that]
    show ?thesis by simp
  qed
qed

lemma layer_loop_agree:
  assumes contract: "list_all layer_contract (layer_stack D)"
    and prev: "previous_input s = None"
    and P: "\<And>b k. P b k \<Longrightarrow> b < B \<and> k < T
              \<and> bias_row (Some db') b k = bias_row (Some db) b k
              \<and> binary_row (bias_row (Some db) b k) \<and> binary_row (bias_row (Some eb) b k)
              \<and> (\<exists>r. bias_row (Some db) b k = Some r \<and> length r = T
                    \<and> (\<exists>j < T. r ! j = 0) \<and> (\<forall>j < T. r ! j = 0 \<longrightarrow> P b j))"
  shows "layer_loop D s mb db eb is (X, a, sv) = Inr (out, a1, sv1)
     \<Longrightarrow> layer_loop D s mb db' eb is (X', a', sv') = Inr (out', a1', sv1')
     \<Longrightarrow> has_lengths X B T \<Longrightarrow> has_lengths X' B T
     \<Longrightarrow> (\<And>b k. P b k \<Longrightarrow> X ! b ! k = X' ! b ! k)
     \<Longrightarrow> has_lengths out B T \<and> has_lengths out' B T
         \<and> (\<forall>b k. P b k \<longrightarrow> out ! b ! k = out' ! b ! k)"
proof (induction "is" arbitrary: X a sv X' a' sv')
  case Nil
  then show ?case by simp
next
  case (Cons i "is")
  from Cons.prems(1) prev obtain ans attn all_inputs where
    i: "i < length (layer_stack D)"
    and step: "DecoderLayer_forward (layer_stack D ! i) X mb (Some db) (Some eb) None
                 = Inr (ans, attn, all_inputs)"
    and rest: "layer_loop D s mb db eb is (ans, Some attn, sv @ [all_inputs]) = Inr (out, a1, sv1)"
    by (auto split: sum.splits prod.splits if_splits)
  from Cons.prems(2) prev obtain ans' attn' all_inputs' where
    step': "DecoderLayer_forward (layer_stack D ! i) X' mb (Some db') (Some eb) None
                 = Inr (ans', attn', all_inputs')"
    and rest': "layer_loop D s mb db' eb is (ans', Some attn', sv' @ [all_inputs'])
                 = Inr (out', a1', sv1')"
    by (auto split: sum.splits prod.splits if_splits)
  from contract i have L: "layer_contract (layer_stack D ! i)"
    by (simp add: list_all_length)
  note la = layer_agree[OF L step step' Cons.prems(3,4) P Cons.prems(5)]
  show ?case
    by (rule Cons.IH[OF rest rest' la(1) la(2) la(3)])
qed

lemma decoder_bias_row:
  assumes "has_shape tgt (T, B, F)" and "0 < B"
    and "make_decoder_bias pad (transpose01 (select0 tgt)) = Inr db"
    and "b < B" and "k < T"
  shows "bias_row (Some db) b k
     = Some (map (\<lambda>j. if tgt ! j ! b ! 0 = pad \<or> k < j then - 1000000000 else 0) [0..<T])"
proof -
  have T: "0 < T" using assms(5) by simp
  let ?W = "map (\<lambda>b. map (\<lambda>j. tgt ! j ! b ! 0) [0..<T]) [0..<B]"
  have W: "transpose01 (select0 tgt) = ?W"
    using assms(1) T by (rule words_of_tokens)
  have "make_decoder_bias pad ?W
     = Inr (map (\<lambda>b. map (\<lambda>i. map (\<lambda>j.
          if ?W ! b ! j = pad \<or> i < j then - 1000000000 else 0) [0..<T]) [0..<T]) [0..<B])"
    using T assms(2) by (intro make_decoder_bias_value) auto
  with assms(3) have db: "db = map (\<lambda>b. map (\<lambda>i. map (\<lambda>j.
          if ?W ! b ! j = pad \<or> i < j then - 1000000000 else 0) [0..<T]) [0..<T]) [0..<B]"
    unfolding W by simp
  have row: "db ! b ! k' = map (\<lambda>j. if tgt ! j ! b ! 0 = pad \<or> k' < j then - 1000000000 else 0)
      [0..<T]" if "k' < T" for k'
    unfolding db using assms(4) that by simp
  have len: "length (db ! b) = T" unfolding db using assms(4) by simp
  show ?thesis
  proof (cases "T = 1")
    case True
    with assms(5) have "k = 0" by simp
    with row[of 0] T show ?thesis by (simp add: bias_row_def)
  next
    case False
    with row[OF assms(5)] len show ?thesis by (simp add: bias_row_def)
  qed
qed

lemma encoder_decoder_bias_row:
  assumes "b < length W"
  shows "binary_row (bias_row (Some (make_encoder_decoder_bias pad W)) b k)"
  using assms
  by (simp add: make_encoder_decoder_bias_def unsqueeze1_def eq_float_def bias_row_def
      binary_row_def Let_def list_all_iff)

lemma forward_checks_batch:
  assumes "forward_checks tgt memory_bank s = Inr ()"
  shows "length (transpose01 (select0 (src s))) = length (transpose01 (select0 tgt))"
  using assms
  by (auto simp: forward_checks_def size3_def aeq_def Let_def split: sum.splits if_splits)

lemma forward_src_batch:
  assumes "TransformerDecoder_forward D h tgt memory_bank state_ref
             = Inr ((outputs, state', attns), h')"
    and "h ! state_ref = TransformerDecoderState_obj s"
  shows "length (transpose01 (select0 (src s))) = dim1 tgt"
proof -
  from forward_InrD[OF assms(1)] assms(2) have "forward_checks tgt memory_bank s = Inr ()"
    by auto
  from forward_checks_batch[OF this] show ?thesis
    by (simp add: length_transpose01 dim1_select0)
qed

text \<open>
  C9, as the code has it. Take a decoder whose collaborators keep the contract
  \<open>decoder_contract\<close>: the embeddings give a three-dimensional tensor and look every
  position up on its own; normalisation, feed-forward and dropout act on every position on
  its own; and the constant \<open>-1e9\<close> saturates the attention modules, so that on a bias
  row of the two values 0 and \<open>-1e9\<close> the context of a query is a function of the query
  row and of the rows of the keys with bias 0 (of all keys when every key is masked).
  Take a state without previous input and two target tensors of one size that agree at
  all positions up to \<open>i\<close>. If, in batch entry \<open>b\<close>, some target word at a position up
  to \<open>i\<close> is not the padding word, then two forward calls that return give the same
  output at position \<open>i\<close> of batch entry \<open>b\<close>.
\<close>

theorem causal_invariance:
  assumes contract: "decoder_contract D B F C"
    and state: "h ! state_ref = TransformerDecoderState_obj s" "previous_input s = None"
    and tgt: "has_shape tgt (T, B, F)" "has_shape tgt' (T, B, F)"
    and agree: "\<forall>k \<le> i. tgt ! k = tgt' ! k" and i: "i < T" and b: "b < B"
    and nonpad: "\<exists>j \<le> i. tgt ! j ! b ! 0 \<noteq> word_padding_idx (embeddings D)"
    and run: "TransformerDecoder_forward D h tgt memory_bank state_ref
                = Inr ((outputs, state1, attns1), h1)"
    and run': "TransformerDecoder_forward D h tgt' memory_bank state_ref
                = Inr ((outputs', state1', attns1'), h1')"
  shows "outputs ! i ! b = outputs' ! i ! b"
proof -
  let ?pad = "word_padding_idx (embeddings D)"
  let ?eb = "make_encoder_decoder_bias ?pad (transpose01 (select0 (src s)))"
  have T: "0 < T" and B: "0 < B" using i b by simp_all
  from contract have emb: "positionwise_embeddings (embeddings D) B F C"
    and norm: "rowwise (layer_norm D)" and layers: "list_all layer_contract (layer_stack D)"
    by (simp_all add: decoder_contract_def)
  from forward_outputs[OF run state(1)] state(2) obtain db out attn saved where
    db: "make_decoder_bias ?pad (transpose01 (select0 tgt)) = Inr db"
    and loop: "layer_loop D s (transpose01 memory_bank) db ?eb [0..<num_layers D]
                 (transpose01 (embed3 (embeddings D) tgt), None, []) = Inr (out, Some attn, saved)"
    and outputs: "outputs = transpose01 (layer_norm D out)"
    by auto
  from forward_outputs[OF run' state(1)] state(2) obtain db' out' attn' saved' where
    db': "make_decoder_bias ?pad (transpose01 (select0 tgt')) = Inr db'"
    and loop': "layer_loop D s (transpose01 memory_bank) db' ?eb [0..<num_layers D]
                 (transpose01 (embed3 (embeddings D) tgt'), None, []) = Inr (out', Some attn', saved')"
    and outputs': "outputs' = transpose01 (layer_norm D out')"
    by auto
  define P where "P b' k \<longleftrightarrow> b' = b \<and> k \<le> i \<and> (\<exists>j \<le> k. tgt ! j ! b ! 0 \<noteq> ?pad)" for b' k
  from emb have shaped: "\<And>T L. has_shape T (L, B, F)
        \<Longrightarrow> has_shape (embed3 (embeddings D) T) (L, B, C)"
    and pos: "\<And>T T' k. k < length T \<Longrightarrow> k < length T' \<Longrightarrow> T ! k = T' ! k
        \<Longrightarrow> embed3 (embeddings D) T ! k = embed3 (embeddings D) T' ! k"
    unfolding positionwise_embeddings_def shaped_embeddings_def by blast+
  have E: "has_shape (embed3 (embeddings D) tgt) (T, B, C)"
    and E': "has_shape (embed3 (embeddings D) tgt') (T, B, C)"
    using tgt(1) apply (rule shaped)
    using tgt(2) apply (rule shaped)
    done
  have lenT: "length tgt = T" "length tgt' = T" using tgt by (simp_all add: has_shape_def)
  have Eeq: "embed3 (embeddings D) tgt ! k = embed3 (embeddings D) tgt' ! k" if "k \<le> i" for k
    using agree that i lenT by (intro pos) simp_all
  have srcB: "length (transpose01 (select0 (src s))) = B"
    using forward_src_batch[OF run state(1)] has_shape_dim1[OF tgt(1) T] by simp
  note X = transpose01_rows[OF E T]
  note X' = transpose01_rows[OF E' T]
  have X0: "transpose01 (embed3 (embeddings D) tgt) ! b' ! k
              = transpose01 (embed3 (embeddings D) tgt') ! b' ! k" if "P b' k" for b' k
    using that b i Eeq by (simp add: P_def X(2) X'(2))
  have Pbias: "b' < B \<and> k < T
              \<and> bias_row (Some db') b' k = bias_row (Some db) b' k
              \<and> binary_row (bias_row (Some db) b' k) \<and> binary_row (bias_row (Some ?eb) b' k)
              \<and> (\<exists>r. bias_row (Some db) b' k = Some r \<and> length r = T
                    \<and> (\<exists>j < T. r ! j = 0) \<and> (\<forall>j < T. r ! j = 0 \<longrightarrow> P b' j))"
    if "P b' k" for b' k
  proof -
    from that obtain j0 where b': "b' = b" and k: "k \<le> i" and j0: "j0 \<le> k"
      "tgt ! j0 ! b ! 0 \<noteq> ?pad" by (auto simp: P_def)
    have kT: "k < T" using k i by simp
    let ?r = "map (\<lambda>j. if tgt ! j ! b ! 0 = ?pad \<or> k < j then - 1000000000 else (0::real)) [0..<T]"
    have r: "bias_row (Some db) b k = Some ?r"
      using tgt(1) B db b kT by (rule decoder_bias_row)
    have "bias_row (Some db') b k
       = Some (map (\<lambda>j. if tgt' ! j ! b ! 0 = ?pad \<or> k < j then - 1000000000 else (0::real))
           [0..<T])"
      using tgt(2) B db' b kT by (rule decoder_bias_row)
    moreover have "(if tgt' ! j ! b ! 0 = ?pad \<or> k < j then - 1000000000 else (0::real))
        = (if tgt ! j ! b ! 0 = ?pad \<or> k < j then - 1000000000 else 0)" for j
      using agree k by (cases "k < j") auto
    ultimately have same: "bias_row (Some db') b k = bias_row (Some db) b k"
      using r by simp
    have zero: "j0 < T \<and> ?r ! j0 = 0" using j0 kT by simp
    have closed: "\<forall>j < T. ?r ! j = 0 \<longrightarrow> P b j"
      using k by (auto simp: P_def split: if_splits)
    have bin: "binary_row (bias_row (Some db) b k)"
      unfolding r by (auto simp: binary_row_def list_all_iff)
    have bin2: "binary_row (bias_row (Some ?eb) b k)"
      using b srcB by (intro encoder_decoder_bias_row) simp
    have len: "length ?r = T" by simp
    from b kT same bin bin2 r len zero closed show ?thesis unfolding b' by blast
  qed
  from layer_loop_agree[OF layers state(2) Pbias loop loop' X(1) X'(1) X0]
  have o: "has_lengths out B T" and o': "has_lengths out' B T"
    and eq: "\<And>b' k. P b' k \<Longrightarrow> out ! b' ! k = out' ! b' ! k"
    by blast+
  from norm obtain g where g: "\<forall>X. layer_norm D X = map (map g) X"
    unfolding rowwise_def ..
  note n = rowwise_rows[OF g o]
  note n' = rowwise_rows[OF g o']
  have "P b i" using nonpad by (simp add: P_def)
  from eq[OF this] have "layer_norm D out ! b ! i = layer_norm D out' ! b ! i"
    using b i by (simp add: n(2) n'(2))
  then show ?thesis
    unfolding outputs outputs'
    using transpose01_back(1)[OF n(1) B b i] transpose01_back(1)[OF n'(1) B b i] by simp
qed

section \<open>The example decoder keeps the contracts\<close>

lemma rowwise_id: "rowwise (\<lambda>x. x)"
  unfolding rowwise_def by (intro exI[of _ "\<lambda>v. v"]) (simp add: map_idI)

lemma example_attention_saturating: "saturating_attention example_attention"
  unfolding saturating_attention_def
  by (intro exI[of _ example_context_row]) (simp add: example_attention_def Let_def)

lemma example_layer_contract: "layer_contract example_layer"
  by (simp add: layer_contract_def example_layer_def rowwise_id example_attention_saturating)

lemma example_embeddings_positionwise:
  "positionwise_embeddings example_embeddings (Suc 0) (Suc 0) 2"
  using example_embeddings_shaped
  by (simp add: positionwise_embeddings_def embed3_def example_embeddings_def)

lemma example_decoder_contract: "decoder_contract example_decoder 1 1 2"
  using example_embeddings_positionwise
  by (simp add: decoder_contract_def example_decoder_def example_layer_contract rowwise_id)

theorem causal_invariance_witness:
  "decoder_contract example_decoder 1 1 2
   \<and> example_heap ! 0 = TransformerDecoderState_obj example_state
   \<and> previous_input example_state = None
   \<and> has_shape [[[5]], [[6::int]]] (2, 1, 1) \<and> has_shape [[[5]], [[7::int]]] (2, 1, 1)
   \<and> TransformerDecoder_forward example_decoder example_heap [[[5]], [[6]]] example_memory_bank 0
       = Inr (([[[21, 5]], [[24, 5]]], 1,
               [(''std'', [[[1 / 2, 1 / 2]], [[1 / 2, 1 / 2]]]),
                (''copy'', [[[1 / 2, 1 / 2]], [[1 / 2, 1 / 2]]])]),
              example_heap @ [TransformerDecoderState_obj
                \<lparr>src = [[[3]], [[4]]], previous_input = Some [[[5]], [[6]]],
                   previous_layer_inputs = Some [[[[5, 1], [6, 1]]]]\<rparr>])
   \<and> TransformerDecoder_forward example_decoder example_heap [[[5]], [[7]]] example_memory_bank 0
       = Inr (([[[21, 5]], [[27, 5]]], 1,
               [(''std'', [[[1 / 2, 1 / 2]], [[1 / 2, 1 / 2]]]),
                (''copy'', [[[1 / 2, 1 / 2]], [[1 / 2, 1 / 2]]])]),
              example_heap @ [TransformerDecoderState_obj
                \<lparr>src = [[[3]], [[4]]], previous_input = Some [[[5]], [[7]]],
                   previous_layer_inputs = Some [[[[5, 1], [7, 1]]]]\<rparr>])
   \<and> [[[21, 5]], [[24, 5::real]]] ! 0 ! 0 = [[[21, 5]], [[27, 5::real]]] ! 0 ! 0"
proof -
  have state: "example_heap ! 0 = TransformerDecoderState_obj example_state"
    "previous_input example_state = None"
    by (simp_all add: example_heap_def example_state_def TransformerDecoderState_init_def)
  have tgt: "has_shape [[[5]], [[6::int]]] (2, 1, 1)" "has_shape [[[5]], [[7::int]]] (2, 1, 1)"
    by (simp_all add: has_shape_def)
  have agree: "\<forall>k \<le> 0. [[[5]], [[6::int]]] ! k = [[[5]], [[7::int]]] ! k" by simp
  have nonpad: "\<exists>j \<le> 0. [[[5]], [[6::int]]] ! j ! 0 ! 0 \<noteq> word_padding_idx (embeddings example_decoder)"
    by (simp add: example_decoder_def example_embeddings_def)
  have run: "TransformerDecoder_forward example_decoder example_heap [[[5]], [[6]]]
       example_memory_bank 0
       = Inr (([[[21, 5]], [[24, 5]]], 1,
               [(''std'', [[[1 / 2, 1 / 2]], [[1 / 2, 1 / 2]]]),
                (''copy'', [[[1 / 2, 1 / 2]], [[1 / 2, 1 / 2]]])]),
              example_heap @ [TransformerDecoderState_obj
                \<lparr>src = [[[3]], [[4]]], previous_input = Some [[[5]], [[6]]],
                   previous_layer_inputs = Some [[[[5, 1], [6, 1]]]]\<rparr>])"
    by code_simp
  have run': "TransformerDecoder_forward example_decoder example_heap [[[5]], [[7]]]
       example_memory_bank 0
       = Inr (([[[21, 5]], [[27, 5]]], 1,
               [(''std'', [[[1 / 2, 1 / 2]], [[1 / 2, 1 / 2]]]),
                (''copy'', [[[1 / 2, 1 / 2]], [[1 / 2, 1 / 2]]])]),
              example_heap @ [TransformerDecoderState_obj
                \<lparr>src = [[[3]], [[4]]], previous_input = Some [[[5]], [[7]]],
                   previous_layer_inputs = Some [[[[5, 1], [7, 1]]]]\<rparr>])"
    by code_simp
  have i: "(0::nat) < 2" and b: "(0::nat) < 1" by simp_all
  from causal_invariance[OF example_decoder_contract state tgt agree i b nonpad run run']
  have "[[[21, 5]], [[24, 5::real]]] ! 0 ! 0 = [[[21, 5]], [[27, 5::real]]] ! 0 ! 0" .
  with example_decoder_contract state tgt run run' show ?thesis by blast
qed

text \<open>
  C9, as stated, fails where the target begins with the padding word: the bias row of
  query position 0 then masks every key, the softmax spreads over all keys, and the
  output at position 0 follows the token at position 1.
\<close>

theorem causal_masking_counterexample:
  "previous_input example_state = None
   \<and> word_padding_idx (embeddings example_decoder) = 0
   \<and> map_sum id (\<lambda>r. fst (fst r))
        (TransformerDecoder_forward example_decoder example_heap [[[0]], [[5]]]
           example_memory_bank 0)
       = Inr [[[6, 5]], [[21, 5]]]
   \<and> map_sum id (\<lambda>r. fst (fst r))
        (TransformerDecoder_forward example_decoder example_heap [[[0]], [[6]]]
           example_memory_bank 0)
       = Inr [[[7, 5]], [[25, 5]]]"
  by code_simp

section \<open>Incremental and non-incremental runs\<close>

lemma layer_loop_saved:
  "layer_loop D s mb db eb is (X, a, sv) = Inr (out, a1, sv1)
     \<Longrightarrow> length sv1 = length sv + length is \<and> take (length sv) sv1 = sv"
proof (induction "is" arbitrary: X a sv)
  case Nil
  then show ?case by simp
next
  case (Cons i "is")
  from Cons.prems obtain ans attn all_inputs where
    "layer_loop D s mb db eb is (ans, Some attn, sv @ [all_inputs]) = Inr (out, a1, sv1)"
    by (auto split: sum.splits prod.splits if_splits option.splits)
  from Cons.IH[OF this] have len: "length sv1 = length sv + 1 + length is"
    and pre: "take (length sv + 1) sv1 = sv @ [all_inputs]" by simp_all
  from pre have "take (length sv) (take (length sv + 1) sv1) = take (length sv) (sv @ [all_inputs])"
    by simp
  then have "take (length sv) sv1 = sv" by (simp add: min_def)
  with len show ?case by simp
qed

lemma allowed_keys_causal:
  fixes c :: real
  assumes that: "c \<noteq> 0"
  shows "length ks = T \<Longrightarrow> k < T
    \<Longrightarrow> allowed_keys (Some (map (\<lambda>j. if k < j then c else 0) [0..<T])) ks = take (Suc k) ks"
proof (induction ks arbitrary: T k rule: rev_induct)
  case Nil
  then show ?case by simp
next
  case (snoc x ks)
  then obtain T' where T: "T = Suc T'" "length ks = T'" by (cases T) auto
  show ?case
  proof (cases "k < T'")
    case True
    have "allowed_keys (Some (map (\<lambda>j. if k < j then c else 0) [0..<T])) (ks @ [x])
        = allowed_keys (Some (map (\<lambda>j. if k < j then c else 0) [0..<T'])) ks"
      using T True that by (simp add: allowed_keys_def)
    also have "\<dots> = take (Suc k) ks" using snoc.IH[OF T(2) True] .
    finally show ?thesis using True T by simp
  next
    case False
    with snoc.prems T have k: "k = T'" by simp
    have "\<forall>p \<in> set (zip (map (\<lambda>j. if k < j then c else 0) [0..<T']) ks). fst p = 0"
      using k by (auto simp: set_zip)
    then have "filter (\<lambda>(m, v). m = 0) (zip (map (\<lambda>j. if k < j then c else 0) [0..<T']) ks)
        = zip (map (\<lambda>j. if k < j then c else 0) [0..<T']) ks"
      by (intro filter_True) auto
    then have "allowed_keys (Some (map (\<lambda>j. if k < j then c else 0) [0..<T])) (ks @ [x])
        = ks @ [x]"
      using T k by (simp add: allowed_keys_def)
    then show ?thesis using T k by simp
  qed
qed

lemma torch_cat1_InrD:
  "torch_cat1 A B = Inr C \<Longrightarrow> C = map2 (@) A B \<and> length A = length B"
  by (auto simp: torch_cat1_def split: if_splits)

lemma effective_keys_None: "effective_keys None ks = ks"
  by (simp add: effective_keys_def allowed_keys_def)

lemma effective_keys_causal:
  assumes "length ks = T" and "k < T"
  shows "effective_keys (Some (map (\<lambda>j. if k < j then - 1000000000 else 0) [0..<T])) ks
           = take (Suc k) ks"
proof -
  have "allowed_keys (Some (map (\<lambda>j. if k < j then - 1000000000 else (0::real)) [0..<T])) ks
          = take (Suc k) ks"
    using assms by (intro allowed_keys_causal) simp_all
  moreover have "take (Suc k) ks \<noteq> []" using assms by (cases ks) auto
  ultimately show ?thesis by (simp add: effective_keys_def)
qed

lemma layer_sim:
  assumes L: "layer_contract L"
    and runF: "DecoderLayer_forward L XF enc (Some db) eb None = Inr (ansF, attnF, NF)"
    and runI: "DecoderLayer_forward L XI enc sbI eb prevI = Inr (ansI, attnI, allI)"
    and XF: "has_lengths XF B T" and XI: "has_lengths XI B (Suc 0)"
    and k: "k < T"
    and eb: "\<And>b. b < B \<Longrightarrow> bias_row eb b k = bias_row eb b 0"
    and ebbin: "\<And>b. b < B \<Longrightarrow> binary_row (bias_row eb b 0)"
    and rowF: "\<And>b. b < B \<Longrightarrow> clean b \<Longrightarrow> bias_row (Some db) b k
                 = Some (map (\<lambda>j. if k < j then - 1000000000 else 0) [0..<T])"
    and prevI: "case prevI of
                  None \<Rightarrow> k = 0 \<and> (\<forall>b < B. clean b \<longrightarrow> bias_row sbI b 0 = Some [0])
                | Some cache \<Rightarrow> has_lengths cache B k
                     \<and> (\<forall>b < B. clean b \<longrightarrow> cache ! b = take k (NF ! b))"
    and X: "\<And>b. b < B \<Longrightarrow> clean b \<Longrightarrow> XI ! b ! 0 = XF ! b ! k"
  shows "has_lengths ansF B T" and "has_lengths ansI B (Suc 0)"
    and "has_lengths NF B T" and "has_lengths allI B (Suc k)"
    and "\<And>b. b < B \<Longrightarrow> clean b \<Longrightarrow> ansI ! b ! 0 = ansF ! b ! k"
    and "\<And>b. b < B \<Longrightarrow> clean b \<Longrightarrow> allI ! b = take (Suc k) (NF ! b)"
proof -
  from layer_rows[OF L] obtain G gN where G0:
    "\<forall>X enc sb eb prev ans attn all_inputs B T.
       DecoderLayer_forward L X enc sb eb prev = Inr (ans, attn, all_inputs)
       \<and> has_lengths X B T
       \<longrightarrow> has_lengths ans B T
             \<and> (case prev of None \<Rightarrow> all_inputs = map (map gN) X
                 | Some p \<Rightarrow> torch_cat1 p (map (map gN) X) = Inr all_inputs)
             \<and> (\<forall>b < B. \<forall>k < T.
                   binary_row (bias_row (case prev of None \<Rightarrow> sb | Some p \<Rightarrow> None) b k)
                   \<and> binary_row (bias_row eb b k)
                   \<longrightarrow> ans ! b ! k
                   = G (X ! b ! k)
                       (effective_keys (bias_row (case prev of None \<Rightarrow> sb | Some p \<Rightarrow> None) b k)
                          (all_inputs ! b))
                       (effective_keys (bias_row eb b k) (enc ! b)))"
    by blast
  note G = G0[rule_format, OF conjI]
  from G[OF runF XF] have aF: "has_lengths ansF B T" and NF: "NF = map (map gN) XF"
    and rowsF: "\<And>b k. b < B \<Longrightarrow> k < T \<Longrightarrow> binary_row (bias_row (Some db) b k)
                   \<Longrightarrow> binary_row (bias_row eb b k) \<Longrightarrow> ansF ! b ! k
                   = G (XF ! b ! k) (effective_keys (bias_row (Some db) b k) (NF ! b))
                       (effective_keys (bias_row eb b k) (enc ! b))"
    by simp_all
  from G[OF runI XI] have aI: "has_lengths ansI B (Suc 0)"
    and allI: "case prevI of None \<Rightarrow> allI = map (map gN) XI
                 | Some p \<Rightarrow> torch_cat1 p (map (map gN) XI) = Inr allI"
    and rowsI: "\<And>b. b < B
                   \<Longrightarrow> binary_row (bias_row (case prevI of None \<Rightarrow> sbI | Some p \<Rightarrow> None) b 0)
                   \<Longrightarrow> binary_row (bias_row eb b 0) \<Longrightarrow> ansI ! b ! 0
                   = G (XI ! b ! 0)
                       (effective_keys (bias_row (case prevI of None \<Rightarrow> sbI | Some p \<Rightarrow> None) b 0)
                          (allI ! b))
                       (effective_keys (bias_row eb b 0) (enc ! b))"
    by simp_all
  have lF: "length XF = B" "\<And>b. b < B \<Longrightarrow> length (XF ! b) = T"
    and lI: "length XI = B" "\<And>b. b < B \<Longrightarrow> length (XI ! b) = Suc 0"
    using XF XI by (simp_all add: has_lengthsD)
  have NFl: "has_lengths NF B T" unfolding NF using XF by (rule has_lengths_map_map)
  have NFrow: "NF ! b ! k = gN (XF ! b ! k)" "length (NF ! b) = T" if "b < B" for b
    using that k lF by (simp_all add: NF)
  have NIrow: "map (map gN) XI ! b = [gN (XI ! b ! 0)]" if "b < B" for b
  proof -
    from lI(2)[OF that] obtain x where "XI ! b = [x]"
      by (cases "XI ! b") auto
    with that lI(1) show ?thesis by simp
  qed
  have allIl: "has_lengths allI B (Suc k)"
    and allIrow: "\<And>b. b < B \<Longrightarrow> clean b \<Longrightarrow> allI ! b = take (Suc k) (NF ! b)"
    and keysI: "\<And>b. b < B \<Longrightarrow> clean b \<Longrightarrow>
         effective_keys (bias_row (case prevI of None \<Rightarrow> sbI | Some p \<Rightarrow> None) b 0) (allI ! b)
           = allI ! b"
  proof -
    show "has_lengths allI B (Suc k)"
    proof (cases prevI)
      case None
      with allI prevI have "allI = map (map gN) XI" "k = 0" by simp_all
      with XI show ?thesis by (simp add: has_lengths_map_map)
    next
      case (Some cache)
      with allI prevI have c: "allI = map2 (@) cache (map (map gN) XI)"
        and cl: "has_lengths cache B k"
        by (auto dest: torch_cat1_InrD)
      show ?thesis
        unfolding c using cl lI NIrow
        by (intro has_lengthsI) (simp_all add: has_lengthsD)
    qed
    show "allI ! b = take (Suc k) (NF ! b)" if "b < B" "clean b" for b
    proof (cases prevI)
      case None
      with allI prevI have "allI = map (map gN) XI" "k = 0" by simp_all
      then have "allI ! b = [gN (XF ! b ! 0)]"
        using NIrow[OF that(1)] X[OF that] by simp
      moreover have "take (Suc 0) (NF ! b) = [NF ! b ! 0]"
        using NFrow(2)[OF that(1)] k by (cases "NF ! b") auto
      ultimately show ?thesis using NFrow(1)[OF that(1)] \<open>k = 0\<close> by simp
    next
      case (Some cache)
      with allI prevI have c: "allI = map2 (@) cache (map (map gN) XI)"
        and cl: "has_lengths cache B k" and cv: "cache ! b = take k (NF ! b)"
        using that by (auto dest: torch_cat1_InrD)
      have "allI ! b = cache ! b @ [gN (XI ! b ! 0)]"
        unfolding c using that(1) cl lI(1) NIrow[OF that(1)] by (simp add: has_lengthsD)
      also have "\<dots> = take k (NF ! b) @ [NF ! b ! k]"
        using cv X[OF that] NFrow(1)[OF that(1)] by simp
      also have "\<dots> = take (Suc k) (NF ! b)"
        using NFrow(2)[OF that(1)] k by (simp add: take_Suc_conv_app_nth)
      finally show ?thesis .
    qed
    show "effective_keys (bias_row (case prevI of None \<Rightarrow> sbI | Some p \<Rightarrow> None) b 0) (allI ! b)
           = allI ! b" if "b < B" "clean b" for b
    proof (cases prevI)
      case None
      with prevI that have r: "bias_row sbI b 0 = Some [0]" by simp
      from None allI have "allI = map (map gN) XI" by simp
      with NIrow[OF that(1)] have "allI ! b = [gN (XI ! b ! 0)]" by simp
      with r None show ?thesis by (simp add: effective_keys_def allowed_keys_def)
    next
      case (Some cache)
      then show ?thesis by (simp add: bias_row_def effective_keys_None)
    qed
  qed
  show "has_lengths ansF B T" by (rule aF)
  show "has_lengths ansI B (Suc 0)" by (rule aI)
  show "has_lengths NF B T" by (rule NFl)
  show "has_lengths allI B (Suc k)" by (rule allIl)
  show "\<And>b. b < B \<Longrightarrow> clean b \<Longrightarrow> allI ! b = take (Suc k) (NF ! b)" by (rule allIrow)
  show "ansI ! b ! 0 = ansF ! b ! k" if "b < B" "clean b" for b
  proof -
    have "effective_keys (bias_row (Some db) b k) (NF ! b) = take (Suc k) (NF ! b)"
      using rowF[OF that] NFrow(2)[OF that(1)] k by (simp add: effective_keys_causal)
    moreover have binF: "binary_row (bias_row (Some db) b k)"
      unfolding rowF[OF that] by (auto simp: binary_row_def list_all_iff)
    moreover have binI: "binary_row (bias_row (case prevI of None \<Rightarrow> sbI | Some p \<Rightarrow> None) b 0)"
      using prevI that by (cases prevI) (simp_all add: binary_row_def bias_row_def)
    moreover note ebk = eb[OF that(1)] ebbin[OF that(1)]
    moreover from ebk have ebkb: "binary_row (bias_row eb b k)" by simp
    ultimately show ?thesis
      using rowsF[OF that(1) k binF ebkb] rowsI[OF that(1) binI ebk(2)] keysI[OF that]
        allIrow[OF that] X[OF that]
      by simp
  qed
qed

lemma layer_loop_ConsD:
  assumes "layer_loop D s mb db eb (i # is) (X, a, sv) = Inr (out, a1, sv1)"
  shows "\<exists>prev ans attn all_inputs.
           (case previous_input s of None \<Rightarrow> prev = None
            | Some p \<Rightarrow> (\<exists>pli. previous_layer_inputs s = Some pli \<and> i < length pli
                          \<and> prev = Some (pli ! i)))
         \<and> i < length (layer_stack D)
         \<and> DecoderLayer_forward (layer_stack D ! i) X mb (Some db) (Some eb) prev
              = Inr (ans, attn, all_inputs)
         \<and> layer_loop D s mb db eb is (ans, Some attn, sv @ [all_inputs]) = Inr (out, a1, sv1)
         \<and> sv1 ! length sv = all_inputs"
proof -
  from assms obtain prev ans attn all_inputs where
    p: "(case previous_input s of None \<Rightarrow> prev = None
            | Some p \<Rightarrow> (\<exists>pli. previous_layer_inputs s = Some pli \<and> i < length pli
                          \<and> prev = Some (pli ! i)))"
    and i: "i < length (layer_stack D)"
    and step: "DecoderLayer_forward (layer_stack D ! i) X mb (Some db) (Some eb) prev
              = Inr (ans, attn, all_inputs)"
    and rest: "layer_loop D s mb db eb is (ans, Some attn, sv @ [all_inputs]) = Inr (out, a1, sv1)"
    by (auto split: sum.splits prod.splits if_splits option.splits)
  from layer_loop_saved[OF rest] have "take (Suc (length sv)) sv1 = sv @ [all_inputs]"
    and "length sv < length sv1" by simp_all
  then have "sv1 ! length sv = (sv @ [all_inputs]) ! length sv"
    by (metis lessI nth_take)
  then have "sv1 ! length sv = all_inputs" by simp
  with p i step rest show ?thesis by blast
qed

lemma loop_sim:
  assumes contract: "list_all layer_contract (layer_stack D)"
    and sF: "previous_input sF = None"
    and k: "k < T"
    and eb: "\<And>b. b < B \<Longrightarrow> bias_row (Some eb) b k = bias_row (Some eb) b 0"
    and ebbin: "\<And>b. b < B \<Longrightarrow> binary_row (bias_row (Some eb) b 0)"
    and rowF: "\<And>b. b < B \<Longrightarrow> clean b \<Longrightarrow> bias_row (Some db) b k
                 = Some (map (\<lambda>j. if k < j then - 1000000000 else 0) [0..<T])"
    and sI: "previous_input sI = None
               \<Longrightarrow> k = 0 \<and> (\<forall>b < B. clean b \<longrightarrow> bias_row (Some dbI) b 0 = Some [0])"
  shows "layer_loop D sF mb db eb is (XF, aF, svF) = Inr (outF, aF1, svF1)
     \<Longrightarrow> layer_loop D sI mb dbI eb is (XI, aI, svI) = Inr (outI, aI1, svI1)
     \<Longrightarrow> has_lengths XF B T \<Longrightarrow> has_lengths XI B (Suc 0)
     \<Longrightarrow> (\<And>b. b < B \<Longrightarrow> clean b \<Longrightarrow> XI ! b ! 0 = XF ! b ! k)
     \<Longrightarrow> (\<And>pos caches. pos < length is \<Longrightarrow> previous_layer_inputs sI = Some caches
            \<Longrightarrow> previous_input sI \<noteq> None
            \<Longrightarrow> has_lengths (caches ! (is ! pos)) B k
              \<and> (\<forall>b < B. clean b \<longrightarrow> caches ! (is ! pos) ! b
                     = take k (svF1 ! (length svF + pos) ! b)))
     \<Longrightarrow> has_lengths outF B T \<and> has_lengths outI B (Suc 0)
         \<and> (\<forall>b < B. clean b \<longrightarrow> outI ! b ! 0 = outF ! b ! k)
         \<and> (\<forall>pos < length is. has_lengths (svI1 ! (length svI + pos)) B (Suc k)
               \<and> (\<forall>b < B. clean b \<longrightarrow> svI1 ! (length svI + pos) ! b
                      = take (Suc k) (svF1 ! (length svF + pos) ! b)))"
proof (induction "is" arbitrary: XF aF svF XI aI svI)
  case Nil
  then show ?case by simp
next
  case (Cons i "is")
  from layer_loop_ConsD[OF Cons.prems(1)] sF obtain ansF attnF NF where
    i: "i < length (layer_stack D)"
    and stepF: "DecoderLayer_forward (layer_stack D ! i) XF mb (Some db) (Some eb) None
              = Inr (ansF, attnF, NF)"
    and restF: "layer_loop D sF mb db eb is (ansF, Some attnF, svF @ [NF]) = Inr (outF, aF1, svF1)"
    and NF: "svF1 ! length svF = NF"
    by auto
  from layer_loop_ConsD[OF Cons.prems(2)] obtain prevI ansI attnI allI where
    prevI: "case previous_input sI of None \<Rightarrow> prevI = None
            | Some p \<Rightarrow> (\<exists>pli. previous_layer_inputs sI = Some pli \<and> i < length pli
                          \<and> prevI = Some (pli ! i))"
    and stepI: "DecoderLayer_forward (layer_stack D ! i) XI mb (Some dbI) (Some eb) prevI
              = Inr (ansI, attnI, allI)"
    and restI: "layer_loop D sI mb dbI eb is (ansI, Some attnI, svI @ [allI]) = Inr (outI, aI1, svI1)"
    and allI: "svI1 ! length svI = allI"
    by blast
  from contract i have L: "layer_contract (layer_stack D ! i)"
    by (simp add: list_all_length)
  have prevI': "case prevI of
                  None \<Rightarrow> k = 0 \<and> (\<forall>b < B. clean b \<longrightarrow> bias_row (Some dbI) b 0 = Some [0])
                | Some cache \<Rightarrow> has_lengths cache B k
                     \<and> (\<forall>b < B. clean b \<longrightarrow> cache ! b = take k (NF ! b))"
  proof (cases "previous_input sI")
    case None
    with prevI sI show ?thesis by simp
  next
    case (Some p)
    with prevI obtain pli where pli: "previous_layer_inputs sI = Some pli" "prevI = Some (pli ! i)"
      by auto
    from Cons.prems(6)[of 0 pli] pli(1) Some NF
    have "has_lengths (pli ! i) B k \<and> (\<forall>b < B. clean b \<longrightarrow> pli ! i ! b = take k (NF ! b))"
      by simp
    with pli(2) show ?thesis by simp
  qed
  note ls = layer_sim[OF L stepF stepI Cons.prems(3,4) k eb ebbin rowF prevI' Cons.prems(5)]
  have caches': "has_lengths (caches ! (is ! pos)) B k
              \<and> (\<forall>b < B. clean b \<longrightarrow> caches ! (is ! pos) ! b
                     = take k (svF1 ! (length (svF @ [NF]) + pos) ! b))"
    if "pos < length is" "previous_layer_inputs sI = Some caches" "previous_input sI \<noteq> None"
    for pos caches
    using Cons.prems(6)[of "Suc pos" caches] that by simp
  from Cons.IH[OF restF restI ls(1) ls(2) ls(5) caches']
  have outs: "has_lengths outF B T \<and> has_lengths outI B (Suc 0)
         \<and> (\<forall>b < B. clean b \<longrightarrow> outI ! b ! 0 = outF ! b ! k)"
    and tail: "\<forall>pos < length is. has_lengths (svI1 ! (length (svI @ [allI]) + pos)) B (Suc k)
               \<and> (\<forall>b < B. clean b \<longrightarrow> svI1 ! (length (svI @ [allI]) + pos) ! b
                      = take (Suc k) (svF1 ! (length (svF @ [NF]) + pos) ! b))"
    by blast+
  have saved: "has_lengths (svI1 ! (length svI + pos)) B (Suc k)
               \<and> (\<forall>b < B. clean b \<longrightarrow> svI1 ! (length svI + pos) ! b
                      = take (Suc k) (svF1 ! (length svF + pos) ! b))"
    if "pos < length (i # is)" for pos
  proof (cases pos)
    case 0
    with ls(4) ls(6) allI NF show ?thesis by simp
  next
    case (Suc p)
    with that tail show ?thesis by simp
  qed
  from outs saved show ?case by blast
qed

lemma forward_InrD_checks:
  assumes "TransformerDecoder_forward D h tgt memory_bank state_ref
             = Inr ((outputs, state', attns), h')"
    and "h ! state_ref = TransformerDecoderState_obj s"
  shows "dim1 (src s) = dim1 tgt"
  using forward_src_batch[OF assms] by (simp add: length_transpose01 dim1_select0)

lemma encoder_decoder_bias_row_const:
  assumes "b < dim1 S"
  shows "bias_row (Some (make_encoder_decoder_bias pad (transpose01 (select0 S)))) b k
       = bias_row (Some (make_encoder_decoder_bias pad (transpose01 (select0 S)))) b 0"
proof -
  have "b < length (transpose01 (select0 S))"
    using assms by (simp add: length_transpose01 dim1_select0)
  then have "length (make_encoder_decoder_bias pad (transpose01 (select0 S)) ! b) = 1"
    by (simp add: make_encoder_decoder_bias_def unsqueeze1_def eq_float_def Let_def)
  then show ?thesis by (simp add: bias_row_def)
qed

lemma length_transpose01_row:
  assumes "has_lengths X B T" and "0 < B" and "k < T"
  shows "length (transpose01 X ! k) = B"
proof -
  obtain x X' where X: "X = x # X'" using assms(1,2) by (cases X) (auto simp: has_lengths_def)
  have "length (X ! 0) = T" using assms(1,2) by (simp add: has_lengthsD)
  then have d1: "dim1 X = T" by (simp add: dim1_def X)
  show ?thesis using assms by (simp add: transpose01_def d1 has_lengthsD)
qed

lemma has_shape_nth: "has_shape T (L, B, F) \<Longrightarrow> k < L \<Longrightarrow> has_shape [T ! k] (1, B, F)"
  by (simp add: has_shape_def list_all_length)

lemma has_shape_take: "has_shape T (L, B, F) \<Longrightarrow> k \<le> L \<Longrightarrow> has_shape (take k T) (k, B, F)"
  by (auto simp: has_shape_def list_all_iff dest: in_set_takeD)

lemma step_sim:
  assumes contract: "decoder_contract D B F C"
    and tgt: "has_shape tgt (T, B, F)" and B: "0 < B" and k: "k < T"
    and sF: "previous_input sF = None"
    and db: "make_decoder_bias (word_padding_idx (embeddings D)) (transpose01 (select0 tgt))
               = Inr db"
    and loopF: "layer_loop D sF mbT db
                  (make_encoder_decoder_bias (word_padding_idx (embeddings D))
                     (transpose01 (select0 (src sF))))
                  [0..<num_layers D] (transpose01 (embed3 (embeddings D) tgt), None, [])
                  = Inr (outF, attnF, savedF)"
    and srcB: "dim1 (src sF) = B"
    and state: "h ! st = TransformerDecoderState_obj s" "src s = src sF"
    and inv: "prefix_state tgt (word_padding_idx (embeddings D)) savedF (num_layers D) B k s"
    and run: "TransformerDecoder_forward D h [tgt ! k] mb st = Inr ((out, st', attns), h')"
    and mbT: "mbT = transpose01 mb"
  shows "\<exists>s'. h' ! st' = TransformerDecoderState_obj s' \<and> src s' = src sF
           \<and> prefix_state tgt (word_padding_idx (embeddings D)) savedF (num_layers D) B (Suc k) s'"
    and "length out = 1" and "length (out ! 0) = B"
    and "\<And>b. b < B \<Longrightarrow> (\<forall>j \<le> k. tgt ! j ! b ! 0 \<noteq> word_padding_idx (embeddings D))
           \<Longrightarrow> out ! 0 ! b = transpose01 (layer_norm D outF) ! k ! b"
proof -
  let ?pad = "word_padding_idx (embeddings D)"
  let ?eb = "make_encoder_decoder_bias ?pad (transpose01 (select0 (src sF)))"
  let ?embI = "case previous_input s of
                 None \<Rightarrow> embed3 (embeddings D) [tgt ! k]
               | Some p \<Rightarrow> drop (length p) (embed3 (embeddings D) (p @ [tgt ! k]))"
  let ?full = "case previous_input s of None \<Rightarrow> [tgt ! k] | Some p \<Rightarrow> p @ [tgt ! k]"
  define clean where "clean b \<longleftrightarrow> (\<forall>j \<le> k. tgt ! j ! b ! 0 \<noteq> ?pad)" for b
  have T: "0 < T" using k by simp
  have lenT: "length tgt = T" using tgt by (simp add: has_shape_def)
  have k': "Suc k \<le> T" using k by simp
  from contract have emb: "positionwise_embeddings (embeddings D) B F C"
    and norm: "rowwise (layer_norm D)" and layers: "list_all layer_contract (layer_stack D)"
    by (simp_all add: decoder_contract_def)
  from emb have embS0: "\<forall>X L. has_shape X (L, B, F)
                          \<longrightarrow> has_shape (embed3 (embeddings D) X) (L, B, C)"
    and embP0: "\<forall>X X' j. j < length X \<and> j < length X' \<and> X ! j = X' ! j
                 \<longrightarrow> embed3 (embeddings D) X ! j = embed3 (embeddings D) X' ! j"
    unfolding positionwise_embeddings_def shaped_embeddings_def by blast+
  have embS: "has_shape (embed3 (embeddings D) X) (L, B, C)" if "has_shape X (L, B, F)" for X L
    using embS0 that by blast
  have embP: "embed3 (embeddings D) X ! j = embed3 (embeddings D) X' ! j"
    if "j < length X" "j < length X'" "X ! j = X' ! j" for X X' j
    using embP0 that by blast
  from forward_outputs[OF run state(1)] obtain dbI outI attnI savedI where
    dbI: "make_decoder_bias ?pad (transpose01 (select0 [tgt ! k])) = Inr dbI"
    and loopI: "layer_loop D s (transpose01 mb) dbI
                  (make_encoder_decoder_bias ?pad (transpose01 (select0 (src s))))
                  [0..<num_layers D] (transpose01 ?embI, None, []) = Inr (outI, Some attnI, savedI)"
    and out: "out = transpose01 (layer_norm D outI)"
    and upd: "update_state h s ?full savedI = (st', h')"
    by blast
  have one: "has_shape [tgt ! k] (1, B, F)" using tgt k by (rule has_shape_nth)
  have EF: "has_shape (embed3 (embeddings D) tgt) (T, B, C)" using tgt by (rule embS)
  have embI: "has_shape ?embI (1, B, C)"
    and embI0: "?embI ! 0 = embed3 (embeddings D) tgt ! k"
    and full: "?full = take (Suc k) tgt"
  proof -
    show "has_shape ?embI (1, B, C)"
    proof (cases "k = 0")
      case True
      with inv have "previous_input s = None" by (simp add: prefix_state_def)
      with embS[OF one] show ?thesis by simp
    next
      case False
      with inv have p: "previous_input s = Some (take k tgt)" by (simp add: prefix_state_def)
      have "take k tgt @ [tgt ! k] = take (Suc k) tgt"
        using k lenT by (simp add: take_Suc_conv_app_nth)
      moreover have "has_shape (take (Suc k) tgt) (Suc k, B, F)"
        using tgt k' by (rule has_shape_take)
      ultimately have "has_shape (embed3 (embeddings D) (take k tgt @ [tgt ! k])) (Suc k, B, C)"
        using embS by simp
      from has_shape_drop[OF this, of k] p k lenT show ?thesis by simp
    qed
    show "?embI ! 0 = embed3 (embeddings D) tgt ! k"
    proof (cases "k = 0")
      case True
      with inv have "previous_input s = None" by (simp add: prefix_state_def)
      moreover have "embed3 (embeddings D) [tgt ! k] ! 0 = embed3 (embeddings D) tgt ! 0"
        using T lenT True by (intro embP) simp_all
      ultimately show ?thesis using True by simp
    next
      case False
      with inv have p: "previous_input s = Some (take k tgt)" by (simp add: prefix_state_def)
      have t: "take k tgt @ [tgt ! k] = take (Suc k) tgt"
        using k lenT by (simp add: take_Suc_conv_app_nth)
      have "has_shape (take (Suc k) tgt) (Suc k, B, F)"
        using tgt k' by (rule has_shape_take)
      then have "length (embed3 (embeddings D) (take (Suc k) tgt)) = Suc k"
        using embS by (simp add: has_shape_def)
      then have "drop k (embed3 (embeddings D) (take (Suc k) tgt)) ! 0
          = embed3 (embeddings D) (take (Suc k) tgt) ! k" by simp
      also have "\<dots> = embed3 (embeddings D) tgt ! k"
        using k lenT by (intro embP) simp_all
      finally show ?thesis using p t k lenT by simp
    qed
    show "?full = take (Suc k) tgt"
    proof (cases "k = 0")
      case True
      with inv have "previous_input s = None" by (simp add: prefix_state_def)
      with True T lenT show ?thesis by (cases tgt) simp_all
    next
      case False
      with inv have p: "previous_input s = Some (take k tgt)" by (simp add: prefix_state_def)
      with k lenT show ?thesis by (simp add: take_Suc_conv_app_nth)
    qed
  qed
  note XF = transpose01_rows[OF EF T]
  have "(0::nat) < 1" by simp
  note XI0 = transpose01_rows[OF embI this]
  have XI: "has_lengths (transpose01 ?embI) B (Suc 0)" using XI0(1) by simp
  have X0: "transpose01 ?embI ! b ! 0 = transpose01 (embed3 (embeddings D) tgt) ! b ! k"
    if "b < B" "clean b" for b
    using that(1) k embI0 by (simp add: XF(2) XI0(2))
  have rowF: "bias_row (Some db) b k
                 = Some (map (\<lambda>j. if k < j then - 1000000000 else 0) [0..<T])"
    if "b < B" "clean b" for b
  proof -
    have "(if tgt ! j ! b ! 0 = ?pad \<or> k < j then - 1000000000 else (0::real))
        = (if k < j then - 1000000000 else 0)" for j
      using that(2) by (cases "k < j") (auto simp: clean_def)
    with decoder_bias_row[OF tgt B db that(1) k] show ?thesis by simp
  qed
  have ebrow: "bias_row (Some ?eb) b k = bias_row (Some ?eb) b 0" if "b < B" for b
    using that srcB by (intro encoder_decoder_bias_row_const) simp
  have sI: "k = 0 \<and> (\<forall>b < B. clean b \<longrightarrow> bias_row (Some dbI) b 0 = Some [0])"
    if "previous_input s = None"
  proof -
    from that inv have k0: "k = 0" by (auto simp: prefix_state_def split: if_splits)
    have "bias_row (Some dbI) b 0 = Some [0]" if "b < B" "clean b" for b
    proof -
      from decoder_bias_row[OF one B dbI that(1), of 0]
      have "bias_row (Some dbI) b 0
          = Some [if tgt ! k ! b ! 0 = ?pad then - 1000000000 else 0]" by simp
      with that(2) show ?thesis by (simp add: clean_def)
    qed
    with k0 show ?thesis by blast
  qed
  have caches: "has_lengths (caches ! ([0..<num_layers D] ! pos)) B k
              \<and> (\<forall>b < B. clean b \<longrightarrow> caches ! ([0..<num_layers D] ! pos) ! b
                     = take k (savedF ! (length ([] :: tensor list) + pos) ! b))"
    if "pos < length [0..<num_layers D]" "previous_layer_inputs s = Some caches"
      "previous_input s \<noteq> None" for pos caches
  proof -
    from that(3) inv have "k \<noteq> 0" by (auto simp: prefix_state_def split: if_splits)
    with inv that(2) have c: "\<forall>l < num_layers D. has_lengths (caches ! l) B k
                    \<and> (\<forall>b < B. (\<forall>j < k. tgt ! j ! b ! 0 \<noteq> ?pad)
                          \<longrightarrow> caches ! l ! b = take k (savedF ! l ! b))"
      by (simp add: prefix_state_def)
    from that(1) have pos: "pos < num_layers D" by simp
    with c show ?thesis by (auto simp: clean_def)
  qed
  from loopI state(2) mbT have loopI': "layer_loop D s mbT dbI ?eb
                  [0..<num_layers D] (transpose01 ?embI, None, []) = Inr (outI, Some attnI, savedI)"
    by simp
  have ebbin: "binary_row (bias_row (Some ?eb) b 0)" if "b < B" for b
    using that srcB by (intro encoder_decoder_bias_row) (simp add: length_transpose01 dim1_select0)
  note ls = loop_sim[OF layers sF k ebrow ebbin rowF sI loopF loopI' XF(1) XI X0 caches]
  from ls have oF: "has_lengths outF B T" and oI: "has_lengths outI B (Suc 0)"
    and o0: "\<forall>b < B. clean b \<longrightarrow> outI ! b ! 0 = outF ! b ! k"
    by blast+
  from o0 have o: "\<And>b. b < B \<Longrightarrow> clean b \<Longrightarrow> outI ! b ! 0 = outF ! b ! k"
    by blast
  have sv: "has_lengths (savedI ! l) B (Suc k)
               \<and> (\<forall>b < B. clean b \<longrightarrow> savedI ! l ! b = take (Suc k) (savedF ! l ! b))"
    if "l < num_layers D" for l
  proof -
    from that have "l < length [0..<num_layers D]" by simp
    with ls[THEN conjunct2, THEN conjunct2, THEN conjunct2, THEN spec, of l]
    have "has_lengths (savedI ! (length ([] :: tensor list) + l)) B (Suc k)
               \<and> (\<forall>b < B. clean b \<longrightarrow> savedI ! (length ([] :: tensor list) + l) ! b
                      = take (Suc k) (savedF ! (length ([] :: tensor list) + l) ! b))"
      by (rule mp)
    then show ?thesis by simp
  qed
  let ?s' = "\<lparr>src = src s, previous_input = Some ?full, previous_layer_inputs = Some savedI\<rparr>"
  from upd have "h' ! st' = TransformerDecoderState_obj ?s'"
    by (auto simp: update_state_def TransformerDecoderState_init_def)
  moreover have "prefix_state tgt ?pad savedF (num_layers D) B (Suc k) ?s'"
    using sv full by (auto simp: prefix_state_def clean_def less_Suc_eq_le)
  ultimately show "\<exists>s'. h' ! st' = TransformerDecoderState_obj s' \<and> src s' = src sF
           \<and> prefix_state tgt ?pad savedF (num_layers D) B (Suc k) s'"
    using state(2) by (intro exI[of _ ?s']) simp
  from norm obtain g where g: "\<forall>X. layer_norm D X = map (map g) X"
    unfolding rowwise_def ..
  note nF = rowwise_rows[OF g oF]
  note nI = rowwise_rows[OF g oI]
  have z: "(0::nat) < Suc 0" by simp
  show "length out = 1"
    unfolding out using transpose01_back(2)[OF nI(1) B B z] by simp
  show "length (out ! 0) = B"
    unfolding out using nI(1) B z by (rule length_transpose01_row)
  show "out ! 0 ! b = transpose01 (layer_norm D outF) ! k ! b"
    if "b < B" "\<forall>j \<le> k. tgt ! j ! b ! 0 \<noteq> ?pad" for b
  proof -
    from that(2) have c: "clean b" by (simp add: clean_def)
    have "out ! 0 ! b = layer_norm D outI ! b ! 0"
      unfolding out using nI(1) B that(1) z by (rule transpose01_back(1))
    also have "\<dots> = g (outF ! b ! k)" using nI(2)[OF that(1) z] o[OF that(1) c] by simp
    also have "\<dots> = layer_norm D outF ! b ! k" using nF(2)[OF that(1) k] by simp
    also have "\<dots> = transpose01 (layer_norm D outF) ! k ! b"
      using transpose01_back(1)[OF nF(1) B that(1) k] by simp
    finally show ?thesis .
  qed
qed

lemma decode_sim:
  assumes contract: "decoder_contract D B F C"
    and tgt: "has_shape tgt (T, B, F)" and B: "0 < B"
    and sF: "previous_input sF = None"
    and db: "make_decoder_bias (word_padding_idx (embeddings D)) (transpose01 (select0 tgt))
               = Inr db"
    and loopF: "layer_loop D sF mbT db
                  (make_encoder_decoder_bias (word_padding_idx (embeddings D))
                     (transpose01 (select0 (src sF))))
                  [0..<num_layers D] (transpose01 (embed3 (embeddings D) tgt), None, [])
                  = Inr (outF, attnF, savedF)"
    and srcB: "dim1 (src sF) = B"
    and mbT: "mbT = transpose01 mb"
  shows "decode_incremental D h (drop k tgt) mb st = Inr (outs, st', h')
     \<Longrightarrow> k \<le> T \<Longrightarrow> h ! st = TransformerDecoderState_obj s \<Longrightarrow> src s = src sF
     \<Longrightarrow> prefix_state tgt (word_padding_idx (embeddings D)) savedF (num_layers D) B k s
     \<Longrightarrow> length outs = T - k
         \<and> (\<forall>m < T - k. length (outs ! m) = B
               \<and> (\<forall>b < B. (\<forall>j \<le> k + m. tgt ! j ! b ! 0 \<noteq> word_padding_idx (embeddings D))
                     \<longrightarrow> outs ! m ! b = transpose01 (layer_norm D outF) ! (k + m) ! b))"
proof (induction "T - k" arbitrary: k h st s outs)
  case 0
  have "length tgt = T" using tgt by (simp add: has_shape_def)
  with 0 have "drop k tgt = []" by simp
  with "0.prems"(1) have "outs = []" by simp
  with 0 show ?case by simp
next
  case (Suc n)
  let ?pad = "word_padding_idx (embeddings D)"
  have lenT: "length tgt = T" using tgt by (simp add: has_shape_def)
  from Suc.hyps(2) have k: "k < T" by simp
  then have "drop k tgt = tgt ! k # drop (Suc k) tgt"
    using lenT by (simp add: Cons_nth_drop_Suc)
  with Suc.prems(1) obtain out st2 attns h2 rest where
    run: "TransformerDecoder_forward D h [tgt ! k] mb st = Inr ((out, st2, attns), h2)"
    and rec: "decode_incremental D h2 (drop (Suc k) tgt) mb st2 = Inr (rest, st', h')"
    and outs: "outs = out @ rest"
    by (auto split: sum.splits prod.splits)
  note step = step_sim[OF contract tgt B k sF db loopF srcB Suc.prems(3,4,5) run mbT]
  from step(1) obtain s2 where s2: "h2 ! st2 = TransformerDecoderState_obj s2"
    "src s2 = src sF" "prefix_state tgt ?pad savedF (num_layers D) B (Suc k) s2"
    by blast
  have n: "n = T - Suc k" using Suc.hyps(2) by simp
  have k': "Suc k \<le> T" using k by simp
  from Suc.hyps(1)[OF n rec k' s2]
  have lrest: "length rest = T - Suc k"
    and rest: "\<And>m. m < T - Suc k \<Longrightarrow> length (rest ! m) = B
               \<and> (\<forall>b < B. (\<forall>j \<le> Suc k + m. tgt ! j ! b ! 0 \<noteq> ?pad)
                     \<longrightarrow> rest ! m ! b = transpose01 (layer_norm D outF) ! (Suc k + m) ! b)"
    by blast+
  from step(2) obtain o1 where o1: "out = [o1]" by (cases out) auto
  have len: "length outs = T - k" using outs o1 lrest k by simp
  have rows: "length (outs ! m) = B
               \<and> (\<forall>b < B. (\<forall>j \<le> k + m. tgt ! j ! b ! 0 \<noteq> ?pad)
                     \<longrightarrow> outs ! m ! b = transpose01 (layer_norm D outF) ! (k + m) ! b)"
    if "m < T - k" for m
  proof (cases m)
    case 0
    with step(3) step(4) outs o1 show ?thesis by simp
  next
    case (Suc m')
    with that have "m' < T - Suc k" by simp
    from rest[OF this] outs o1 Suc show ?thesis by simp
  qed
  from len rows show ?case by blast
qed

lemma layer_loop_lengths:
  assumes "list_all layer_contract (layer_stack D)" and "previous_input s = None"
    and "layer_loop D s mb db eb is (X, a, sv) = Inr (out, a1, sv1)"
    and "has_lengths X B T"
  shows "has_lengths out B T"
proof -
  have P: "b < B \<and> k < T
              \<and> bias_row (Some db) b k = bias_row (Some db) b k
              \<and> binary_row (bias_row (Some db) b k) \<and> binary_row (bias_row (Some eb) b k)
              \<and> (\<exists>r. bias_row (Some db) b k = Some r \<and> length r = T
                    \<and> (\<exists>j < T. r ! j = 0) \<and> (\<forall>j < T. r ! j = 0 \<longrightarrow> False))"
    if "False" for b k
    using that by simp
  have X: "X ! b ! k = X ! b ! k" if "False" for b k by simp
  from layer_loop_agree[where P = "\<lambda>b k. False", OF assms(1,2) P assms(3) assms(3) assms(4)
      assms(4) X]
  show ?thesis by simp
qed

text \<open>
  C1, as the code has it. Take a decoder whose collaborators keep the contract
  \<open>decoder_contract\<close> (embeddings that give a three-dimensional tensor and look every
  position up on its own; normalisation, feed-forward and dropout that act on every
  position on its own; attention modules that the constant \<open>-1e9\<close> saturates), a fresh
  state, and target tokens of size \<open>T x B x F\<close>. If the single non-incremental call over
  the whole target and the token-by-token calls with the state threaded all return, then
  the incremental outputs form a tensor of the same length \<open>T\<close>, and the output of step
  \<open>k\<close> for batch entry \<open>b\<close> equals the non-incremental output at position \<open>k\<close> of \<open>b\<close>
  whenever the target words of \<open>b\<close> at the positions up to \<open>k\<close> are not the padding word.
  For a target without padding words the two output tensors are equal.
\<close>

theorem incremental_equals_full:
  assumes contract: "decoder_contract D B F C"
    and state: "h ! st = TransformerDecoderState_obj s0" "previous_input s0 = None"
    and tgt: "has_shape tgt (T, B, F)" "0 < T" "0 < B"
    and full: "TransformerDecoder_forward D h tgt memory_bank st
                 = Inr ((outputs, st1, attns1), h1)"
    and inc: "decode_incremental D h tgt memory_bank st = Inr (outs, st2, h2)"
  shows "length outs = T \<and> length outputs = T
       \<and> (\<forall>k < T. \<forall>b < B.
             (\<forall>j \<le> k. tgt ! j ! b ! 0 \<noteq> word_padding_idx (embeddings D))
             \<longrightarrow> outs ! k ! b = outputs ! k ! b)
       \<and> ((\<forall>k < T. \<forall>b < B. tgt ! k ! b ! 0 \<noteq> word_padding_idx (embeddings D))
             \<longrightarrow> outs = outputs)"
proof -
  let ?pad = "word_padding_idx (embeddings D)"
  from contract have emb: "positionwise_embeddings (embeddings D) B F C"
    and norm: "rowwise (layer_norm D)" and layers: "list_all layer_contract (layer_stack D)"
    by (simp_all add: decoder_contract_def)
  from forward_outputs[OF full state(1)] state(2) obtain db outF attnF savedF where
    db: "make_decoder_bias ?pad (transpose01 (select0 tgt)) = Inr db"
    and loopF: "layer_loop D s0 (transpose01 memory_bank) db
                  (make_encoder_decoder_bias ?pad (transpose01 (select0 (src s0))))
                  [0..<num_layers D] (transpose01 (embed3 (embeddings D) tgt), None, [])
                  = Inr (outF, Some attnF, savedF)"
    and outputs: "outputs = transpose01 (layer_norm D outF)"
    by auto
  have srcB: "dim1 (src s0) = B"
    using forward_InrD_checks[OF full state(1)] has_shape_dim1[OF tgt(1) tgt(2)] by simp
  have inv0: "prefix_state tgt ?pad savedF (num_layers D) B 0 s0"
    using state(2) by (simp add: prefix_state_def)
  have inc0: "decode_incremental D h (drop 0 tgt) memory_bank st = Inr (outs, st2, h2)"
    using inc by simp
  from decode_sim[OF contract tgt(1) tgt(3) state(2) db loopF srcB refl inc0 _ state(1) refl inv0]
  have len: "length outs = T"
    and rows: "\<And>k. k < T \<Longrightarrow> length (outs ! k) = B
               \<and> (\<forall>b < B. (\<forall>j \<le> k. tgt ! j ! b ! 0 \<noteq> ?pad)
                     \<longrightarrow> outs ! k ! b = outputs ! k ! b)"
    unfolding outputs by simp_all
  have E: "has_shape (embed3 (embeddings D) tgt) (T, B, C)"
    using emb tgt(1) unfolding positionwise_embeddings_def shaped_embeddings_def by blast
  note X = transpose01_rows[OF E tgt(2)]
  have oF: "has_lengths outF B T"
    using layers state(2) loopF X(1) by (rule layer_loop_lengths)
  from norm obtain g where g: "\<forall>X. layer_norm D X = map (map g) X"
    unfolding rowwise_def ..
  note nF = rowwise_rows[OF g oF]
  have b0: "(0::nat) < B" by (rule tgt(3))
  have lo: "length outputs = T"
    unfolding outputs using transpose01_back(2)[OF nF(1) tgt(3) b0 tgt(2)] .
  have lrow: "length (outputs ! k) = B" if "k < T" for k
    unfolding outputs using nF(1) tgt(3) that by (rule length_transpose01_row)
  have eq: "outs = outputs" if nopad: "\<forall>k < T. \<forall>b < B. tgt ! k ! b ! 0 \<noteq> ?pad"
  proof (rule nth_equalityI)
    show "length outs = length outputs" using len lo by simp
    fix k assume "k < length outs"
    with len have k: "k < T" by simp
    show "outs ! k = outputs ! k"
    proof (rule nth_equalityI)
      show "length (outs ! k) = length (outputs ! k)" using rows[OF k] lrow[OF k] by simp
      fix b assume "b < length (outs ! k)"
      with rows[OF k] have b: "b < B" by simp
      have "\<forall>j \<le> k. tgt ! j ! b ! 0 \<noteq> ?pad" using nopad k b by simp
      with rows[OF k] b show "outs ! k ! b = outputs ! k ! b" by blast
    qed
  qed
  from len lo rows eq show ?thesis by blast
qed

theorem incremental_equals_full_witness:
  "decoder_contract example_decoder 1 1 2
   \<and> example_heap ! 0 = TransformerDecoderState_obj example_state
   \<and> previous_input example_state = None
   \<and> has_shape [[[5]], [[6::int]]] (2, 1, 1)
   \<and> TransformerDecoder_forward example_decoder example_heap [[[5]], [[6]]] example_memory_bank 0
       = Inr (([[[21, 5]], [[24, 5]]], 1,
               [(''std'', [[[1 / 2, 1 / 2]], [[1 / 2, 1 / 2]]]),
                (''copy'', [[[1 / 2, 1 / 2]], [[1 / 2, 1 / 2]]])]),
              example_heap @ [TransformerDecoderState_obj
                \<lparr>src = [[[3]], [[4]]], previous_input = Some [[[5]], [[6]]],
                   previous_layer_inputs = Some [[[[5, 1], [6, 1]]]]\<rparr>])
   \<and> decode_incremental example_decoder example_heap [[[5]], [[6]]] example_memory_bank 0
       = Inr ([[[21, 5]], [[24, 5]]], 2,
              example_heap @ [TransformerDecoderState_obj
                \<lparr>src = [[[3]], [[4]]], previous_input = Some [[[5]]],
                   previous_layer_inputs = Some [[[[5, 1]]]]\<rparr>,
               TransformerDecoderState_obj
                \<lparr>src = [[[3]], [[4]]], previous_input = Some [[[5]], [[6]]],
                   previous_layer_inputs = Some [[[[5, 1], [6, 1]]]]\<rparr>])
   \<and> [[[21, 5]], [[24, 5::real]]] ! 1 ! 0 = [[[21, 5]], [[24, 5::real]]] ! 1 ! 0"
proof -
  have state: "example_heap ! 0 = TransformerDecoderState_obj example_state"
    "previous_input example_state = None"
    by (simp_all add: example_heap_def example_state_def TransformerDecoderState_init_def)
  have tgt: "has_shape [[[5]], [[6::int]]] (2, 1, 1)" "(0::nat) < 2" "(0::nat) < 1"
    by (simp_all add: has_shape_def)
  have full: "TransformerDecoder_forward example_decoder example_heap [[[5]], [[6]]]
       example_memory_bank 0
       = Inr (([[[21, 5]], [[24, 5]]], 1,
               [(''std'', [[[1 / 2, 1 / 2]], [[1 / 2, 1 / 2]]]),
                (''copy'', [[[1 / 2, 1 / 2]], [[1 / 2, 1 / 2]]])]),
              example_heap @ [TransformerDecoderState_obj
                \<lparr>src = [[[3]], [[4]]], previous_input = Some [[[5]], [[6]]],
                   previous_layer_inputs = Some [[[[5, 1], [6, 1]]]]\<rparr>])"
    by code_simp
  have inc: "decode_incremental example_decoder example_heap [[[5]], [[6]]] example_memory_bank 0
       = Inr ([[[21, 5]], [[24, 5]]], 2,
              example_heap @ [TransformerDecoderState_obj
                \<lparr>src = [[[3]], [[4]]], previous_input = Some [[[5]]],
                   previous_layer_inputs = Some [[[[5, 1]]]]\<rparr>,
               TransformerDecoderState_obj
                \<lparr>src = [[[3]], [[4]]], previous_input = Some [[[5]], [[6]]],
                   previous_layer_inputs = Some [[[[5, 1], [6, 1]]]]\<rparr>])"
    by code_simp
  have nopad: "\<forall>j \<le> 1. [[[5]], [[6::int]]] ! j ! 0 ! 0
                 \<noteq> word_padding_idx (embeddings example_decoder)"
    by (simp add: example_decoder_def example_embeddings_def le_Suc_eq)
  from incremental_equals_full[OF example_decoder_contract state tgt full inc]
  have "\<forall>k < 2. \<forall>b < 1.
          (\<forall>j \<le> k. [[[5]], [[6::int]]] ! j ! b ! 0 \<noteq> word_padding_idx (embeddings example_decoder))
          \<longrightarrow> [[[21, 5]], [[24, 5::real]]] ! k ! b = [[[21, 5]], [[24, 5::real]]] ! k ! b"
    by blast
  with nopad have "[[[21, 5]], [[24, 5::real]]] ! 1 ! 0 = [[[21, 5]], [[24, 5::real]]] ! 1 ! 0"
    by simp
  with example_decoder_contract state tgt(1) full inc show ?thesis by blast
qed

text \<open>
  C1, as stated, fails for a target that holds the padding word. The non-incremental
  call masks a padded key position in the self-attention bias; an incremental call
  clears that bias and attends to the whole cached history, the padded position
  included. On the example decoder, for the target \<open>[5, PAD, 6]\<close>, the outputs at
  positions 1 and 2 differ between the two ways of decoding.
\<close>

theorem incremental_padding_counterexample:
  "word_padding_idx (embeddings example_decoder) = 0
   \<and> example_heap ! 0 = TransformerDecoderState_obj example_state
   \<and> previous_input example_state = None
   \<and> TransformerDecoder_forward example_decoder example_heap [[[5]], [[0]], [[6]]]
       example_memory_bank 0
       = Inr (([[[21, 5]], [[11, 5]], [[24, 5]]], 1,
               [(''std'', [[[1 / 2, 1 / 2]], [[1 / 2, 1 / 2]], [[1 / 2, 1 / 2]]]),
                (''copy'', [[[1 / 2, 1 / 2]], [[1 / 2, 1 / 2]], [[1 / 2, 1 / 2]]])]),
              example_heap @ [TransformerDecoderState_obj
                \<lparr>src = [[[3]], [[4]]], previous_input = Some [[[5]], [[0]], [[6]]],
                   previous_layer_inputs = Some [[[[5, 1], [0, 1], [6, 1]]]]\<rparr>])
   \<and> decode_incremental example_decoder example_heap [[[5]], [[0]], [[6]]] example_memory_bank 0
       = Inr ([[[21, 5]], [[6, 5]], [[61 / 3, 5]]], 3,
              example_heap @ [TransformerDecoderState_obj
                \<lparr>src = [[[3]], [[4]]], previous_input = Some [[[5]]],
                   previous_layer_inputs = Some [[[[5, 1]]]]\<rparr>,
               TransformerDecoderState_obj
                \<lparr>src = [[[3]], [[4]]], previous_input = Some [[[5]], [[0]]],
                   previous_layer_inputs = Some [[[[5, 1], [0, 1]]]]\<rparr>,
               TransformerDecoderState_obj
                \<lparr>src = [[[3]], [[4]]], previous_input = Some [[[5]], [[0]], [[6]]],
                   previous_layer_inputs = Some [[[[5, 1], [0, 1], [6, 1]]]]\<rparr>])
   \<and> [[[21, 5]], [[11, 5]], [[24, 5::real]]] \<noteq> [[[21, 5]], [[6, 5]], [[61 / 3, 5]]]"
  by code_simp

end
